(* ===== verification/Program.thy ===== *)
theory Program
  imports Prelude
begin

text \<open>
  Go errors as values, and the combinators in which every effectful function of the
  program is written: a program takes a state and returns either an error or a value,
  together with the state it leaves behind (an early \<open>return err\<close> keeps the effects made
  before it). The locale \<open>guarantee\<close> is the calculus for properties of the form
  "whatever this program does, the state before and the state after are related by R".
\<close>

section \<open>Errors\<close>

text \<open>\<open>github.APIError\<close> and \<open>forgejo.APIError\<close>.\<close>

record github_api_error =
  gae_Method :: string
  gae_URL :: string
  gae_StatusCode :: int
  gae_RequestID :: string
  gae_RetryAfter :: int
  gae_rateLimited :: bool
  gae_Body :: string

record forgejo_api_error =
  fae_Method :: string
  fae_URL :: string
  fae_StatusCode :: int
  fae_RetryAfter :: int

text \<open>
  \<open>Err\<close> is \<open>errors.New\<close> (and \<open>fmt.Errorf\<close> without an operand error), \<open>Wrap\<close> is
  \<open>fmt.Errorf("prefix: %w", err)\<close>; the other constructors are the error types and
  sentinels that the program inspects with \<open>errors.As\<close> and \<open>errors.Is\<close>.
\<close>

datatype go_error =
    Err string
  | Wrap string go_error
  | GitHubAPI github_api_error
  | ForgejoAPI forgejo_api_error
  | URLError string
  | CommandError int string
  | ErrPullRequestExists
  | ErrNoCommits
  | ErrCannotReopen

definition github_error_text :: "github_api_error \<Rightarrow> string" where
  "github_error_text e = ''github API '' @ gae_Method e @ '' '' @ gae_URL e @ '' returned ''
     @ FormatInt (gae_StatusCode e) @ '' (request '' @ gae_RequestID e @ ''): ''
     @ (if length (gae_Body e) > 300 then take 300 (gae_Body e) else gae_Body e)"

definition forgejo_error_text :: "forgejo_api_error \<Rightarrow> string" where
  "forgejo_error_text e = ''Forgejo API '' @ fae_Method e @ '' '' @ fae_URL e @ '' returned ''
     @ FormatInt (fae_StatusCode e)"

text \<open>The method \<open>Error()\<close>.\<close>

fun Error :: "go_error \<Rightarrow> string" where
  "Error (Err m) = m"
| "Error (Wrap m e) = m @ '': '' @ Error e"
| "Error (GitHubAPI a) = github_error_text a"
| "Error (ForgejoAPI a) = forgejo_error_text a"
| "Error (URLError m) = m"
| "Error (CommandError c out) = ''git exited '' @ FormatInt c @ '': '' @ out"
| "Error ErrPullRequestExists = ''pull request already exists for head and base''"
| "Error ErrNoCommits = ''pull request refs cannot span a difference''"
| "Error ErrCannotReopen = ''pull request cannot be reopened''"

text \<open>The innermost error of a chain; \<open>errors.As\<close> and \<open>errors.Is\<close> search the chain, and
  only its last element is not a wrapper.\<close>

fun cause :: "go_error \<Rightarrow> go_error" where
  "cause (Wrap m e) = cause e"
| "cause e = e"

definition as_github :: "go_error \<Rightarrow> github_api_error option" where
  "as_github e = (case cause e of GitHubAPI a \<Rightarrow> Some a | _ \<Rightarrow> None)"

definition as_forgejo :: "go_error \<Rightarrow> forgejo_api_error option" where
  "as_forgejo e = (case cause e of ForgejoAPI a \<Rightarrow> Some a | _ \<Rightarrow> None)"

definition is_err :: "go_error \<Rightarrow> go_error \<Rightarrow> bool" where
  "is_err e target \<longleftrightarrow> cause e = target"

lemma cause_not_Wrap [simp]: "cause e \<noteq> Wrap m e'"
  by (induction e rule: cause.induct) auto

lemma Wrap_text_Contains: "Contains (Error e) t \<Longrightarrow> Contains (Error (Wrap m e)) t"
  using Contains_append_right [of "Error e" t "m @ '': ''"] by simp

section \<open>Programs\<close>

type_synonym ('s, 'a) prog = "'s \<Rightarrow> (go_error + 'a) \<times> 's"

definition ret :: "'a \<Rightarrow> ('s, 'a) prog" where
  "ret x = (\<lambda>s. (Inr x, s))"

definition throw :: "go_error \<Rightarrow> ('s, 'a) prog" where
  "throw e = (\<lambda>s. (Inl e, s))"

text \<open>Sequencing: \<open>x, err := m; if err != nil { return err }; k(x)\<close>.\<close>

definition bnd :: "('s, 'a) prog \<Rightarrow> ('a \<Rightarrow> ('s, 'b) prog) \<Rightarrow> ('s, 'b) prog" where
  "bnd m k = (\<lambda>s. case m s of (Inl e, t) \<Rightarrow> (Inl e, t) | (Inr x, t) \<Rightarrow> k x t)"

text \<open>Calling without returning on an error: the caller inspects it.\<close>

definition tryE :: "('s, 'a) prog \<Rightarrow> (go_error + 'a \<Rightarrow> ('s, 'b) prog) \<Rightarrow> ('s, 'b) prog" where
  "tryE m k = (\<lambda>s. case m s of (r, t) \<Rightarrow> k r t)"

text \<open>\<open>return fmt.Errorf("msg: %w", err)\<close> around a call.\<close>

definition wrapE :: "string \<Rightarrow> ('s, 'a) prog \<Rightarrow> ('s, 'a) prog" where
  "wrapE msg m = (\<lambda>s. case m s of (Inl e, t) \<Rightarrow> (Inl (Wrap msg e), t) | (Inr x, t) \<Rightarrow> (Inr x, t))"

definition whenE :: "bool \<Rightarrow> ('s, unit) prog \<Rightarrow> ('s, unit) prog" where
  "whenE b m = (if b then m else ret ())"

definition of_sum :: "go_error + 'a \<Rightarrow> ('s, 'a) prog" where
  "of_sum r = (\<lambda>s. (r, s))"

text \<open>\<open>defer f()\<close>: the cleanup runs when the body has returned, with or without an error.\<close>

definition deferE :: "('s \<Rightarrow> 's) \<Rightarrow> ('s, 'a) prog \<Rightarrow> ('s, 'a) prog" where
  "deferE f m = (\<lambda>s. case m s of (r, t) \<Rightarrow> (r, f t))"

text \<open>A \<open>for _, x := range xs\<close> loop whose body may return an error; \<open>a\<close> holds the local
  variables that the body updates.\<close>

fun foldE :: "('x \<Rightarrow> 'a \<Rightarrow> ('s, 'a) prog) \<Rightarrow> 'x list \<Rightarrow> 'a \<Rightarrow> ('s, 'a) prog" where
  "foldE f [] a = ret a"
| "foldE f (x # xs) a = bnd (f x a) (foldE f xs)"

definition forE :: "('x \<Rightarrow> ('s, unit) prog) \<Rightarrow> 'x list \<Rightarrow> ('s, unit) prog" where
  "forE f xs = foldE (\<lambda>x _. f x) xs ()"

lemma forE_simps [simp]:
  "forE f [] = ret ()"
  "forE f (x # xs) = bnd (f x) (\<lambda>_. forE f xs)"
  by (auto simp: forE_def bnd_def fun_eq_iff)

lemma ret_app [prog_simps]: "ret x s = (Inr x, s)" by (simp add: ret_def)
lemma throw_app [prog_simps]: "throw e s = (Inl e, s)" by (simp add: throw_def)
lemma of_sum_app [prog_simps]: "of_sum r s = (r, s)" by (simp add: of_sum_def)
lemma bnd_app [prog_simps]:
  "bnd m k s = (case m s of (Inl e, t) \<Rightarrow> (Inl e, t) | (Inr x, t) \<Rightarrow> k x t)" by (simp add: bnd_def)
lemma tryE_app [prog_simps]: "tryE m k s = (case m s of (r, t) \<Rightarrow> k r t)" by (simp add: tryE_def)
lemma wrapE_app [prog_simps]:
  "wrapE msg m s = (case m s of (Inl e, t) \<Rightarrow> (Inl (Wrap msg e), t) | (Inr x, t) \<Rightarrow> (Inr x, t))"
  by (simp add: wrapE_def)
lemma deferE_app [prog_simps]: "deferE f m s = (case m s of (r, t) \<Rightarrow> (r, f t))"
  by (simp add: deferE_def)
lemma whenE_app [prog_simps]: "whenE b m s = (if b then m s else (Inr (), s))"
  by (simp add: whenE_def ret_def)

lemma bnd_ret [simp]: "bnd (ret x) k = k x" by (simp add: bnd_def ret_def)
lemma bnd_throw [simp]: "bnd (throw e) k = throw e" by (simp add: bnd_def throw_def)
lemma whenE_True [simp]: "whenE True m = m" by (simp add: whenE_def)
lemma whenE_False [simp]: "whenE False m = ret ()" by (simp add: whenE_def)
lemma bnd_assoc: "bnd (bnd m k) h = bnd m (\<lambda>x. bnd (k x) h)"
  by (auto simp: bnd_def fun_eq_iff split: prod.splits sum.splits)

lemma foldE_append: "foldE f (xs @ ys) a = bnd (foldE f xs a) (foldE f ys)"
proof (induction xs arbitrary: a)
  case (Cons x xs)
  then have "foldE f (xs @ ys) = (\<lambda>a. bnd (foldE f xs a) (foldE f ys))" by (rule ext)
  then show ?case by (simp add: bnd_assoc)
qed simp

lemma wrapE_Inr: "wrapE msg m s = (Inr x, t) \<longleftrightarrow> m s = (Inr x, t)"
  by (auto simp: wrapE_app split: prod.splits sum.splits)

lemma bnd_Inr: "bnd m k s = (Inr x, t) \<longleftrightarrow> (\<exists>y u. m s = (Inr y, u) \<and> k y u = (Inr x, t))"
  by (auto simp: bnd_app split: prod.splits sum.splits)

lemma ret_Inr: "ret y s = (Inr x, t) \<longleftrightarrow> x = y \<and> t = s"
  by (auto simp: ret_app)

lemma wrapE_Inl: "wrapE msg m s = (Inl e, t) \<longleftrightarrow> (\<exists>e'. e = Wrap msg e' \<and> m s = (Inl e', t))"
  by (auto simp: wrapE_app split: prod.splits sum.splits)

lemma bnd_Inl: "bnd m k s = (Inl e, t) \<longleftrightarrow> m s = (Inl e, t) \<or> (\<exists>y u. m s = (Inr y, u) \<and> k y u = (Inl e, t))"
  by (auto simp: bnd_app split: prod.splits sum.splits)

lemma bnd_cong:
  "m = m' \<Longrightarrow> (\<And>s x t. m' s = (Inr x, t) \<Longrightarrow> k x t = k' x t) \<Longrightarrow> bnd m k = bnd m' k'"
  by (auto simp: bnd_def fun_eq_iff split: prod.splits sum.splits)

lemma deferE_Inr: "deferE f m s = (Inr x, t) \<longleftrightarrow> (\<exists>u. m s = (Inr x, u) \<and> t = f u)"
  by (auto simp: deferE_app split: prod.splits)

lemma tryE_Inr: "tryE m k s = (r, t) \<longleftrightarrow> (\<exists>x u. m s = (x, u) \<and> k x u = (r, t))"
  by (auto simp: tryE_app split: prod.splits)

section \<open>The guarantee calculus\<close>

definition guar :: "('s \<Rightarrow> 's \<Rightarrow> bool) \<Rightarrow> ('s, 'a) prog \<Rightarrow> bool" where
  "guar R m \<longleftrightarrow> (\<forall>s. R s (snd (m s)))"

lemma guarI: "(\<And>s. R s (snd (m s))) \<Longrightarrow> guar R m"
  by (simp add: guar_def)

lemma guarD: "guar R m \<Longrightarrow> m s = (r, t) \<Longrightarrow> R s t"
  unfolding guar_def by (metis snd_conv)

lemma guar_if: "(b \<Longrightarrow> guar R m) \<Longrightarrow> (\<not> b \<Longrightarrow> guar R n) \<Longrightarrow> guar R (if b then m else n)"
  by simp

lemma guar_option:
  "(x = None \<Longrightarrow> guar R m) \<Longrightarrow> (\<And>y. x = Some y \<Longrightarrow> guar R (n y)) \<Longrightarrow>
   guar R (case x of None \<Rightarrow> m | Some y \<Rightarrow> n y)"
  by (cases x) auto

lemma guar_sum:
  "(\<And>e. x = Inl e \<Longrightarrow> guar R (m e)) \<Longrightarrow> (\<And>y. x = Inr y \<Longrightarrow> guar R (n y)) \<Longrightarrow>
   guar R (case x of Inl e \<Rightarrow> m e | Inr y \<Rightarrow> n y)"
  by (cases x) auto

lemma guar_prod: "(\<And>a b. x = (a, b) \<Longrightarrow> guar R (m a b)) \<Longrightarrow> guar R (case x of (a, b) \<Rightarrow> m a b)"
  by (cases x) auto

lemma guar_let: "guar R (f x) \<Longrightarrow> guar R (let y = x in f y)"
  by (simp add: Let_def)

lemma guar_mono: "guar R m \<Longrightarrow> (\<And>s t. R s t \<Longrightarrow> S s t) \<Longrightarrow> guar S m"
  by (auto simp: guar_def)

lemmas guar_splits = guar_if guar_option guar_sum guar_prod guar_let

locale guarantee =
  fixes R :: "'s \<Rightarrow> 's \<Rightarrow> bool"
  assumes refl: "R s s"
    and trans: "R s t \<Longrightarrow> R t u \<Longrightarrow> R s u"
begin

lemma ret_guar [guar_intros]: "guar R (ret x)"
  by (simp add: guar_def ret_def refl)

lemma throw_guar [guar_intros]: "guar R (throw e)"
  by (simp add: guar_def throw_def refl)

lemma of_sum_guar [guar_intros]: "guar R (of_sum r)"
  by (simp add: guar_def of_sum_def refl)

lemma bnd_guar [guar_intros]: "guar R m \<Longrightarrow> (\<And>x. guar R (k x)) \<Longrightarrow> guar R (bnd m k)"
  unfolding guar_def bnd_def
  by (auto split: prod.splits sum.splits) (metis snd_conv trans)+

lemma tryE_guar [guar_intros]: "guar R m \<Longrightarrow> (\<And>x. guar R (k x)) \<Longrightarrow> guar R (tryE m k)"
  unfolding guar_def tryE_def by (auto split: prod.splits) (metis snd_conv trans)

lemma wrapE_guar [guar_intros]: "guar R m \<Longrightarrow> guar R (wrapE msg m)"
  unfolding guar_def wrapE_def by (auto split: prod.splits sum.splits) (metis snd_conv)+

lemma whenE_guar [guar_intros]: "(b \<Longrightarrow> guar R m) \<Longrightarrow> guar R (whenE b m)"
  by (simp add: whenE_def ret_guar)

lemma deferE_guar: "guar R m \<Longrightarrow> (\<And>s. R s (f s)) \<Longrightarrow> guar R (deferE f m)"
  unfolding guar_def deferE_def by (auto split: prod.splits) (metis snd_conv trans)

lemma foldE_guar [guar_intros]:
  "(\<And>x a. x \<in> set xs \<Longrightarrow> guar R (f x a)) \<Longrightarrow> guar R (foldE f xs a)"
  by (induction xs arbitrary: a) (auto intro: ret_guar bnd_guar)

lemma forE_guar [guar_intros]:
  "(\<And>x. x \<in> set xs \<Longrightarrow> guar R (f x)) \<Longrightarrow> guar R (forE f xs)"
  unfolding forE_def by (rule foldE_guar) simp

end

end
