(* ===== verification/Model.thy ===== *)
theory Model
  imports Program
begin

text \<open>
  The shared data of \<open>internal/model/model.go\<close>: repositories, issues, pull requests,
  comments, releases, their mappings and the conflict rows. A \<open>time.Time\<close> is the number
  of nanoseconds since the Unix epoch, in UTC; \<open>time_zero\<close> is Go's zero time.
\<close>

type_synonym time = int
type_synonym duration = int

definition second :: duration where "second = 1000000000"
definition minute :: duration where "minute = 60 * second"

definition time_zero :: time where
  "time_zero = - 62135596800 * second"

definition IsZero :: "time \<Rightarrow> bool" where
  "IsZero t \<longleftrightarrow> t = time_zero"

section \<open>URLs\<close>

text \<open>What \<open>url.Parse\<close> reports of a URL.\<close>

record parsed_url =
  u_Scheme :: string
  u_Host :: string
  u_User :: bool

section \<open>Visibility\<close>

datatype visibility = VisibilityPrivate | VisibilityInternal | VisibilityPublic

text \<open>How far a visibility exposes a repository: the order in which failing closed is stated.\<close>

definition exposure :: "visibility \<Rightarrow> nat" where
  "exposure v = (case v of VisibilityPrivate \<Rightarrow> 0 | VisibilityInternal \<Rightarrow> 1 | VisibilityPublic \<Rightarrow> 2)"

instantiation visibility :: linorder
begin

definition less_eq_visibility :: "visibility \<Rightarrow> visibility \<Rightarrow> bool" where
  "v \<le> w \<longleftrightarrow> exposure v \<le> exposure w"

definition less_visibility :: "visibility \<Rightarrow> visibility \<Rightarrow> bool" where
  "v < w \<longleftrightarrow> exposure v < exposure w"

instance
  by standard
    (auto simp: less_eq_visibility_def less_visibility_def exposure_def split: visibility.splits)

end

lemma visibility_private_least [simp]: "VisibilityPrivate \<le> v"
  by (simp add: less_eq_visibility_def exposure_def)

lemma visibility_public_greatest [simp]: "v \<le> VisibilityPublic"
  by (cases v) (simp_all add: less_eq_visibility_def exposure_def)

fun visibility_text :: "visibility \<Rightarrow> string" where
  "visibility_text VisibilityPrivate = ''private''"
| "visibility_text VisibilityInternal = ''internal''"
| "visibility_text VisibilityPublic = ''public''"

section \<open>Objects\<close>

record repository =
  r_ID :: int
  r_Owner :: string
  r_Name :: string
  r_FullName :: string
  r_CloneURL :: string
  r_DefaultBranch :: string
  r_Visibility :: visibility
  r_Archived :: bool
  r_SizeKB :: int
  r_UpdatedAt :: time

record action_secret =
  s_Repository :: string
  s_Name :: string
  s_Value :: string

record issue =
  i_ID :: int
  i_Index :: int
  i_Title :: string
  i_Body :: string
  i_State :: string
  i_Labels :: "string list"
  i_Milestone :: string
  i_UpdatedAt :: time

record pull_request =
  p_ID :: int
  p_Index :: int
  p_Title :: string
  p_Body :: string
  p_State :: string
  p_Head :: string
  p_Base :: string
  p_Draft :: bool
  p_Merged :: bool
  p_UpdatedAt :: time

record comment =
  c_ID :: int
  c_IssueID :: int
  c_Body :: string
  c_UpdatedAt :: time

record release_asset =
  a_ID :: int
  a_Name :: string
  a_Size :: int

record release =
  l_ID :: int
  l_Tag :: string
  l_Name :: string
  l_Body :: string
  l_Draft :: bool
  l_Prerelease :: bool
  l_CreatedAt :: time
  l_Assets :: "release_asset list"

section \<open>Mappings, conflicts, inventory\<close>

record repository_mapping =
  rm_GitHubID :: int
  rm_GitHubFullName :: string
  rm_ForgejoOwner :: string
  rm_ForgejoName :: string
  rm_Visibility :: visibility
  rm_Archived :: bool
  rm_SizeKB :: int
  rm_LastStateHash :: string
  rm_UpdatedAt :: time

record issue_mapping =
  im_RepositoryGitHubID :: int
  im_GitHubID :: int
  im_ForgejoID :: int
  im_GitHubIndex :: int
  im_ForgejoIndex :: int
  im_LastStateHash :: string
  im_UpdatedAt :: time

record pull_request_mapping =
  pm_RepositoryGitHubID :: int
  pm_GitHubID :: int
  pm_ForgejoID :: int
  pm_GitHubIndex :: int
  pm_ForgejoIndex :: int
  pm_LastStateHash :: string
  pm_UpdatedAt :: time

record comment_mapping =
  cm_RepositoryGitHubID :: int
  cm_IssueGitHubID :: int
  cm_GitHubID :: int
  cm_ForgejoID :: int
  cm_LastStateHash :: string
  cm_UpdatedAt :: time

record release_mapping =
  lm_RepositoryGitHubID :: int
  lm_GitHubID :: int
  lm_ForgejoID :: int
  lm_Tag :: string
  lm_LastStateHash :: string
  lm_UpdatedAt :: time

record conflict =
  k_ID :: int
  k_Kind :: string
  k_Repository :: string
  k_ObjectKey :: string
  k_GitHubState :: string
  k_ForgejoState :: string
  k_LastKnownState :: string
  k_CreatedAt :: time
  k_ResolvedAt :: "time option"

record inventory =
  v_GitHubRepositories :: int
  v_ForgejoRepositories :: int
  v_Missing :: int
  v_InSync :: int
  v_Conflicted :: int

text \<open>The object key under which an object pair is recorded in the conflict table:
  \<open>fmt.Sprintf("github:%d/forgejo:%d", a, b)\<close>.\<close>

definition object_key :: "int \<Rightarrow> int \<Rightarrow> string" where
  "object_key a b = ''github:'' @ FormatInt a @ ''/forgejo:'' @ FormatInt b"

lemma object_key_inj: "object_key a b = object_key c d \<longleftrightarrow> a = c \<and> b = d"
proof
  assume "object_key a b = object_key c d"
  then have eq: "FormatInt a @ slash # (''forgejo:'' @ FormatInt b)
      = FormatInt c @ slash # (''forgejo:'' @ FormatInt d)"
    by (simp add: object_key_def)
  have "Cut slash (FormatInt a @ slash # (''forgejo:'' @ FormatInt b))
      = (FormatInt a, ''forgejo:'' @ FormatInt b, True)"
    and "Cut slash (FormatInt c @ slash # (''forgejo:'' @ FormatInt d))
      = (FormatInt c, ''forgejo:'' @ FormatInt d, True)"
    by (rule Cut_append, simp)+
  with eq show "a = c \<and> b = d" by simp
qed simp

end
