(* ===== verification/Tables.thy ===== *)
theory Tables
  imports Model
begin

text \<open>
  The environment the handlers run in (clock, forges, disk) and the SQLite tables that
  \<open>migrations/*.sql\<close> declare, as lists of rows in insertion order, with the semantics of
  an upsert on a table with a primary key and a second uniqueness constraint.
\<close>

section \<open>The environment of a run\<close>

text \<open>
  Everything outside the program is a world \<open>'w\<close>: the clock, the two forges, the git
  binary, the disk. \<open>e_now\<close> reads the clock; \<open>e_fault\<close> decides whether the next database
  call fails with a driver error (which then has no effect: a statement is atomic);
  \<open>e_sha256\<close> is \<open>hex.EncodeToString(sha256.Sum256(_))\<close>; \<open>e_order\<close> is the order in which
  Go ranges over a map, given its entries (Go leaves it open).
\<close>

record 'w env =
  e_now :: "'w \<Rightarrow> time \<times> 'w"
  e_fault :: "'w \<Rightarrow> string option \<times> 'w"
  e_sha256 :: "string \<Rightarrow> string"
  e_order :: "'w \<Rightarrow> (int \<times> int) list \<Rightarrow> (int \<times> int) list"

section \<open>Timestamps\<close>

text \<open>Rendering of a UTC time with the layout \<open>time.RFC3339Nano\<close>: the fraction loses its
  trailing zeros, and disappears when it is zero. Dates by the proleptic Gregorian calendar.\<close>

definition civil :: "int \<Rightarrow> int \<times> int \<times> int" where
  "civil days =
     (let z = days + 719468; era = z div 146097; doe = z mod 146097;
          yoe = (doe - doe div 1460 + doe div 36524 - doe div 146096) div 365;
          doy = doe - (365 * yoe + yoe div 4 - yoe div 100);
          mp = (5 * doy + 2) div 153;
          d = doy - (153 * mp + 2) div 5 + 1;
          m = (if mp < 10 then mp + 3 else mp - 9)
      in (yoe + era * 400 + (if m \<le> 2 then 1 else 0), m, d))"

definition pad :: "nat \<Rightarrow> int \<Rightarrow> string" where
  "pad w n = (let s = show_nat (nat n) in replicate (w - length s) CHR ''0'' @ s)"

definition fraction :: "int \<Rightarrow> string" where
  "fraction ns = (if ns = 0 then [] else CHR ''.'' # TrimRight (pad 9 ns) CHR ''0'')"

definition RFC3339Nano :: "time \<Rightarrow> string" where
  "RFC3339Nano t =
     (let secs = t div second; days = secs div 86400; tod = secs mod 86400;
          (y, m, d) = civil days
      in pad 4 y @ ''-'' @ pad 2 m @ ''-'' @ pad 2 d @ ''T''
         @ pad 2 (tod div 3600) @ '':'' @ pad 2 (tod div 60 mod 60) @ '':'' @ pad 2 (tod mod 60)
         @ fraction (t mod second) @ ''Z'')"

section \<open>Tables\<close>

record delivery =
  d_Forge :: string
  d_DeliveryID :: string
  d_EventType :: string
  d_PayloadHash :: string
  d_ReceivedAt :: time
  d_ProcessedAt :: "time option"
  d_Error :: "string option"

datatype run_status = Running | Succeeded | Failed

record run =
  n_ID :: int
  n_Scope :: string
  n_DryRun :: bool
  n_StartedAt :: time
  n_CompletedAt :: "time option"
  n_Status :: run_status
  n_Summary :: "string option"
  n_Error :: "string option"

text \<open>The two sequences are the \<open>AUTOINCREMENT\<close> counters of the tables that have one: a
  new row gets the next number, and a number is never used twice.\<close>

record store =
  t_repositories :: "repository_mapping list"
  t_issues :: "issue_mapping list"
  t_pulls :: "pull_request_mapping list"
  t_comments :: "comment_mapping list"
  t_releases :: "release_mapping list"
  t_deliveries :: "delivery list"
  t_conflicts :: "conflict list"
  t_conflict_seq :: int
  t_runs :: "run list"
  t_run_seq :: int

definition empty_store :: store where
  "empty_store = \<lparr>t_repositories = [], t_issues = [], t_pulls = [], t_comments = [],
     t_releases = [], t_deliveries = [], t_conflicts = [], t_conflict_seq = 0,
     t_runs = [], t_run_seq = 0\<rparr>"

record 'w sys =
  db :: store
  world :: 'w

section \<open>Access to the clock, the database and the outside\<close>

definition now :: "'w env \<Rightarrow> ('w sys, time) prog" where
  "now E = (\<lambda>s. case e_now E (world s) of (t, w) \<Rightarrow> (Inr t, s\<lparr>world := w\<rparr>))"

text \<open>One statement: a driver error, or the statement's own result.\<close>

definition db_exec ::
  "'w env \<Rightarrow> (store \<Rightarrow> go_error + 'a \<times> store) \<Rightarrow> ('w sys, 'a) prog" where
  "db_exec E f = (\<lambda>s. case e_fault E (world s) of
     (Some msg, w) \<Rightarrow> (Inl (Err msg), s\<lparr>world := w\<rparr>)
   | (None, w) \<Rightarrow> (case f (db s) of
        Inl e \<Rightarrow> (Inl e, s\<lparr>world := w\<rparr>)
      | Inr (x, d) \<Rightarrow> (Inr x, \<lparr>db = d, world = w\<rparr>)))"

definition db_query :: "'w env \<Rightarrow> (store \<Rightarrow> 'a) \<Rightarrow> ('w sys, 'a) prog" where
  "db_query E g = db_exec E (\<lambda>d. Inr (g d, d))"

text \<open>A call to a forge or to git: it may change the world, never the store.\<close>

type_synonym ('w, 'a) call = "'w \<Rightarrow> (go_error + 'a) \<times> 'w"

definition ext :: "('w, 'a) call \<Rightarrow> ('w sys, 'a) prog" where
  "ext f = (\<lambda>s. case f (world s) of (r, w) \<Rightarrow> (r, s\<lparr>world := w\<rparr>))"

text \<open>Ranging over a map with the given entries.\<close>

definition map_range :: "'w env \<Rightarrow> (int \<times> int) list \<Rightarrow> ('w sys, (int \<times> int) list) prog" where
  "map_range E xs = (\<lambda>s. (Inr (e_order E (world s) xs), s))"

lemma now_app [prog_simps]:
  "now E s = (case e_now E (world s) of (t, w) \<Rightarrow> (Inr t, s\<lparr>world := w\<rparr>))" by (simp add: now_def)
lemma ext_app [prog_simps]:
  "ext f s = (case f (world s) of (r, w) \<Rightarrow> (r, s\<lparr>world := w\<rparr>))" by (simp add: ext_def)
lemma map_range_app [prog_simps]:
  "map_range E xs s = (Inr (e_order E (world s) xs), s)" by (simp add: map_range_def)

section \<open>Keyed tables\<close>

text \<open>
  \<open>INSERT ... ON CONFLICT(primary key) DO UPDATE SET (all other columns) = excluded\<close> on a
  table with a second uniqueness constraint: the row with the same primary key is replaced,
  a new one is appended, and another row that already holds the unique columns is an error
  that leaves the table as it is.
\<close>

definition sql_upsert ::
  "('r \<Rightarrow> 'k) \<Rightarrow> ('r \<Rightarrow> 'u) \<Rightarrow> string \<Rightarrow> 'r \<Rightarrow> 'r list \<Rightarrow> string + 'r list" where
  "sql_upsert pk uq columns r t =
     (if list_ex (\<lambda>x. pk x \<noteq> pk r \<and> uq x = uq r) t
      then Inl (''constraint failed: UNIQUE constraint failed: '' @ columns @ '' (2067)'')
      else if list_ex (\<lambda>x. pk x = pk r) t
      then Inr (map (\<lambda>x. if pk x = pk r then r else x) t)
      else Inr (t @ [r]))"

definition keyed :: "('r \<Rightarrow> 'k) \<Rightarrow> ('r \<Rightarrow> 'u) \<Rightarrow> 'r list \<Rightarrow> bool" where
  "keyed pk uq t \<longleftrightarrow> distinct (map pk t) \<and> distinct (map uq t)"

lemma list_ex_bex: "list_ex P xs \<longleftrightarrow> (\<exists>x \<in> set xs. P x)"
  by (simp add: list_ex_iff)

lemma sql_upsert_set:
  assumes "sql_upsert pk uq c r t = Inr t'"
  shows "set t' = insert r {x \<in> set t. pk x \<noteq> pk r}"
  using assms by (auto simp: sql_upsert_def list_ex_bex split: if_splits)

lemma sql_upsert_mem: "sql_upsert pk uq c r t = Inr t' \<Longrightarrow> x \<in> set t' \<Longrightarrow> x = r \<or> x \<in> set t"
  by (auto dest: sql_upsert_set)

lemma keyed_replace:
  assumes k: "keyed pk uq t" and no: "\<forall>x \<in> set t. pk x \<noteq> pk r \<longrightarrow> uq x \<noteq> uq r"
  shows "keyed pk uq (map (\<lambda>x. if pk x = pk r then r else x) t)"
  using k no
proof (induction t)
  case (Cons a t)
  have pks: "map pk (map (\<lambda>x. if pk x = pk r then r else x) t) = map pk t"
    by (induction t) auto
  from Cons have IH: "keyed pk uq (map (\<lambda>x. if pk x = pk r then r else x) t)"
    by (auto simp: keyed_def)
  show ?case
  proof (cases "pk a = pk r")
    case True
    with Cons.prems(1) have pkt: "\<forall>x \<in> set t. pk x \<noteq> pk r"
      by (auto simp: keyed_def) (metis imageI)
    with Cons.prems(2) have uqt: "\<forall>x \<in> set t. uq x \<noteq> uq r" by simp
    from pkt have "map (\<lambda>x. if pk x = pk r then r else x) t = t"
      by (simp add: map_idI)
    with True Cons.prems(1) pkt uqt show ?thesis
      by (auto simp: keyed_def)
  next
    case False
    with IH Cons.prems pks show ?thesis
      by (auto simp: keyed_def split: if_splits)
  qed
qed (simp add: keyed_def)

lemma sql_upsert_keyed:
  assumes "keyed pk uq t" and "sql_upsert pk uq c r t = Inr t'"
  shows "keyed pk uq t'"
proof -
  from assms(2) have no: "\<forall>x \<in> set t. pk x \<noteq> pk r \<longrightarrow> uq x \<noteq> uq r"
    by (auto simp: sql_upsert_def list_ex_bex split: if_splits)
  show ?thesis
  proof (cases "list_ex (\<lambda>x. pk x = pk r) t")
    case True
    with assms no show ?thesis
      by (auto simp: sql_upsert_def list_ex_bex intro: keyed_replace split: if_splits)
  next
    case False
    with assms(2) have t': "t' = t @ [r]" by (auto simp: sql_upsert_def split: if_splits)
    from False no have "\<forall>x \<in> set t. pk x \<noteq> pk r \<and> uq x \<noteq> uq r" by (auto simp: list_ex_bex)
    with assms(1) t' show ?thesis by (auto simp: keyed_def)
  qed
qed

lemma sql_upsert_fails:
  assumes "sql_upsert pk uq c r t = Inl m"
  shows "(\<exists>x \<in> set t. pk x \<noteq> pk r \<and> uq x = uq r) \<and> Contains m ''UNIQUE constraint failed''"
proof -
  have "Contains (''constraint failed: UNIQUE constraint failed: '' @ c @ '' (2067)'')
      ''UNIQUE constraint failed''"
    unfolding Contains_iff
    by (rule exI [of _ "''constraint failed: ''"], rule exI [of _ "'': '' @ c @ '' (2067)''"]) simp
  with assms show ?thesis by (auto simp: sql_upsert_def list_ex_bex split: if_splits)
qed

end
