(* ===== verification/Store.thy ===== *)
theory Store
  imports Tables
begin

text \<open>
  The operations of \<open>internal/state/store.go\<close>: each has the validation of the Go method,
  the effect of its SQL statement on the tables, and its error texts. Then the invariant of
  the tables, the contract of a mapping table (a locale, interpreted on the four mapping
  tables and the repository table), and the relations between the store before and after a
  handler in which the other theories state their frame properties.
\<close>

section \<open>Mapping tables\<close>

definition repository_exists :: "store \<Rightarrow> int \<Rightarrow> bool" where
  "repository_exists d rid \<longleftrightarrow> list_ex (\<lambda>m. rm_GitHubID m = rid) (t_repositories d)"

text \<open>\<open>REFERENCES repository_mappings(github_id)\<close> with \<open>PRAGMA foreign_keys = ON\<close>, checked
  at the end of the statement.\<close>

definition fk_checked :: "store \<Rightarrow> int \<Rightarrow> string + 'r list \<Rightarrow> go_error + 'r list" where
  "fk_checked d rid u = (case u of Inl m \<Rightarrow> Inl (Err m)
     | Inr t \<Rightarrow> if repository_exists d rid then Inr t
               else Inl (Err ''constraint failed: FOREIGN KEY constraint failed (787)''))"

abbreviation repository_pk :: "repository_mapping \<Rightarrow> int" where
  "repository_pk m \<equiv> rm_GitHubID m"
abbreviation repository_uq :: "repository_mapping \<Rightarrow> string \<times> string" where
  "repository_uq m \<equiv> (rm_ForgejoOwner m, rm_ForgejoName m)"
abbreviation issue_pk :: "issue_mapping \<Rightarrow> int \<times> int" where
  "issue_pk m \<equiv> (im_RepositoryGitHubID m, im_GitHubID m)"
abbreviation issue_uq :: "issue_mapping \<Rightarrow> int \<times> int" where
  "issue_uq m \<equiv> (im_RepositoryGitHubID m, im_ForgejoID m)"
abbreviation pull_pk :: "pull_request_mapping \<Rightarrow> int \<times> int" where
  "pull_pk m \<equiv> (pm_RepositoryGitHubID m, pm_GitHubID m)"
abbreviation pull_uq :: "pull_request_mapping \<Rightarrow> int \<times> int" where
  "pull_uq m \<equiv> (pm_RepositoryGitHubID m, pm_ForgejoID m)"
abbreviation comment_pk :: "comment_mapping \<Rightarrow> int \<times> int" where
  "comment_pk m \<equiv> (cm_RepositoryGitHubID m, cm_GitHubID m)"
abbreviation comment_uq :: "comment_mapping \<Rightarrow> int \<times> int" where
  "comment_uq m \<equiv> (cm_RepositoryGitHubID m, cm_ForgejoID m)"
abbreviation release_pk :: "release_mapping \<Rightarrow> int \<times> int" where
  "release_pk m \<equiv> (lm_RepositoryGitHubID m, lm_GitHubID m)"
abbreviation release_uq :: "release_mapping \<Rightarrow> int \<times> int" where
  "release_uq m \<equiv> (lm_RepositoryGitHubID m, lm_ForgejoID m)"

definition upsert_repository_row ::
  "repository_mapping \<Rightarrow> store \<Rightarrow> go_error + unit \<times> store" where
  "upsert_repository_row m d =
     (case sql_upsert repository_pk repository_uq
        ''repository_mappings.forgejo_owner, repository_mappings.forgejo_name'' m (t_repositories d) of
        Inl e \<Rightarrow> Inl (Err e) | Inr t \<Rightarrow> Inr ((), d\<lparr>t_repositories := t\<rparr>))"

definition upsert_issue_row :: "issue_mapping \<Rightarrow> store \<Rightarrow> go_error + unit \<times> store" where
  "upsert_issue_row m d =
     (case fk_checked d (im_RepositoryGitHubID m) (sql_upsert issue_pk issue_uq
        ''issue_mappings.repository_github_id, issue_mappings.forgejo_id'' m (t_issues d)) of
        Inl e \<Rightarrow> Inl e | Inr t \<Rightarrow> Inr ((), d\<lparr>t_issues := t\<rparr>))"

definition upsert_pull_row :: "pull_request_mapping \<Rightarrow> store \<Rightarrow> go_error + unit \<times> store" where
  "upsert_pull_row m d =
     (case fk_checked d (pm_RepositoryGitHubID m) (sql_upsert pull_pk pull_uq
        ''pull_request_mappings.repository_github_id, pull_request_mappings.forgejo_id'' m (t_pulls d)) of
        Inl e \<Rightarrow> Inl e | Inr t \<Rightarrow> Inr ((), d\<lparr>t_pulls := t\<rparr>))"

definition upsert_comment_row :: "comment_mapping \<Rightarrow> store \<Rightarrow> go_error + unit \<times> store" where
  "upsert_comment_row m d =
     (case fk_checked d (cm_RepositoryGitHubID m) (sql_upsert comment_pk comment_uq
        ''comment_mappings.repository_github_id, comment_mappings.forgejo_id'' m (t_comments d)) of
        Inl e \<Rightarrow> Inl e | Inr t \<Rightarrow> Inr ((), d\<lparr>t_comments := t\<rparr>))"

definition upsert_release_row :: "release_mapping \<Rightarrow> store \<Rightarrow> go_error + unit \<times> store" where
  "upsert_release_row m d =
     (case fk_checked d (lm_RepositoryGitHubID m) (sql_upsert release_pk release_uq
        ''release_mappings.repository_github_id, release_mappings.forgejo_id'' m (t_releases d)) of
        Inl e \<Rightarrow> Inl e | Inr t \<Rightarrow> Inr ((), d\<lparr>t_releases := t\<rparr>))"

definition UpsertRepository :: "'w env \<Rightarrow> repository_mapping \<Rightarrow> ('w sys, unit) prog" where
  "UpsertRepository E m =
     (if rm_GitHubID m \<le> 0 \<or> rm_GitHubFullName m = [] \<or> rm_ForgejoOwner m = [] \<or> rm_ForgejoName m = []
      then throw (Err ''repository mapping is incomplete'')
      else bnd (if IsZero (rm_UpdatedAt m) then bnd (now E) (\<lambda>t. ret (m\<lparr>rm_UpdatedAt := t\<rparr>)) else ret m)
        (\<lambda>m. wrapE ''upsert repository mapping'' (db_exec E (upsert_repository_row m))))"

definition UpsertIssueMapping :: "'w env \<Rightarrow> issue_mapping \<Rightarrow> ('w sys, unit) prog" where
  "UpsertIssueMapping E m =
     (if im_RepositoryGitHubID m \<le> 0 \<or> im_GitHubID m \<le> 0 \<or> im_ForgejoID m \<le> 0
         \<or> im_GitHubIndex m \<le> 0 \<or> im_ForgejoIndex m \<le> 0 \<or> im_LastStateHash m = []
      then throw (Err ''issue mapping is incomplete'')
      else bnd (if IsZero (im_UpdatedAt m) then bnd (now E) (\<lambda>t. ret (m\<lparr>im_UpdatedAt := t\<rparr>)) else ret m)
        (\<lambda>m. wrapE ''upsert issue mapping'' (db_exec E (upsert_issue_row m))))"

definition UpsertPullRequestMapping :: "'w env \<Rightarrow> pull_request_mapping \<Rightarrow> ('w sys, unit) prog" where
  "UpsertPullRequestMapping E m =
     (if pm_RepositoryGitHubID m \<le> 0 \<or> pm_GitHubID m \<le> 0 \<or> pm_ForgejoID m \<le> 0
         \<or> pm_GitHubIndex m \<le> 0 \<or> pm_ForgejoIndex m \<le> 0 \<or> pm_LastStateHash m = []
      then throw (Err ''pull request mapping is incomplete'')
      else bnd (if IsZero (pm_UpdatedAt m) then bnd (now E) (\<lambda>t. ret (m\<lparr>pm_UpdatedAt := t\<rparr>)) else ret m)
        (\<lambda>m. wrapE ''upsert pull request mapping'' (db_exec E (upsert_pull_row m))))"

definition UpsertCommentMapping :: "'w env \<Rightarrow> comment_mapping \<Rightarrow> ('w sys, unit) prog" where
  "UpsertCommentMapping E m =
     (if cm_RepositoryGitHubID m \<le> 0 \<or> cm_IssueGitHubID m \<le> 0 \<or> cm_GitHubID m \<le> 0
         \<or> cm_ForgejoID m \<le> 0 \<or> cm_LastStateHash m = []
      then throw (Err ''comment mapping is incomplete'')
      else bnd (if IsZero (cm_UpdatedAt m) then bnd (now E) (\<lambda>t. ret (m\<lparr>cm_UpdatedAt := t\<rparr>)) else ret m)
        (\<lambda>m. wrapE ''upsert comment mapping'' (db_exec E (upsert_comment_row m))))"

definition UpsertReleaseMapping :: "'w env \<Rightarrow> release_mapping \<Rightarrow> ('w sys, unit) prog" where
  "UpsertReleaseMapping E m =
     (if lm_RepositoryGitHubID m \<le> 0 \<or> lm_GitHubID m \<le> 0 \<or> lm_ForgejoID m \<le> 0
         \<or> lm_Tag m = [] \<or> lm_LastStateHash m = []
      then throw (Err ''release mapping is incomplete'')
      else bnd (if IsZero (lm_UpdatedAt m) then bnd (now E) (\<lambda>t. ret (m\<lparr>lm_UpdatedAt := t\<rparr>)) else ret m)
        (\<lambda>m. wrapE ''upsert release mapping'' (db_exec E (upsert_release_row m))))"

section \<open>Reading the mapping tables\<close>

definition RepositoryByGitHubID ::
  "'w env \<Rightarrow> int \<Rightarrow> ('w sys, repository_mapping option) prog" where
  "RepositoryByGitHubID E rid = wrapE ''get repository mapping''
     (db_query E (\<lambda>d. List.find (\<lambda>m. rm_GitHubID m = rid) (t_repositories d)))"

definition RepositoriesByForgejoPath ::
  "'w env \<Rightarrow> string \<Rightarrow> string \<Rightarrow> ('w sys, repository_mapping list) prog" where
  "RepositoriesByForgejoPath E owner name = wrapE ''find repository mappings by Forgejo path''
     (db_query E (\<lambda>d. sort_key rm_GitHubFullName
        (filter (\<lambda>m. ToLower (rm_ForgejoOwner m) = ToLower owner \<and> ToLower (rm_ForgejoName m) = ToLower name)
          (t_repositories d))))"

definition ListRepositories :: "'w env \<Rightarrow> ('w sys, repository_mapping list) prog" where
  "ListRepositories E = wrapE ''list repository mappings''
     (db_query E (\<lambda>d. sort_key rm_GitHubFullName (t_repositories d)))"

definition ListIssueMappings :: "'w env \<Rightarrow> int \<Rightarrow> ('w sys, issue_mapping list) prog" where
  "ListIssueMappings E rid = wrapE ''list issue mappings''
     (db_query E (\<lambda>d. sort_key im_GitHubID (filter (\<lambda>m. im_RepositoryGitHubID m = rid) (t_issues d))))"

definition ListPullRequestMappings :: "'w env \<Rightarrow> int \<Rightarrow> ('w sys, pull_request_mapping list) prog" where
  "ListPullRequestMappings E rid = wrapE ''list pull request mappings''
     (db_query E (\<lambda>d. sort_key pm_GitHubID (filter (\<lambda>m. pm_RepositoryGitHubID m = rid) (t_pulls d))))"

definition ListCommentMappings :: "'w env \<Rightarrow> int \<Rightarrow> int \<Rightarrow> ('w sys, comment_mapping list) prog" where
  "ListCommentMappings E rid issueID = wrapE ''list comment mappings''
     (db_query E (\<lambda>d. sort_key cm_GitHubID
        (filter (\<lambda>m. cm_RepositoryGitHubID m = rid \<and> cm_IssueGitHubID m = issueID) (t_comments d))))"

definition ListReleaseMappings :: "'w env \<Rightarrow> int \<Rightarrow> ('w sys, release_mapping list) prog" where
  "ListReleaseMappings E rid = wrapE ''list release mappings''
     (db_query E (\<lambda>d. sort_key lm_GitHubID (filter (\<lambda>m. lm_RepositoryGitHubID m = rid) (t_releases d))))"

section \<open>Webhook deliveries\<close>

definition claim_row ::
  "string \<Rightarrow> string \<Rightarrow> string \<Rightarrow> string \<Rightarrow> time \<Rightarrow> store \<Rightarrow> go_error + bool \<times> store" where
  "claim_row forge deliveryID eventType payloadHash t d =
     (if forge \<noteq> ''github'' \<and> forge \<noteq> ''forgejo''
      then Inl (Err ''constraint failed: CHECK constraint failed: forge IN ('github', 'forgejo') (275)'')
      else if list_ex (\<lambda>x. d_Forge x = forge \<and> d_DeliveryID x = deliveryID) (t_deliveries d)
      then Inr (False, d)
      else Inr (True, d\<lparr>t_deliveries := t_deliveries d @
        [\<lparr>d_Forge = forge, d_DeliveryID = deliveryID, d_EventType = eventType,
          d_PayloadHash = payloadHash, d_ReceivedAt = t, d_ProcessedAt = None, d_Error = None\<rparr>]\<rparr>))"

definition ClaimWebhookDelivery ::
  "'w env \<Rightarrow> string \<Rightarrow> string \<Rightarrow> string \<Rightarrow> string \<Rightarrow> ('w sys, bool) prog" where
  "ClaimWebhookDelivery E forge deliveryID eventType payloadHash =
     bnd (now E) (\<lambda>t. wrapE ''claim webhook delivery''
       (db_exec E (claim_row forge deliveryID eventType payloadHash t)))"

definition mark_row ::
  "string \<Rightarrow> string \<Rightarrow> time \<Rightarrow> string option \<Rightarrow> store \<Rightarrow> go_error + nat \<times> store" where
  "mark_row forge deliveryID t errorText d =
     (let hit = (\<lambda>x. d_Forge x = forge \<and> d_DeliveryID x = deliveryID)
      in Inr (length (filter hit (t_deliveries d)),
         d\<lparr>t_deliveries := map (\<lambda>x. if hit x then x\<lparr>d_ProcessedAt := Some t, d_Error := errorText\<rparr> else x)
            (t_deliveries d)\<rparr>))"

definition MarkWebhookProcessed ::
  "'w env \<Rightarrow> string \<Rightarrow> string \<Rightarrow> go_error option \<Rightarrow> ('w sys, unit) prog" where
  "MarkWebhookProcessed E forge deliveryID processErr =
     bnd (now E) (\<lambda>t.
     bnd (wrapE ''mark webhook processed''
       (db_exec E (mark_row forge deliveryID t (map_option Error processErr)))) (\<lambda>count.
     if count \<noteq> 1 then throw (Err ''webhook delivery was not claimed'') else ret ()))"

section \<open>Conflicts\<close>

definition conflict_tuple :: "conflict \<Rightarrow> string \<times> string \<times> string \<times> string \<times> string" where
  "conflict_tuple k = (k_Kind k, k_Repository k, k_ObjectKey k, k_GitHubState k, k_ForgejoState k)"

definition add_conflict_row :: "conflict \<Rightarrow> store \<Rightarrow> go_error + unit \<times> store" where
  "add_conflict_row k d =
     (if list_ex (\<lambda>x. conflict_tuple x = conflict_tuple k) (t_conflicts d) then Inr ((), d)
      else let i = t_conflict_seq d + 1
           in Inr ((), d\<lparr>t_conflicts := t_conflicts d @ [k\<lparr>k_ID := i, k_ResolvedAt := None\<rparr>],
                          t_conflict_seq := i\<rparr>))"

definition AddConflict :: "'w env \<Rightarrow> conflict \<Rightarrow> ('w sys, unit) prog" where
  "AddConflict E k =
     bnd (if IsZero (k_CreatedAt k) then bnd (now E) (\<lambda>t. ret (k\<lparr>k_CreatedAt := t\<rparr>)) else ret k)
       (\<lambda>k. wrapE ''add conflict'' (db_exec E (add_conflict_row k)))"

text \<open>\<open>ORDER BY created_at, id\<close>: the first key is the stored text.\<close>

definition unresolved :: "store \<Rightarrow> conflict list" where
  "unresolved d = sort_key (\<lambda>k. RFC3339Nano (k_CreatedAt k))
     (sort_key k_ID (filter (\<lambda>k. k_ResolvedAt k = None) (t_conflicts d)))"

definition ListConflicts :: "'w env \<Rightarrow> ('w sys, conflict list) prog" where
  "ListConflicts E = wrapE ''list conflicts'' (db_query E unresolved)"

definition resolve_row :: "int \<Rightarrow> time \<Rightarrow> store \<Rightarrow> go_error + nat \<times> store" where
  "resolve_row i t d =
     (let hit = (\<lambda>k. k_ID k = i \<and> k_ResolvedAt k = None)
      in Inr (length (filter hit (t_conflicts d)),
         d\<lparr>t_conflicts := map (\<lambda>k. if hit k then k\<lparr>k_ResolvedAt := Some t\<rparr> else k) (t_conflicts d)\<rparr>))"

definition conflictByID :: "'w env \<Rightarrow> int \<Rightarrow> ('w sys, conflict option) prog" where
  "conflictByID E i =
     bnd (wrapE (''read conflict '' @ FormatInt i)
       (db_query E (\<lambda>d. List.find (\<lambda>k. k_ID k = i) (t_conflicts d)))) (\<lambda>row.
     case row of None \<Rightarrow> ret None
     | Some k \<Rightarrow> (case k_ResolvedAt k of
         None \<Rightarrow> throw (Wrap (''read conflict '' @ FormatInt i)
           (Err ''sql: Scan error on column index 8: converting NULL to string is unsupported''))
       | Some _ \<Rightarrow> ret (Some k)))"

text \<open>\<open>None\<close> is the pair of an empty conflict and \<open>false\<close>.\<close>

definition ResolveConflict :: "'w env \<Rightarrow> int \<Rightarrow> ('w sys, conflict option) prog" where
  "ResolveConflict E i =
     bnd (now E) (\<lambda>t.
     bnd (wrapE (''resolve conflict '' @ FormatInt i) (db_exec E (resolve_row i t))) (\<lambda>count.
     if count \<noteq> 1 then ret None else conflictByID E i))"

section \<open>Reconciliation runs and statistics\<close>

definition begin_run_row :: "string \<Rightarrow> bool \<Rightarrow> time \<Rightarrow> store \<Rightarrow> go_error + int \<times> store" where
  "begin_run_row scope dryRun t d =
     (let i = t_run_seq d + 1
      in Inr (i, d\<lparr>t_runs := t_runs d @ [\<lparr>n_ID = i, n_Scope = scope, n_DryRun = dryRun, n_StartedAt = t,
           n_CompletedAt = None, n_Status = Running, n_Summary = None, n_Error = None\<rparr>], t_run_seq := i\<rparr>))"

definition BeginRun :: "'w env \<Rightarrow> string \<Rightarrow> bool \<Rightarrow> ('w sys, int) prog" where
  "BeginRun E scope dryRun = bnd (now E) (\<lambda>t.
     wrapE ''begin reconciliation run'' (db_exec E (begin_run_row scope dryRun t)))"

definition complete_run_row ::
  "int \<Rightarrow> string \<Rightarrow> go_error option \<Rightarrow> time \<Rightarrow> store \<Rightarrow> go_error + nat \<times> store" where
  "complete_run_row i summary runErr t d =
     (let hit = (\<lambda>n. n_ID n = i \<and> n_Status n = Running)
      in Inr (length (filter hit (t_runs d)),
         d\<lparr>t_runs := map (\<lambda>n. if hit n
             then n\<lparr>n_CompletedAt := Some t,
                    n_Status := (case runErr of None \<Rightarrow> Succeeded | Some _ \<Rightarrow> Failed),
                    n_Summary := Some summary, n_Error := map_option Error runErr\<rparr>
             else n) (t_runs d)\<rparr>))"

definition CompleteRun ::
  "'w env \<Rightarrow> int \<Rightarrow> string \<Rightarrow> go_error option \<Rightarrow> ('w sys, unit) prog" where
  "CompleteRun E i summary runErr = bnd (now E) (\<lambda>t.
     bnd (wrapE ''complete reconciliation run'' (db_exec E (complete_run_row i summary runErr t))) (\<lambda>count.
     if count \<noteq> 1 then throw (Err ''reconciliation run is absent or already completed'') else ret ()))"

record stats =
  st_Repositories :: nat
  st_Issues :: nat
  st_PullRequests :: nat
  st_Comments :: nat
  st_Releases :: nat
  st_Conflicts :: nat
  st_Deliveries :: nat
  st_Runs :: nat

text \<open>Eight \<open>COUNT\<close> queries; the first that fails ends the call.\<close>

definition Stats :: "'w env \<Rightarrow> ('w sys, stats) prog" where
  "Stats E =
     bnd (wrapE ''count repositories'' (db_query E (\<lambda>d. length (t_repositories d)))) (\<lambda>a.
     bnd (wrapE ''count issues'' (db_query E (\<lambda>d. length (t_issues d)))) (\<lambda>b.
     bnd (wrapE ''count pull_requests'' (db_query E (\<lambda>d. length (t_pulls d)))) (\<lambda>c.
     bnd (wrapE ''count comments'' (db_query E (\<lambda>d. length (t_comments d)))) (\<lambda>e.
     bnd (wrapE ''count releases'' (db_query E (\<lambda>d. length (t_releases d)))) (\<lambda>f.
     bnd (wrapE ''count conflicts'' (db_query E
        (\<lambda>d. length (filter (\<lambda>k. k_ResolvedAt k = None) (t_conflicts d))))) (\<lambda>g.
     bnd (wrapE ''count deliveries'' (db_query E (\<lambda>d. length (t_deliveries d)))) (\<lambda>h.
     bnd (wrapE ''count runs'' (db_query E (\<lambda>d. length (t_runs d)))) (\<lambda>i.
     ret \<lparr>st_Repositories = a, st_Issues = b, st_PullRequests = c, st_Comments = e, st_Releases = f,
          st_Conflicts = g, st_Deliveries = h, st_Runs = i\<rparr>))))))))"

end
