(* ===== verification/StoreLaws.thy ===== *)
theory StoreLaws
  imports Store
begin

text \<open>
  What the store promises its clients: the table invariant \<open>store_wf\<close>, the contract of a
  mapping table (\<open>mapping_table\<close>), and the relations \<open>honest\<close> (what every operation except
  the operator's resolution of a conflict does to the tables), \<open>retained\<close> (what that one does
  too) and \<open>unchanged\<close>, with the guarantee calculus instantiated for them.
\<close>

section \<open>The table invariant\<close>

definition mappings_wf :: "store \<Rightarrow> bool" where
  "mappings_wf d \<longleftrightarrow>
     keyed repository_pk repository_uq (t_repositories d)
   \<and> keyed issue_pk issue_uq (t_issues d) \<and> keyed pull_pk pull_uq (t_pulls d)
   \<and> keyed comment_pk comment_uq (t_comments d) \<and> keyed release_pk release_uq (t_releases d)"

definition references_wf :: "store \<Rightarrow> bool" where
  "references_wf d \<longleftrightarrow>
     (\<forall>m \<in> set (t_issues d). repository_exists d (im_RepositoryGitHubID m))
   \<and> (\<forall>m \<in> set (t_pulls d). repository_exists d (pm_RepositoryGitHubID m))
   \<and> (\<forall>m \<in> set (t_comments d). repository_exists d (cm_RepositoryGitHubID m))
   \<and> (\<forall>m \<in> set (t_releases d). repository_exists d (lm_RepositoryGitHubID m))"

definition numbered :: "('r \<Rightarrow> int) \<Rightarrow> int \<Rightarrow> 'r list \<Rightarrow> bool" where
  "numbered i seq t \<longleftrightarrow> 0 \<le> seq \<and> distinct (map i t) \<and> (\<forall>x \<in> set t. 0 < i x \<and> i x \<le> seq)"

definition conflicts_wf :: "store \<Rightarrow> bool" where
  "conflicts_wf d \<longleftrightarrow> distinct (map conflict_tuple (t_conflicts d))
     \<and> numbered k_ID (t_conflict_seq d) (t_conflicts d)"

definition deliveries_wf :: "store \<Rightarrow> bool" where
  "deliveries_wf d \<longleftrightarrow> distinct (map (\<lambda>x. (d_Forge x, d_DeliveryID x)) (t_deliveries d))
     \<and> (\<forall>x \<in> set (t_deliveries d). d_Forge x \<in> {''github'', ''forgejo''})"

definition runs_wf :: "store \<Rightarrow> bool" where
  "runs_wf d \<longleftrightarrow> numbered n_ID (t_run_seq d) (t_runs d)
     \<and> (\<forall>n \<in> set (t_runs d). (n_Status n = Running) = (n_CompletedAt n = None)
          \<and> (n_Status n = Failed) = (n_Error n \<noteq> None))"

definition store_wf :: "store \<Rightarrow> bool" where
  "store_wf d \<longleftrightarrow> mappings_wf d \<and> references_wf d \<and> conflicts_wf d \<and> deliveries_wf d \<and> runs_wf d"

lemmas wf_defs = store_wf_def mappings_wf_def references_wf_def conflicts_wf_def
  deliveries_wf_def runs_wf_def

lemma empty_store_wf [simp]: "store_wf empty_store"
  by (simp add: wf_defs empty_store_def keyed_def numbered_def)

lemma numbered_append:
  "numbered i seq t \<Longrightarrow> i x = seq + 1 \<Longrightarrow> numbered i (seq + 1) (t @ [x])"
  by (auto simp: numbered_def)

lemma numbered_map:
  "(\<And>x. i (f x) = i x) \<Longrightarrow> numbered i seq (map f t) = numbered i seq t"
  by (simp add: numbered_def comp_def)

lemma numbered_unique: "numbered i seq t \<Longrightarrow> length (filter (\<lambda>x. i x = n \<and> P x) t) \<le> 1"
proof (induction t)
  case (Cons a t)
  then have IH: "length (filter (\<lambda>x. i x = n \<and> P x) t) \<le> 1" by (simp add: numbered_def)
  show ?case
  proof (cases "i a = n \<and> P a")
    case True
    with Cons.prems have "filter (\<lambda>x. i x = n \<and> P x) t = []"
      by (auto simp: numbered_def filter_empty_conv) (metis imageI)
    with True show ?thesis by simp
  next
    case False
    then have "filter (\<lambda>x. i x = n \<and> P x) (a # t) = filter (\<lambda>x. i x = n \<and> P x) t" by auto
    with IH show ?thesis by simp
  qed
qed simp

section \<open>The contract of a mapping table\<close>

text \<open>
  A mapping table pairs an object of one forge (its primary key \<open>pk\<close>) with an object of the
  other (\<open>uq\<close>). The clients (the reconcilers) rely on: both columns stay unique, an upsert
  stores its row and leaves all rows with another key alone.
\<close>

locale mapping_table =
  fixes upsert :: "'r \<Rightarrow> store \<Rightarrow> go_error + unit \<times> store"
    and rows :: "store \<Rightarrow> 'r list"
    and pk :: "'r \<Rightarrow> 'k"
    and uq :: "'r \<Rightarrow> 'u"
  assumes table_keyed: "store_wf d \<Longrightarrow> keyed pk uq (rows d)"
    and upsert_wf: "store_wf d \<Longrightarrow> upsert r d = Inr (u, d') \<Longrightarrow> store_wf d'"
    and upsert_rows: "upsert r d = Inr (u, d') \<Longrightarrow>
          set (rows d') = insert r {x \<in> set (rows d). pk x \<noteq> pk r}"
    and upsert_conflicts: "upsert r d = Inr (u, d') \<Longrightarrow> t_conflicts d' = t_conflicts d"
begin

lemma row_by_key:
  assumes "store_wf d" and "x \<in> set (rows d)" and "y \<in> set (rows d)" and "pk x = pk y"
  shows "x = y"
  using table_keyed [OF assms(1)] assms(2-4)
  unfolding keyed_def by (metis distinct_map inj_onD)

lemma row_by_other:
  assumes "store_wf d" and "x \<in> set (rows d)" and "y \<in> set (rows d)" and "uq x = uq y"
  shows "x = y"
  using table_keyed [OF assms(1)] assms(2-4)
  unfolding keyed_def by (metis distinct_map inj_onD)

lemma upsert_stores: "upsert r d = Inr (u, d') \<Longrightarrow> r \<in> set (rows d')"
  by (simp add: upsert_rows)

lemma upsert_keeps_others:
  "upsert r d = Inr (u, d') \<Longrightarrow> x \<in> set (rows d) \<Longrightarrow> pk x \<noteq> pk r \<Longrightarrow> x \<in> set (rows d')"
  by (simp add: upsert_rows)

lemma upsert_keys: "upsert r d = Inr (u, d') \<Longrightarrow> pk ` set (rows d') = insert (pk r) (pk ` set (rows d))"
  by (auto simp: upsert_rows)

text \<open>A slot of the other forge is never taken over: an upsert that succeeds names either a
  free object of the other forge or the one this very key was paired with.\<close>

lemma upsert_steals_nothing:
  assumes wf: "store_wf d" and u: "upsert r d = Inr (u, d')"
    and x: "x \<in> set (rows d)" and eq: "uq x = uq r"
  shows "pk x = pk r"
proof (rule ccontr)
  assume ne: "pk x \<noteq> pk r"
  with u x have "x \<in> set (rows d')" and "r \<in> set (rows d')"
    by (auto simp: upsert_rows)
  with upsert_wf [OF wf u] eq have "x = r" by (blast intro: row_by_other)
  with ne show False by simp
qed

end

section \<open>Relations between the store before and after\<close>

definition on_db :: "(store \<Rightarrow> store \<Rightarrow> bool) \<Rightarrow> 'w sys \<Rightarrow> 'w sys \<Rightarrow> bool" where
  "on_db P s t \<longleftrightarrow> P (db s) (db t)"

abbreviation delivery_key :: "delivery \<Rightarrow> string \<times> string" where
  "delivery_key x \<equiv> (d_Forge x, d_DeliveryID x)"

text \<open>A table keeps its rows: every row stays in its place, changed at most as \<open>R\<close> allows, and new
  rows come after the old ones.\<close>

definition evolves :: "('r \<Rightarrow> 'r \<Rightarrow> bool) \<Rightarrow> 'r list \<Rightarrow> 'r list \<Rightarrow> bool" where
  "evolves R t t' \<longleftrightarrow> length t \<le> length t' \<and> list_all2 R t (take (length t) t')"

lemma evolves_refl: "(\<And>x. R x x) \<Longrightarrow> evolves R t t"
  by (simp add: evolves_def list_all2_refl)

lemma evolves_trans:
  assumes "evolves R t t'" and "evolves R t' t''" and "\<And>x y z. R x y \<Longrightarrow> R y z \<Longrightarrow> R x z"
  shows "evolves R t t''"
proof -
  have "list_all2 R (take (length t) t') (take (length t) (take (length t') t''))"
    using assms(2) by (intro list_all2_takeI) (simp add: evolves_def)
  moreover have "take (length t) (take (length t') t'') = take (length t) t''"
    using assms(1) by (simp add: evolves_def min_def)
  ultimately have second: "list_all2 R (take (length t) t') (take (length t) t'')" by simp
  have first: "list_all2 R t (take (length t) t')" using assms(1) by (simp add: evolves_def)
  have "list_all2 R t (take (length t) t'')" by (rule list_all2_trans [OF _ first second]) (rule assms(3))
  then show ?thesis using assms(1,2) by (simp add: evolves_def)
qed

lemma evolves_append: "(\<And>x. R x x) \<Longrightarrow> evolves R t (t @ new)"
  by (simp add: evolves_def list_all2_refl)

lemma evolves_map: "(\<And>x. x \<in> set t \<Longrightarrow> R x (f x)) \<Longrightarrow> evolves R t (map f t)"
  by (simp add: evolves_def list_all2_conv_all_nth)

lemma evolves_mem:
  assumes "evolves R t t'" and "x \<in> set t"
  shows "\<exists>y \<in> set t'. R x y"
proof -
  obtain i where "i < length t" "x = t ! i" using assms(2) by (auto simp: in_set_conv_nth)
  with assms(1) have "R x (take (length t) t' ! i)" "i < length t'"
    by (auto simp: evolves_def dest: list_all2_nthD)
  with \<open>i < length t\<close> show ?thesis by auto
qed

lemma evolves_image:
  assumes "evolves R t t'" and "\<And>x y. R x y \<Longrightarrow> f y = f x"
  shows "f ` set t \<subseteq> f ` set t'"
proof
  fix v assume "v \<in> f ` set t"
  then obtain x where "x \<in> set t" "v = f x" by blast
  with evolves_mem [OF assms(1)] assms(2) show "v \<in> f ` set t'" by (metis imageI)
qed

definition same_key :: "('r \<Rightarrow> 'k) \<Rightarrow> 'r \<Rightarrow> 'r \<Rightarrow> bool" where
  "same_key pk x y \<longleftrightarrow> pk y = pk x"

lemma same_key_refl [simp]: "same_key pk x x"
  by (simp add: same_key_def)

lemma same_key_trans: "same_key pk x y \<Longrightarrow> same_key pk y z \<Longrightarrow> same_key pk x z"
  by (simp add: same_key_def)

lemma evolves_upsert:
  assumes "sql_upsert pk uq c r t = Inr t'"
  shows "evolves (same_key pk) t t'"
  using assms by (auto simp: sql_upsert_def same_key_def intro: evolves_append evolves_map split: if_splits)

text \<open>What may happen to a row. A mapping is only overwritten by an upsert of the same key; of a
  delivery the claim stays, and that it was processed; a run that is completed stays as it is,
  and one that is running can only be completed; a conflict can only be resolved, and once.\<close>

definition delivery_kept :: "delivery \<Rightarrow> delivery \<Rightarrow> bool" where
  "delivery_kept x y \<longleftrightarrow> y = x\<lparr>d_ProcessedAt := d_ProcessedAt y, d_Error := d_Error y\<rparr>
     \<and> (d_ProcessedAt x \<noteq> None \<longrightarrow> d_ProcessedAt y \<noteq> None)"

definition run_kept :: "run \<Rightarrow> run \<Rightarrow> bool" where
  "run_kept x y \<longleftrightarrow> y = x \<or> n_Status x = Running \<and> n_Status y \<noteq> Running \<and> n_CompletedAt y \<noteq> None
     \<and> n_ID y = n_ID x \<and> n_Scope y = n_Scope x \<and> n_DryRun y = n_DryRun x \<and> n_StartedAt y = n_StartedAt x"

definition conflict_kept :: "conflict \<Rightarrow> conflict \<Rightarrow> bool" where
  "conflict_kept k k' \<longleftrightarrow> k' = k \<or> k_ResolvedAt k = None \<and> (\<exists>t. k' = k\<lparr>k_ResolvedAt := Some t\<rparr>)"

definition rows_kept :: "store \<Rightarrow> store \<Rightarrow> bool" where
  "rows_kept d d' \<longleftrightarrow>
     evolves (same_key repository_pk) (t_repositories d) (t_repositories d')
   \<and> evolves (same_key issue_pk) (t_issues d) (t_issues d')
   \<and> evolves (same_key pull_pk) (t_pulls d) (t_pulls d')
   \<and> evolves (same_key comment_pk) (t_comments d) (t_comments d')
   \<and> evolves (same_key release_pk) (t_releases d) (t_releases d')
   \<and> evolves delivery_kept (t_deliveries d) (t_deliveries d')
   \<and> evolves run_kept (t_runs d) (t_runs d')"

definition conflicts_appended :: "store \<Rightarrow> store \<Rightarrow> bool" where
  "conflicts_appended d d' \<longleftrightarrow>
     (\<exists>new. t_conflicts d' = t_conflicts d @ new \<and> (\<forall>k \<in> set new. k_ResolvedAt k = None))"

definition honest :: "store \<Rightarrow> store \<Rightarrow> bool" where
  "honest d d' \<longleftrightarrow> (store_wf d \<longrightarrow> store_wf d') \<and> rows_kept d d' \<and> conflicts_appended d d'"

text \<open>The same with conflicts that may have been resolved: what the whole program does.\<close>

definition retained :: "store \<Rightarrow> store \<Rightarrow> bool" where
  "retained d d' \<longleftrightarrow> (store_wf d \<longrightarrow> store_wf d') \<and> rows_kept d d'
     \<and> evolves conflict_kept (t_conflicts d) (t_conflicts d')"

definition unchanged :: "store \<Rightarrow> store \<Rightarrow> bool" where
  "unchanged d d' \<longleftrightarrow> d' = d"

lemma row_kept_refl [simp]: "delivery_kept x x" "run_kept n n" "conflict_kept k k"
  by (simp_all add: delivery_kept_def run_kept_def conflict_kept_def)

lemma row_kept_trans:
  "delivery_kept x y \<Longrightarrow> delivery_kept y z \<Longrightarrow> delivery_kept x z"
  "run_kept n m \<Longrightarrow> run_kept m o' \<Longrightarrow> run_kept n o'"
  "conflict_kept k l \<Longrightarrow> conflict_kept l m' \<Longrightarrow> conflict_kept k m'"
  by (cases x; cases y; cases z; simp add: delivery_kept_def) (auto simp: run_kept_def conflict_kept_def)

lemma rows_kept_refl [simp]: "rows_kept d d"
  by (simp add: rows_kept_def evolves_refl)

lemma rows_kept_trans: "rows_kept d e \<Longrightarrow> rows_kept e f \<Longrightarrow> rows_kept d f"
  unfolding rows_kept_def
  by (elim conjE) (intro conjI; rule evolves_trans, assumption, assumption; erule (1) same_key_trans row_kept_trans)

text \<open>No key of a mapping or of a delivery disappears.\<close>

lemma rows_kept_keys:
  assumes "rows_kept d d'"
  shows "repository_pk ` set (t_repositories d) \<subseteq> repository_pk ` set (t_repositories d')"
    "issue_pk ` set (t_issues d) \<subseteq> issue_pk ` set (t_issues d')"
    "pull_pk ` set (t_pulls d) \<subseteq> pull_pk ` set (t_pulls d')"
    "comment_pk ` set (t_comments d) \<subseteq> comment_pk ` set (t_comments d')"
    "release_pk ` set (t_releases d) \<subseteq> release_pk ` set (t_releases d')"
    "delivery_key ` set (t_deliveries d) \<subseteq> delivery_key ` set (t_deliveries d')"
proof -
  have key: "delivery_kept x y \<Longrightarrow> delivery_key y = delivery_key x" for x y
    by (cases x; cases y) (simp add: delivery_kept_def)
  show "repository_pk ` set (t_repositories d) \<subseteq> repository_pk ` set (t_repositories d')"
    "issue_pk ` set (t_issues d) \<subseteq> issue_pk ` set (t_issues d')"
    "pull_pk ` set (t_pulls d) \<subseteq> pull_pk ` set (t_pulls d')"
    "comment_pk ` set (t_comments d) \<subseteq> comment_pk ` set (t_comments d')"
    "release_pk ` set (t_releases d) \<subseteq> release_pk ` set (t_releases d')"
    "delivery_key ` set (t_deliveries d) \<subseteq> delivery_key ` set (t_deliveries d')"
    using assms key unfolding rows_kept_def same_key_def by (blast intro: evolves_image [THEN subsetD])+
qed

lemma honest_keys:
  assumes "honest d d'"
  shows "issue_pk ` set (t_issues d) \<subseteq> issue_pk ` set (t_issues d')"
    "pull_pk ` set (t_pulls d) \<subseteq> pull_pk ` set (t_pulls d')"
    "comment_pk ` set (t_comments d) \<subseteq> comment_pk ` set (t_comments d')"
    "delivery_key ` set (t_deliveries d) \<subseteq> delivery_key ` set (t_deliveries d')"
proof -
  have "rows_kept d d'" using assms by (simp add: honest_def)
  note k = rows_kept_keys [OF this]
  show "issue_pk ` set (t_issues d) \<subseteq> issue_pk ` set (t_issues d')"
    "pull_pk ` set (t_pulls d) \<subseteq> pull_pk ` set (t_pulls d')"
    "comment_pk ` set (t_comments d) \<subseteq> comment_pk ` set (t_comments d')"
    "delivery_key ` set (t_deliveries d) \<subseteq> delivery_key ` set (t_deliveries d')" by (fact k)+
qed

lemma honest_refl: "honest d d"
  by (auto simp: honest_def conflicts_appended_def)

lemma honest_trans: "honest d e \<Longrightarrow> honest e f \<Longrightarrow> honest d f"
  unfolding honest_def conflicts_appended_def
  by (elim conjE exE, intro conjI) (blast, erule (1) rows_kept_trans, auto)

lemma unchanged_honest: "unchanged d d' \<Longrightarrow> honest d d'"
  by (simp add: unchanged_def honest_refl)

locale store_guarantee =
  fixes P :: "store \<Rightarrow> store \<Rightarrow> bool"
  assumes P_refl: "P d d"
    and P_trans: "P d e \<Longrightarrow> P e f \<Longrightarrow> P d f"
begin

sublocale guarantee "on_db P :: 'w sys \<Rightarrow> 'w sys \<Rightarrow> bool"
  by unfold_locales (auto simp: on_db_def intro: P_refl P_trans)

lemma now_guar [guar_intros]: "guar (on_db P) (now E)"
  by (rule guarI) (simp add: now_def on_db_def P_refl split: prod.splits)

lemma ext_guar [guar_intros]: "guar (on_db P) (ext f)"
  by (rule guarI) (simp add: ext_def on_db_def P_refl split: prod.splits)

lemma map_range_guar [guar_intros]: "guar (on_db P) (map_range E xs)"
  by (rule guarI) (simp add: map_range_def on_db_def P_refl)

lemma db_exec_guar: "(\<And>d x d'. f d = Inr (x, d') \<Longrightarrow> P d d') \<Longrightarrow> guar (on_db P) (db_exec E f)"
  by (rule guarI)
    (auto simp: db_exec_def on_db_def P_refl split: prod.splits option.splits sum.splits)

lemma db_query_guar [guar_intros]: "guar (on_db P) (db_query E g)"
  unfolding db_query_def by (rule db_exec_guar) (auto simp: P_refl)

end

interpretation honest: store_guarantee honest
  by unfold_locales (auto intro: honest_refl honest_trans)

interpretation unchanged: store_guarantee unchanged
  by unfold_locales (auto simp: unchanged_def)

interpretation retained: store_guarantee retained
proof
  fix d e f :: store
  assume "retained d e" "retained e f"
  then show "retained d f"
    unfolding retained_def by (blast intro: rows_kept_trans evolves_trans row_kept_trans(3))
qed (simp add: retained_def evolves_refl)

lemma honest_retained: "guar (on_db honest) m \<Longrightarrow> guar (on_db retained) m"
  by (erule guar_mono) (auto simp: on_db_def honest_def retained_def conflicts_appended_def intro!: evolves_append)

lemmas list_guars [guar_intros] =
  honest.wrapE_guar [OF honest.db_query_guar] unchanged.wrapE_guar [OF unchanged.db_query_guar]

lemma read_unchanged [guar_intros]:
  "guar (on_db unchanged) (RepositoryByGitHubID E rid)"
  "guar (on_db unchanged) (RepositoriesByForgejoPath E ow nm)"
  "guar (on_db unchanged) (ListRepositories E)"
  "guar (on_db unchanged) (ListIssueMappings E rid)"
  "guar (on_db unchanged) (ListPullRequestMappings E rid)"
  "guar (on_db unchanged) (ListCommentMappings E rid iid)"
  "guar (on_db unchanged) (ListReleaseMappings E rid)"
  "guar (on_db unchanged) (ListConflicts E)"
  "guar (on_db unchanged) (conflictByID E k)"
  "guar (on_db unchanged) (Stats E)"
  unfolding RepositoryByGitHubID_def RepositoriesByForgejoPath_def ListRepositories_def
    ListIssueMappings_def ListPullRequestMappings_def ListCommentMappings_def
    ListReleaseMappings_def ListConflicts_def conflictByID_def Stats_def
  by (intro guar_intros guar_splits)+

lemma unchanged_guar_honest: "guar (on_db unchanged) m \<Longrightarrow> guar (on_db honest) m"
  by (erule guar_mono) (simp add: on_db_def unchanged_honest)

lemmas read_honest [guar_intros] = read_unchanged [THEN unchanged_guar_honest]

section \<open>Every statement is honest\<close>

lemma fk_checked_Inr: "fk_checked d rid u = Inr t \<longleftrightarrow> u = Inr t \<and> repository_exists d rid"
  by (auto simp: fk_checked_def split: sum.splits)

lemma upsert_row_cases:
  "upsert_issue_row im d = Inr (u, d') \<Longrightarrow>
     repository_exists d (im_RepositoryGitHubID im) \<and>
     (\<exists>c t. sql_upsert issue_pk issue_uq c im (t_issues d) = Inr t \<and> d' = d\<lparr>t_issues := t\<rparr>)"
  "upsert_pull_row pm d = Inr (u, d') \<Longrightarrow>
     repository_exists d (pm_RepositoryGitHubID pm) \<and>
     (\<exists>c t. sql_upsert pull_pk pull_uq c pm (t_pulls d) = Inr t \<and> d' = d\<lparr>t_pulls := t\<rparr>)"
  "upsert_comment_row cm d = Inr (u, d') \<Longrightarrow>
     repository_exists d (cm_RepositoryGitHubID cm) \<and>
     (\<exists>c t. sql_upsert comment_pk comment_uq c cm (t_comments d) = Inr t \<and> d' = d\<lparr>t_comments := t\<rparr>)"
  "upsert_release_row lm d = Inr (u, d') \<Longrightarrow>
     repository_exists d (lm_RepositoryGitHubID lm) \<and>
     (\<exists>c t. sql_upsert release_pk release_uq c lm (t_releases d) = Inr t \<and> d' = d\<lparr>t_releases := t\<rparr>)"
  "upsert_repository_row rm d = Inr (u, d') \<Longrightarrow>
     (\<exists>c t. sql_upsert repository_pk repository_uq c rm (t_repositories d) = Inr t
        \<and> d' = d\<lparr>t_repositories := t\<rparr>)"
  unfolding upsert_issue_row_def upsert_pull_row_def upsert_comment_row_def upsert_release_row_def
    upsert_repository_row_def
  by (auto simp: fk_checked_Inr split: sum.splits)

lemma repository_exists_iff: "repository_exists d rid \<longleftrightarrow> rid \<in> repository_pk ` set (t_repositories d)"
  by (auto simp: repository_exists_def list_ex_iff)

lemma repository_exists_update [simp]:
  "repository_exists (d\<lparr>t_issues := a\<rparr>) = repository_exists d"
  "repository_exists (d\<lparr>t_pulls := b\<rparr>) = repository_exists d"
  "repository_exists (d\<lparr>t_comments := c\<rparr>) = repository_exists d"
  "repository_exists (d\<lparr>t_releases := e\<rparr>) = repository_exists d"
  by (auto simp: repository_exists_def fun_eq_iff)

lemma pk_image_upsert:
  assumes "sql_upsert pk uq c r t = Inr t'"
  shows "pk ` set t' = insert (pk r) (pk ` set t)"
  using sql_upsert_set [OF assms] by auto

section \<open>The five tables meet the contract\<close>

lemma upsert_issue_wf: "store_wf d \<Longrightarrow> upsert_issue_row m d = Inr (u, d') \<Longrightarrow> store_wf d'"
  by (drule upsert_row_cases)
    (auto simp: wf_defs intro: sql_upsert_keyed dest: sql_upsert_mem)

lemma upsert_pull_wf: "store_wf d \<Longrightarrow> upsert_pull_row m d = Inr (u, d') \<Longrightarrow> store_wf d'"
  by (drule upsert_row_cases)
    (auto simp: wf_defs intro: sql_upsert_keyed dest: sql_upsert_mem)

lemma upsert_comment_wf: "store_wf d \<Longrightarrow> upsert_comment_row m d = Inr (u, d') \<Longrightarrow> store_wf d'"
  by (drule upsert_row_cases)
    (auto simp: wf_defs intro: sql_upsert_keyed dest: sql_upsert_mem)

lemma upsert_release_wf: "store_wf d \<Longrightarrow> upsert_release_row m d = Inr (u, d') \<Longrightarrow> store_wf d'"
  by (drule upsert_row_cases)
    (auto simp: wf_defs intro: sql_upsert_keyed dest: sql_upsert_mem)

lemma upsert_repository_wf: "store_wf d \<Longrightarrow> upsert_repository_row m d = Inr (u, d') \<Longrightarrow> store_wf d'"
  by (drule upsert_row_cases)
    (auto simp: wf_defs repository_exists_iff pk_image_upsert intro: sql_upsert_keyed)

lemma upsert_row_sets:
  "upsert_issue_row im d = Inr (u, d') \<Longrightarrow>
     set (t_issues d') = insert im {x \<in> set (t_issues d). issue_pk x \<noteq> issue_pk im}"
  "upsert_pull_row pm d = Inr (u, d') \<Longrightarrow>
     set (t_pulls d') = insert pm {x \<in> set (t_pulls d). pull_pk x \<noteq> pull_pk pm}"
  "upsert_comment_row cm d = Inr (u, d') \<Longrightarrow>
     set (t_comments d') = insert cm {x \<in> set (t_comments d). comment_pk x \<noteq> comment_pk cm}"
  "upsert_release_row lm d = Inr (u, d') \<Longrightarrow>
     set (t_releases d') = insert lm {x \<in> set (t_releases d). release_pk x \<noteq> release_pk lm}"
  "upsert_repository_row rm d = Inr (u, d') \<Longrightarrow>
     set (t_repositories d') = insert rm {x \<in> set (t_repositories d). repository_pk x \<noteq> repository_pk rm}"
  by (force dest!: upsert_row_cases dest: sql_upsert_set)+

lemma table_keys:
  assumes "store_wf d"
  shows "keyed issue_pk issue_uq (t_issues d)" "keyed pull_pk pull_uq (t_pulls d)"
    "keyed comment_pk comment_uq (t_comments d)" "keyed release_pk release_uq (t_releases d)"
    "keyed repository_pk repository_uq (t_repositories d)"
  using assms by (auto simp: store_wf_def mappings_wf_def)

lemma upsert_row_conflicts:
  "upsert_issue_row im d = Inr (u, d') \<Longrightarrow> t_conflicts d' = t_conflicts d"
  "upsert_pull_row pm d = Inr (u, d') \<Longrightarrow> t_conflicts d' = t_conflicts d"
  "upsert_comment_row cm d = Inr (u, d') \<Longrightarrow> t_conflicts d' = t_conflicts d"
  "upsert_release_row lm d = Inr (u, d') \<Longrightarrow> t_conflicts d' = t_conflicts d"
  "upsert_repository_row rm d = Inr (u, d') \<Longrightarrow> t_conflicts d' = t_conflicts d"
  by (force dest!: upsert_row_cases)+

interpretation issue_table: mapping_table upsert_issue_row t_issues issue_pk issue_uq
  by unfold_locales (erule table_keys, erule (1) upsert_issue_wf, erule upsert_row_sets,
      erule upsert_row_conflicts)

interpretation pull_table: mapping_table upsert_pull_row t_pulls pull_pk pull_uq
  by unfold_locales (erule table_keys, erule (1) upsert_pull_wf, erule upsert_row_sets,
      erule upsert_row_conflicts)

interpretation comment_table: mapping_table upsert_comment_row t_comments comment_pk comment_uq
  by unfold_locales (erule table_keys, erule (1) upsert_comment_wf, erule upsert_row_sets,
      erule upsert_row_conflicts)

interpretation release_table: mapping_table upsert_release_row t_releases release_pk release_uq
  by unfold_locales (erule table_keys, erule (1) upsert_release_wf, erule upsert_row_sets,
      erule upsert_row_conflicts)

interpretation repository_table:
  mapping_table upsert_repository_row t_repositories repository_pk repository_uq
  by unfold_locales (erule table_keys, erule (1) upsert_repository_wf, erule upsert_row_sets,
      erule upsert_row_conflicts)

section \<open>Every operation but the resolution of a conflict is honest\<close>

lemma appended_same: "t_conflicts d' = t_conflicts d \<Longrightarrow> conflicts_appended d d'"
  by (simp add: conflicts_appended_def)

lemma upsert_issue_honest: "upsert_issue_row m d = Inr (u, d') \<Longrightarrow> honest d d'"
  by (frule upsert_row_cases)
    (auto simp: honest_def rows_kept_def evolves_refl appended_same intro: upsert_issue_wf evolves_upsert)

lemma upsert_pull_honest: "upsert_pull_row m d = Inr (u, d') \<Longrightarrow> honest d d'"
  by (frule upsert_row_cases)
    (auto simp: honest_def rows_kept_def evolves_refl appended_same intro: upsert_pull_wf evolves_upsert)

lemma upsert_comment_honest: "upsert_comment_row m d = Inr (u, d') \<Longrightarrow> honest d d'"
  by (frule upsert_row_cases)
    (auto simp: honest_def rows_kept_def evolves_refl appended_same intro: upsert_comment_wf evolves_upsert)

lemma upsert_release_honest: "upsert_release_row m d = Inr (u, d') \<Longrightarrow> honest d d'"
  by (frule upsert_row_cases)
    (auto simp: honest_def rows_kept_def evolves_refl appended_same intro: upsert_release_wf evolves_upsert)

lemma upsert_repository_honest: "upsert_repository_row m d = Inr (u, d') \<Longrightarrow> honest d d'"
  by (frule upsert_row_cases)
    (auto simp: honest_def rows_kept_def evolves_refl appended_same intro: upsert_repository_wf evolves_upsert)

lemma wf_frame [simp]:
  "mappings_wf (d\<lparr>t_deliveries := a\<rparr>) = mappings_wf d"
  "mappings_wf (d\<lparr>t_conflicts := b\<rparr>) = mappings_wf d"
  "mappings_wf (d\<lparr>t_conflict_seq := q\<rparr>) = mappings_wf d"
  "mappings_wf (d\<lparr>t_runs := c\<rparr>) = mappings_wf d"
  "mappings_wf (d\<lparr>t_run_seq := q\<rparr>) = mappings_wf d"
  "references_wf (d\<lparr>t_deliveries := a\<rparr>) = references_wf d"
  "references_wf (d\<lparr>t_conflicts := b\<rparr>) = references_wf d"
  "references_wf (d\<lparr>t_conflict_seq := q\<rparr>) = references_wf d"
  "references_wf (d\<lparr>t_runs := c\<rparr>) = references_wf d"
  "references_wf (d\<lparr>t_run_seq := q\<rparr>) = references_wf d"
  "conflicts_wf (d\<lparr>t_deliveries := a\<rparr>) = conflicts_wf d"
  "conflicts_wf (d\<lparr>t_runs := c\<rparr>) = conflicts_wf d"
  "conflicts_wf (d\<lparr>t_run_seq := q\<rparr>) = conflicts_wf d"
  "deliveries_wf (d\<lparr>t_conflicts := b\<rparr>) = deliveries_wf d"
  "deliveries_wf (d\<lparr>t_conflict_seq := q\<rparr>) = deliveries_wf d"
  "deliveries_wf (d\<lparr>t_runs := c\<rparr>) = deliveries_wf d"
  "deliveries_wf (d\<lparr>t_run_seq := q\<rparr>) = deliveries_wf d"
  "runs_wf (d\<lparr>t_deliveries := a\<rparr>) = runs_wf d"
  "runs_wf (d\<lparr>t_conflicts := b\<rparr>) = runs_wf d"
  "runs_wf (d\<lparr>t_conflict_seq := q\<rparr>) = runs_wf d"
  by (simp_all add: mappings_wf_def references_wf_def conflicts_wf_def deliveries_wf_def runs_wf_def
      repository_exists_def)

lemma rows_kept_frame [simp]:
  "rows_kept d (d\<lparr>t_deliveries := a\<rparr>) \<longleftrightarrow> evolves delivery_kept (t_deliveries d) a"
  "rows_kept d (d\<lparr>t_conflicts := b\<rparr>)"
  "rows_kept d (d\<lparr>t_conflicts := b, t_conflict_seq := q\<rparr>)"
  "rows_kept d (d\<lparr>t_runs := c\<rparr>) \<longleftrightarrow> evolves run_kept (t_runs d) c"
  "rows_kept d (d\<lparr>t_runs := c, t_run_seq := q\<rparr>) \<longleftrightarrow> evolves run_kept (t_runs d) c"
  by (simp_all add: rows_kept_def evolves_refl)

lemma claim_row_honest: "claim_row f i e h t d = Inr (b, d') \<Longrightarrow> honest d d'"
  by (auto simp: claim_row_def honest_refl list_ex_iff split: if_splits)
    (auto simp: honest_def appended_same store_wf_def deliveries_wf_def evolves_append)

lemma mark_row_honest:
  assumes "mark_row f i t e d = Inr (n, d')"
  shows "honest d d'"
proof -
  let ?g = "\<lambda>x. if d_Forge x = f \<and> d_DeliveryID x = i then x\<lparr>d_ProcessedAt := Some t, d_Error := e\<rparr> else x"
  have keys: "map (\<lambda>x. (d_Forge x, d_DeliveryID x)) (map ?g xs) = map (\<lambda>x. (d_Forge x, d_DeliveryID x)) xs" for xs
    by simp
  from assms have d': "d' = d\<lparr>t_deliveries := map ?g (t_deliveries d)\<rparr>"
    by (simp add: mark_row_def Let_def)
  have "deliveries_wf d \<Longrightarrow> deliveries_wf d'"
    unfolding deliveries_wf_def d' by (auto simp: keys simp del: map_map)
  moreover have "evolves delivery_kept (t_deliveries d) (map ?g (t_deliveries d))"
    by (rule evolves_map) (simp add: delivery_kept_def)
  ultimately show ?thesis by (simp add: d' honest_def appended_same store_wf_def del: set_map)
qed

lemma conflict_tuple_update [simp]:
  "conflict_tuple (k\<lparr>k_ID := i\<rparr>) = conflict_tuple k"
  "conflict_tuple (k\<lparr>k_ResolvedAt := r\<rparr>) = conflict_tuple k"
  "conflict_tuple (k\<lparr>k_CreatedAt := t\<rparr>) = conflict_tuple k"
  by (simp_all add: conflict_tuple_def)

lemma add_conflict_row_honest:
  assumes "add_conflict_row k d = Inr (u, d')"
  shows "honest d d'"
proof (cases "\<exists>x \<in> set (t_conflicts d). conflict_tuple x = conflict_tuple k")
  case True
  with assms have "d' = d" by (auto simp: add_conflict_row_def list_ex_iff)
  then show ?thesis by (simp add: honest_refl)
next
  case False
  let ?k = "k\<lparr>k_ID := t_conflict_seq d + 1, k_ResolvedAt := None\<rparr>"
  from False assms have d': "d' = d\<lparr>t_conflicts := t_conflicts d @ [?k],
      t_conflict_seq := t_conflict_seq d + 1\<rparr>"
    by (auto simp: add_conflict_row_def list_ex_iff Let_def)
  from False have "conflicts_wf d \<Longrightarrow> conflicts_wf d'"
    by (auto simp: d' conflicts_wf_def intro: numbered_append)
  then show ?thesis
    by (auto simp: honest_def d' store_wf_def conflicts_appended_def)
qed

lemma begin_run_row_honest: "begin_run_row sc dr t d = Inr (i, d') \<Longrightarrow> honest d d'"
  by (auto simp: begin_run_row_def honest_def appended_same store_wf_def runs_wf_def
      numbered_append evolves_append Let_def)

lemma complete_run_row_honest:
  assumes "complete_run_row i sm e t d = Inr (n, d')"
  shows "honest d d'"
proof -
  have "runs_wf d \<Longrightarrow> runs_wf d'"
    using assms by (auto simp: complete_run_row_def runs_wf_def numbered_map Let_def split: option.splits)
  moreover have "\<exists>c. d' = d\<lparr>t_runs := c\<rparr> \<and> evolves run_kept (t_runs d) c"
    using assms by (auto simp: complete_run_row_def run_kept_def Let_def intro!: evolves_map split: option.splits)
  ultimately show ?thesis by (auto simp: honest_def appended_same store_wf_def)
qed

lemma write_honest [guar_intros]:
  "guar (on_db honest) (UpsertRepository E rm)"
  "guar (on_db honest) (UpsertIssueMapping E im)"
  "guar (on_db honest) (UpsertPullRequestMapping E pm)"
  "guar (on_db honest) (UpsertCommentMapping E cm)"
  "guar (on_db honest) (UpsertReleaseMapping E lm)"
  "guar (on_db honest) (ClaimWebhookDelivery E f i e h)"
  "guar (on_db honest) (MarkWebhookProcessed E f i pe)"
  "guar (on_db honest) (AddConflict E k)"
  "guar (on_db honest) (BeginRun E sc dr)"
  "guar (on_db honest) (CompleteRun E n sm re)"
  unfolding UpsertRepository_def UpsertIssueMapping_def UpsertPullRequestMapping_def
    UpsertCommentMapping_def UpsertReleaseMapping_def ClaimWebhookDelivery_def
    MarkWebhookProcessed_def AddConflict_def BeginRun_def CompleteRun_def
  by (intro guar_intros guar_splits honest.db_exec_guar;
      erule upsert_repository_honest upsert_issue_honest upsert_pull_honest upsert_comment_honest
        upsert_release_honest claim_row_honest mark_row_honest add_conflict_row_honest
        begin_run_row_honest complete_run_row_honest)+

text \<open>The resolution of a conflict.\<close>

lemma resolve_row_retained:
  assumes "resolve_row i t d = Inr (n, d')"
  shows "retained d d'"
proof -
  define f :: "conflict \<Rightarrow> conflict" where "f k = (if k_ID k = i \<and> k_ResolvedAt k = None then k\<lparr>k_ResolvedAt := Some t\<rparr> else k)" for k
  have d': "d' = d\<lparr>t_conflicts := map f (t_conflicts d)\<rparr>"
    using assms by (auto simp: resolve_row_def Let_def f_def)
  have same: "k_ID (f k) = k_ID k" "conflict_tuple (f k) = conflict_tuple k" "conflict_kept k (f k)" for k
    by (auto simp: f_def conflict_tuple_def conflict_kept_def)
  show ?thesis
    by (auto simp: d' retained_def store_wf_def conflicts_wf_def numbered_def comp_def same intro: evolves_map)
qed

lemma ResolveConflict_retained: "guar (on_db retained) (ResolveConflict E i)"
  unfolding ResolveConflict_def
  by (intro guar_intros guar_splits retained.db_exec_guar honest_retained [OF read_honest(9)])
    (rule resolve_row_retained)

lemma honest_after: "guar (on_db honest) m \<Longrightarrow> honest (db s) (db (snd (m s)))"
  by (simp add: guar_def on_db_def)

lemma unchanged_after: "guar (on_db unchanged) m \<Longrightarrow> db (snd (m s)) = db s"
  by (simp add: guar_def on_db_def unchanged_def)

end
