(* ===== verification/Hashing.thy ===== *)
theory Hashing
  imports Tables "HOL-Library.Multiset"
begin

text \<open>
  The state hashes of the five object kinds: the canonical JSON text that
  \<open>encoding/json\<close> renders for the struct each \<open>Hash\<close> function fills in, then SHA-256 in
  hexadecimal (a parameter). The lemmas show that the JSON text determines the hashed
  fields, so two objects with the same hash differ only where SHA-256 collides.
\<close>

section \<open>Strings in JSON\<close>

definition cont :: "char \<Rightarrow> bool" where "cont c \<longleftrightarrow> 128 \<le> byte c \<and> byte c \<le> 191"

text \<open>The length of the UTF-8 sequence at the start of a string whose first byte is at least
  128, and 0 where Go's decoder reports an invalid one.\<close>

fun utf8_len :: "string \<Rightarrow> nat" where
  "utf8_len [] = 0"
| "utf8_len (a # r) =
     (if 194 \<le> byte a \<and> byte a \<le> 223 then
        (case r of b # _ \<Rightarrow> if cont b then 2 else 0 | _ \<Rightarrow> 0)
      else if 224 \<le> byte a \<and> byte a \<le> 239 then
        (case r of b # c # _ \<Rightarrow>
           if cont b \<and> cont c \<and> (byte a = 224 \<longrightarrow> 160 \<le> byte b) \<and> (byte a = 237 \<longrightarrow> byte b \<le> 159)
           then 3 else 0
         | _ \<Rightarrow> 0)
      else if 240 \<le> byte a \<and> byte a \<le> 244 then
        (case r of b # c # d # _ \<Rightarrow>
           if cont b \<and> cont c \<and> cont d \<and> (byte a = 240 \<longrightarrow> 144 \<le> byte b) \<and> (byte a = 244 \<longrightarrow> byte b \<le> 143)
           then 4 else 0
         | _ \<Rightarrow> 0)
      else 0)"

text \<open>An ASCII byte inside a JSON string, with the HTML escapes that \<open>json.Marshal\<close> makes.\<close>

definition escape_ascii :: "char \<Rightarrow> string" where
  "escape_ascii c =
     (if c = quote \<or> c = backslash then [backslash, c]
      else if byte c = 8 then [backslash, CHR ''b'']
      else if byte c = 12 then [backslash, CHR ''f'']
      else if byte c = 10 then [backslash, CHR ''n'']
      else if byte c = 13 then [backslash, CHR ''r'']
      else if byte c = 9 then [backslash, CHR ''t'']
      else if byte c < 32 \<or> c = CHR ''<'' \<or> c = CHR ''>'' \<or> c = CHR ''&''
      then backslash # ''u00'' @ [hex_digit (byte c div 16), hex_digit (byte c mod 16)]
      else [c])"

function json_escape :: "string \<Rightarrow> string" where
  "json_escape [] = []"
| "json_escape (c # cs) =
     (if byte c < 128 then escape_ascii c @ json_escape cs
      else (case utf8_len (c # cs) of
          0 \<Rightarrow> backslash # ''ufffd'' @ json_escape cs
        | Suc k \<Rightarrow>
            (if take 3 (c # cs) = [CHR 0xE2, CHR 0x80, CHR 0xA8] then backslash # ''u2028''
             else if take 3 (c # cs) = [CHR 0xE2, CHR 0x80, CHR 0xA9] then backslash # ''u2029''
             else take (Suc k) (c # cs)) @ json_escape (drop k cs)))"
  by pat_completeness auto
termination by (relation "measure length") auto

definition json_string :: "string \<Rightarrow> string" where
  "json_string s = quote # json_escape s @ [quote]"

definition json_bool :: "bool \<Rightarrow> string" where
  "json_bool b = (if b then ''true'' else ''false'')"

fun json_items :: "string list \<Rightarrow> string" where
  "json_items [] = ''''"
| "json_items [x] = json_string x"
| "json_items (x # y # ys) = json_string x @ [comma] @ json_items (y # ys)"

text \<open>A \<open>[]string\<close>; a nil slice is \<open>null\<close>, and \<open>append([]string(nil), xs...)\<close> is nil when
  \<open>xs\<close> is empty.\<close>

definition json_strings :: "string list \<Rightarrow> string" where
  "json_strings xs = (if xs = [] then ''null'' else ''['' @ json_items xs @ '']'')"

text \<open>A struct: its fields in declaration order, each with its rendered value.\<close>

definition json_field :: "string \<Rightarrow> string \<Rightarrow> string" where
  "json_field name v = json_string name @ [colon] @ v"

definition json_object :: "(string \<times> string) list \<Rightarrow> string" where
  "json_object fs = ''{'' @ Join (map (\<lambda>(n, v). json_field n v) fs) '','' @ ''}''"

section \<open>The hashes\<close>

definition issue_json :: "issue \<Rightarrow> string" where
  "issue_json x = json_object [(''title'', json_string (i_Title x)), (''body'', json_string (i_Body x)),
     (''state'', json_string (i_State x)), (''labels'', json_strings (sort_Strings (i_Labels x))),
     (''milestone'', json_string (i_Milestone x))]"

definition issue_Hash :: "'w env \<Rightarrow> issue \<Rightarrow> string" where
  "issue_Hash E x = e_sha256 E (issue_json x)"

definition pull_json :: "pull_request \<Rightarrow> string" where
  "pull_json x = json_object [(''title'', json_string (p_Title x)), (''body'', json_string (p_Body x)),
     (''state'', json_string (p_State x)), (''head'', json_string (p_Head x)),
     (''base'', json_string (p_Base x)), (''draft'', json_bool (p_Draft x)),
     (''merged'', json_bool (p_Merged x))]"

definition pull_Hash :: "'w env \<Rightarrow> pull_request \<Rightarrow> string" where
  "pull_Hash E x = e_sha256 E (pull_json x)"

definition release_json :: "release \<Rightarrow> string" where
  "release_json x = json_object [(''tag'', json_string (l_Tag x)), (''name'', json_string (l_Name x)),
     (''body'', json_string (l_Body x)), (''draft'', json_bool (l_Draft x)),
     (''prerelease'', json_bool (l_Prerelease x))]"

definition release_Hash :: "'w env \<Rightarrow> release \<Rightarrow> string" where
  "release_Hash E x = e_sha256 E (release_json x)"

definition comment_Hash :: "'w env \<Rightarrow> comment \<Rightarrow> string" where
  "comment_Hash E x = e_sha256 E (c_Body x)"

definition repository_json :: "repository \<Rightarrow> string" where
  "repository_json x = json_object [(''id'', FormatInt (r_ID x)), (''full_name'', json_string (r_FullName x)),
     (''visibility'', json_string (visibility_text (r_Visibility x))), (''archived'', json_bool (r_Archived x))]"

definition repositoryHash :: "'w env \<Rightarrow> repository \<Rightarrow> string" where
  "repositoryHash E x = e_sha256 E (repository_json x)"

section \<open>Reading a JSON string back\<close>

text \<open>Every string that comes from a decoded API response is valid UTF-8.\<close>

function valid_utf8 :: "string \<Rightarrow> bool" where
  "valid_utf8 [] = True"
| "valid_utf8 (c # cs) =
     (if byte c < 128 then valid_utf8 cs
      else (case utf8_len (c # cs) of 0 \<Rightarrow> False | Suc k \<Rightarrow> valid_utf8 (drop k cs)))"
  by pat_completeness auto
termination by (relation "measure length") auto

definition hex_val :: "char \<Rightarrow> nat" where
  "hex_val c = (if byte c < 58 then byte c - 48 else byte c - 87)"

fun unescape :: "string \<Rightarrow> string \<times> string" where
  "unescape [] = ([], [])"
| "unescape (c # cs) =
     (if c = quote then ([], cs)
      else if c \<noteq> backslash then map_prod (Cons c) id (unescape cs)
      else (case cs of
          x # r \<Rightarrow>
            if x = CHR ''u'' then
              (case r of h1 # h2 # h3 # h4 # t \<Rightarrow>
                 map_prod (append (if h1 = CHR ''2'' then [CHR 0xE2, CHR 0x80, char_of (160 + hex_val h4)]
                                   else [char_of (16 * hex_val h3 + hex_val h4)])) id (unescape t)
               | _ \<Rightarrow> ([], []))
            else map_prod (Cons (if x = CHR ''b'' then CHR 0x08 else if x = CHR ''f'' then CHR 0x0C
                                 else if x = CHR ''n'' then CHR 0x0A else if x = CHR ''r'' then CHR 0x0D
                                 else if x = CHR ''t'' then CHR 0x09 else x)) id (unescape r)
        | [] \<Rightarrow> ([], [])))"

declare unescape.simps [simp del] json_escape.simps [simp del]

lemma byte_lt: "byte c < 256"
  by (simp add: byte_def)

lemma byte_eq: "byte c = byte d \<longleftrightarrow> c = d"
  by (simp add: byte_def)

lemma byte_char_of [simp]: "n < 256 \<Longrightarrow> byte (char_of n) = n"
  by (simp add: byte_def)

lemma char_of_byte [simp]: "char_of (byte c) = c"
  by (simp add: byte_def)

lemma quote_backslash [simp]: "quote \<noteq> backslash" "backslash \<noteq> quote"
  by (simp_all add: quote_def backslash_def)

lemma hex_val_digit: "d < 16 \<Longrightarrow> hex_val (hex_digit d) = d"
  by (simp add: hex_val_def hex_digit_def)

lemma unescape_literal:
  "c \<noteq> quote \<Longrightarrow> c \<noteq> backslash \<Longrightarrow> unescape (c # r) = map_prod (Cons c) id (unescape r)"
  by (simp add: unescape.simps)

lemma unescape_short:
  "x \<noteq> CHR ''u'' \<Longrightarrow> unescape (backslash # x # r) =
     map_prod (Cons (if x = CHR ''b'' then CHR 0x08 else if x = CHR ''f'' then CHR 0x0C
                     else if x = CHR ''n'' then CHR 0x0A else if x = CHR ''r'' then CHR 0x0D
                     else if x = CHR ''t'' then CHR 0x09 else x)) id (unescape r)"
  by (simp add: unescape.simps(2) [of backslash])

lemma unescape_u00:
  "unescape (backslash # ''u00'' @ [a, b] @ r) =
     map_prod (Cons (char_of (16 * hex_val a + hex_val b))) id (unescape r)"
  by (cases "unescape r") (simp add: unescape.simps(2) [of backslash])

lemma unescape_u202:
  "unescape (backslash # ''u202'' @ [b] @ r) =
     map_prod (append [CHR 0xE2, CHR 0x80, char_of (160 + hex_val b)]) id (unescape r)"
  by (cases "unescape r") (simp add: unescape.simps(2) [of backslash])

lemma unescape_ascii:
  assumes "byte c < 128"
  shows "unescape (escape_ascii c @ r) = map_prod (Cons c) id (unescape r)"
proof -
  have ctl: "c = CHR 0x08 \<longleftrightarrow> byte c = 8" "c = CHR 0x0C \<longleftrightarrow> byte c = 12" "c = CHR 0x0A \<longleftrightarrow> byte c = 10"
    "c = CHR 0x0D \<longleftrightarrow> byte c = 13" "c = CHR 0x09 \<longleftrightarrow> byte c = 9"
    by (auto simp flip: byte_eq simp: byte_def)
  have hex: "char_of (16 * hex_val (hex_digit (byte c div 16)) + hex_val (hex_digit (byte c mod 16))) = c"
    using assms by (simp add: hex_val_digit)
  consider (q) "c = quote \<or> c = backslash" | (b) "byte c \<in> {8, 12, 10, 13, 9}"
    | (u) "c \<noteq> quote" "c \<noteq> backslash" "byte c \<notin> {8, 12, 10, 13, 9}"
          "byte c < 32 \<or> c = CHR ''<'' \<or> c = CHR ''>'' \<or> c = CHR ''&''"
    | (l) "c \<noteq> quote" "c \<noteq> backslash" "byte c \<notin> {8, 12, 10, 13, 9}"
          "\<not> (byte c < 32 \<or> c = CHR ''<'' \<or> c = CHR ''>'' \<or> c = CHR ''&'')"
    by blast
  then show ?thesis
  proof cases
    case q
    then have "c \<notin> {CHR ''u'', CHR ''b'', CHR ''f'', CHR ''n'', CHR ''r'', CHR ''t''}"
      by (auto simp: quote_def backslash_def)
    with q show ?thesis by (simp add: escape_ascii_def unescape_short)
  next
    case b
    then have ne: "c \<noteq> quote" "c \<noteq> backslash" by (auto simp: quote_def backslash_def byte_def)
    from b ctl have "c = CHR 0x08 \<or> c = CHR 0x0C \<or> c = CHR 0x0A \<or> c = CHR 0x0D \<or> c = CHR 0x09"
      by blast
    with ne show ?thesis
      by (elim disjE) (simp_all add: escape_ascii_def unescape_short byte_def)
  next
    case u
    then have e: "escape_ascii c = backslash # ''u00'' @ [hex_digit (byte c div 16), hex_digit (byte c mod 16)]"
      by (auto simp: escape_ascii_def)
    show ?thesis using hex unescape_u00 [of "hex_digit (byte c div 16)" "hex_digit (byte c mod 16)" r]
      by (simp add: e)
  next
    case l
    then show ?thesis by (simp add: escape_ascii_def unescape_literal)
  qed
qed

lemma unescape_high:
  "\<forall>c \<in> set xs. 128 \<le> byte c \<Longrightarrow> unescape (xs @ r) = map_prod (append xs) id (unescape r)"
proof (induction xs)
  case (Cons c xs)
  then have "c \<noteq> quote" "c \<noteq> backslash" by (auto simp: quote_def backslash_def byte_def)
  with Cons show ?case by (cases "unescape r") (simp add: unescape_literal)
qed (cases "unescape r"; simp)

declare utf8_len.simps [simp del]

lemma utf8_high: "utf8_len (c # cs) = Suc k \<Longrightarrow> \<forall>x \<in> set (take (Suc k) (c # cs)). 128 \<le> byte x"
  by (auto simp: utf8_len.simps cont_def split: if_splits list.splits)

text \<open>Decoding what the encoder wrote gives the string back, for every valid UTF-8 string.\<close>

lemma unescape_escape: "valid_utf8 s \<Longrightarrow> unescape (json_escape s @ quote # r) = (s, r)"
proof (induction s rule: json_escape.induct)
  case 1
  show ?case by (simp add: json_escape.simps unescape.simps)
next
  case (2 c cs)
  show ?case
  proof (cases "byte c < 128")
    case True
    with 2 show ?thesis by (simp add: json_escape.simps unescape_ascii)
  next
    case False
    then obtain k where k: "utf8_len (c # cs) = Suc k" and v: "valid_utf8 (drop k cs)"
      using "2.prems" by (auto split: nat.splits)
    have IH: "unescape (json_escape (drop k cs) @ quote # r) = (drop k cs, r)"
      by (rule "2.IH"(3) [OF False k v])
    let ?t = "take (Suc k) (c # cs)"
    have join: "?t @ drop k cs = c # cs" by simp
    have line: "take 3 (c # cs) = [CHR 0xE2, CHR 0x80, x] \<Longrightarrow> ?t = [CHR 0xE2, CHR 0x80, x]" for x
      using k by (cases cs; cases "tl cs") (auto simp: utf8_len.simps byte_def numeral_3_eq_3 split: if_splits list.splits)
    have high: "unescape (?t @ json_escape (drop k cs) @ quote # r) = (?t @ drop k cs, r)"
      using unescape_high [OF utf8_high [OF k], of "json_escape (drop k cs) @ quote # r"] IH by simp
    have u8: "hex_val CHR ''8'' = 8" "hex_val CHR ''9'' = 9" by (simp_all add: hex_val_def byte_def)
    have sep: "unescape (json_escape (c # cs) @ quote # r) = (c # cs, r)"
      if t3: "take 3 (c # cs) = [CHR 0xE2, CHR 0x80, x]"
        and esc: "json_escape (c # cs) = backslash # ''u202'' @ [h] @ json_escape (drop k cs)"
        and h: "char_of (160 + hex_val h) = x" for x h
    proof -
      have "unescape (json_escape (c # cs) @ quote # r) = ([CHR 0xE2, CHR 0x80, x] @ drop k cs, r)"
        using unescape_u202 [of h "json_escape (drop k cs) @ quote # r"] IH esc h by simp
      also have "[CHR 0xE2, CHR 0x80, x] @ drop k cs = c # cs"
        using line [OF t3] join by metis
      finally show ?thesis .
    qed
    consider (ls) "take 3 (c # cs) = [CHR 0xE2, CHR 0x80, CHR 0xA8]"
      | (ps) "take 3 (c # cs) = [CHR 0xE2, CHR 0x80, CHR 0xA9]"
      | (other) "take 3 (c # cs) \<noteq> [CHR 0xE2, CHR 0x80, CHR 0xA8]"
                "take 3 (c # cs) \<noteq> [CHR 0xE2, CHR 0x80, CHR 0xA9]" by blast
    then show ?thesis
    proof cases
      case ls
      with False k have "json_escape (c # cs) = backslash # ''u202'' @ [CHR ''8''] @ json_escape (drop k cs)"
        by (simp add: json_escape.simps)
      then show ?thesis by (rule sep [OF ls]) (simp add: u8 byte_def flip: byte_eq)
    next
      case ps
      with False k have "json_escape (c # cs) = backslash # ''u202'' @ [CHR ''9''] @ json_escape (drop k cs)"
        by (simp add: json_escape.simps)
      then show ?thesis by (rule sep [OF ps]) (simp add: u8 byte_def flip: byte_eq)
    next
      case other
      with False k have "json_escape (c # cs) = ?t @ json_escape (drop k cs)"
        by (auto simp: json_escape.simps)
      with high join show ?thesis by (metis append_assoc)
    qed
  qed
qed

lemma json_string_inj:
  assumes "valid_utf8 s" and "valid_utf8 t" and "json_string s @ r = json_string t @ q"
  shows "s = t \<and> r = q"
proof -
  have "unescape (json_escape s @ quote # r) = unescape (json_escape t @ quote # q)"
    using assms(3) by (simp add: json_string_def)
  with assms(1,2) show ?thesis by (simp add: unescape_escape)
qed

lemma json_string_head: "json_string s = quote # json_escape s @ [quote]"
  by (simp add: json_string_def)

text \<open>A rendered list of strings, followed by the closing bracket, determines the list.\<close>

lemma json_items_inj:
  assumes "xs \<noteq> []" and "ys \<noteq> []" and "\<forall>x \<in> set xs. valid_utf8 x" and "\<forall>y \<in> set ys. valid_utf8 y"
    and "json_items xs @ CHR '']'' # r = json_items ys @ CHR '']'' # q"
  shows "xs = ys \<and> r = q"
  using assms
proof (induction xs arbitrary: ys rule: json_items.induct)
  case (2 x)
  then obtain y ys' where ys: "ys = y # ys'" by (cases ys) auto
  have "json_items ys @ CHR '']'' # q = json_string y @ (if ys' = [] then CHR '']'' # q
      else comma # json_items ys' @ CHR '']'' # q)"
    by (cases ys') (simp_all add: ys)
  with 2 ys have "x = y \<and> CHR '']'' # r = (if ys' = [] then CHR '']'' # q
      else comma # json_items ys' @ CHR '']'' # q)"
    by (intro json_string_inj) simp_all
  with ys show ?case by (auto split: if_splits)
next
  case (3 x x' xs)
  then obtain y ys' where ys: "ys = y # ys'" by (cases ys) auto
  have "json_items ys @ CHR '']'' # q = json_string y @ (if ys' = [] then CHR '']'' # q
      else comma # json_items ys' @ CHR '']'' # q)"
    by (cases ys') (simp_all add: ys)
  with "3.prems" ys have e: "x = y \<and> comma # json_items (x' # xs) @ CHR '']'' # r = (if ys' = [] then CHR '']'' # q
      else comma # json_items ys' @ CHR '']'' # q)"
    by (intro json_string_inj) simp_all
  then have ne: "ys' \<noteq> []" by auto
  with e have "json_items (x' # xs) @ CHR '']'' # r = json_items ys' @ CHR '']'' # q" by simp
  with "3.IH" [of ys'] "3.prems" ys ne have "x' # xs = ys' \<and> r = q" by simp
  with e ys show ?case by simp
qed simp

lemma json_strings_inj:
  assumes "\<forall>x \<in> set xs. valid_utf8 x" and "\<forall>y \<in> set ys. valid_utf8 y"
    and "json_strings xs @ r = json_strings ys @ q"
  shows "xs = ys \<and> r = q"
proof (cases "xs = [] \<or> ys = []")
  case True
  with assms(3) show ?thesis by (auto simp: json_strings_def split: if_splits)
next
  case False
  with assms json_items_inj [of xs ys r q] show ?thesis by (simp add: json_strings_def)
qed

lemma json_bool_inj: "json_bool a @ r = json_bool b @ q \<Longrightarrow> a = b \<and> r = q"
  by (auto simp: json_bool_def split: if_splits)

text \<open>Two rendered values are told apart by what stands where they begin.\<close>

definition prefix_free :: "string \<Rightarrow> string \<Rightarrow> bool" where
  "prefix_free v w \<longleftrightarrow> (\<forall>r q. v @ r = w @ q \<longrightarrow> v = w)"

lemma prefix_free_values:
  "valid_utf8 s \<Longrightarrow> valid_utf8 t \<Longrightarrow> prefix_free (json_string s) (json_string t)"
  "\<forall>x \<in> set xs. valid_utf8 x \<Longrightarrow> \<forall>y \<in> set ys. valid_utf8 y \<Longrightarrow>
     prefix_free (json_strings xs) (json_strings ys)"
  "prefix_free (json_bool a) (json_bool b)"
  unfolding prefix_free_def using json_string_inj json_strings_inj json_bool_inj by blast+

lemma json_string_eq: "valid_utf8 s \<Longrightarrow> valid_utf8 t \<Longrightarrow> json_string s = json_string t \<longleftrightarrow> s = t"
  using json_string_inj [of s t "[]" "[]"] by auto

lemma json_strings_eq:
  "\<forall>x \<in> set xs. valid_utf8 x \<Longrightarrow> \<forall>y \<in> set ys. valid_utf8 y \<Longrightarrow> json_strings xs = json_strings ys \<longleftrightarrow> xs = ys"
  using json_strings_inj [of xs ys "[]" "[]"] by auto

lemma json_bool_eq: "json_bool a = json_bool b \<longleftrightarrow> a = b"
  by (simp add: json_bool_def)

lemma json_object_inj:
  assumes "list_all2 (\<lambda>(n, v) (m, w). n = m \<and> prefix_free v w) fs gs"
    and "json_object fs = json_object gs"
  shows "fs = gs"
proof -
  let ?J = "\<lambda>fs. Join (map (\<lambda>(n, v). json_field n v) fs) '','' @ ''}''"
  have "?J fs = ?J gs \<Longrightarrow> fs = gs"
    using assms(1)
  proof (induction fs gs rule: list_all2_induct)
    case (Cons f fs g gs)
    obtain n v w where fg: "f = (n, v)" "g = (n, w)" "prefix_free v w"
      using Cons.hyps by (cases f; cases g) auto
    let ?rest = "\<lambda>fs. if fs = [] then ''}'' else comma # ?J fs"
    have unfold: "?J ((n, u) # hs) = json_string n @ colon # u @ ?rest hs" for u hs
      by (cases hs) (simp_all add: json_field_def [of n u])
    from Cons.prems have "v @ ?rest fs = w @ ?rest gs"
      unfolding fg unfold by simp
    with fg(3) have "v = w" and "?rest fs = ?rest gs"
      unfolding prefix_free_def by blast+
    moreover have "fs = [] \<longleftrightarrow> gs = []" using Cons.hyps(2) by (auto dest: list_all2_lengthD)
    ultimately show ?case using Cons.IH fg by (auto split: if_splits)
  qed simp
  with assms(2) show ?thesis by (simp add: json_object_def)
qed

section \<open>The JSON text determines the hashed fields\<close>

definition utf8_issue :: "issue \<Rightarrow> bool" where
  "utf8_issue x \<longleftrightarrow> valid_utf8 (i_Title x) \<and> valid_utf8 (i_Body x) \<and> valid_utf8 (i_State x)
     \<and> (\<forall>l \<in> set (i_Labels x). valid_utf8 l) \<and> valid_utf8 (i_Milestone x)"

definition same_issue :: "issue \<Rightarrow> issue \<Rightarrow> bool" where
  "same_issue x y \<longleftrightarrow> i_Title x = i_Title y \<and> i_Body x = i_Body y \<and> i_State x = i_State y
     \<and> mset (i_Labels x) = mset (i_Labels y) \<and> i_Milestone x = i_Milestone y"

lemma sort_eq_iff_mset: "sort xs = sort ys \<longleftrightarrow> mset xs = mset ys"
  using properties_for_sort [of "sort ys" xs] by (metis mset_sort sorted_sort)

lemma issue_json_same:
  assumes "utf8_issue x" and "utf8_issue y"
  shows "issue_json x = issue_json y \<longleftrightarrow> same_issue x y"
  using assms
  unfolding issue_json_def sort_Strings_def utf8_issue_def same_issue_def
    sort_eq_iff_mset [symmetric]
  by (auto simp: prefix_free_values json_string_eq json_strings_eq
      dest!: json_object_inj [rotated])

definition utf8_pull :: "pull_request \<Rightarrow> bool" where
  "utf8_pull x \<longleftrightarrow> valid_utf8 (p_Title x) \<and> valid_utf8 (p_Body x) \<and> valid_utf8 (p_State x)
     \<and> valid_utf8 (p_Head x) \<and> valid_utf8 (p_Base x)"

definition same_pull :: "pull_request \<Rightarrow> pull_request \<Rightarrow> bool" where
  "same_pull x y \<longleftrightarrow> p_Title x = p_Title y \<and> p_Body x = p_Body y \<and> p_State x = p_State y
     \<and> p_Head x = p_Head y \<and> p_Base x = p_Base y \<and> p_Draft x = p_Draft y \<and> p_Merged x = p_Merged y"

lemma pull_json_same:
  assumes "utf8_pull x" and "utf8_pull y"
  shows "pull_json x = pull_json y \<longleftrightarrow> same_pull x y"
  using assms
  unfolding pull_json_def utf8_pull_def same_pull_def
  by (auto simp: prefix_free_values json_string_eq json_bool_eq dest!: json_object_inj [rotated])

definition utf8_release :: "release \<Rightarrow> bool" where
  "utf8_release x \<longleftrightarrow> valid_utf8 (l_Tag x) \<and> valid_utf8 (l_Name x) \<and> valid_utf8 (l_Body x)"

definition same_release :: "release \<Rightarrow> release \<Rightarrow> bool" where
  "same_release x y \<longleftrightarrow> l_Tag x = l_Tag y \<and> l_Name x = l_Name y \<and> l_Body x = l_Body y
     \<and> l_Draft x = l_Draft y \<and> l_Prerelease x = l_Prerelease y"

lemma release_json_same:
  assumes "utf8_release x" and "utf8_release y"
  shows "release_json x = release_json y \<longleftrightarrow> same_release x y"
  using assms
  unfolding release_json_def utf8_release_def same_release_def
  by (auto simp: prefix_free_values json_string_eq json_bool_eq dest!: json_object_inj [rotated])

end
