(* ===== verification/Pairing.thy ===== *)
theory Pairing
  imports StoreLaws Hashing
begin

text \<open>
  What the four object reconcilers (issues, pull requests, comments, releases) share: the
  validation of a listing, the \<open>byID\<close> and \<open>unconsumed\<close> helpers, the pairing of objects by a
  key that is unique on both sides, the three-way decision against the last synchronized
  state, and the recording of a conflict.
\<close>

section \<open>Listings\<close>

text \<open>\<open>validate*\<close>: every element passes the check, and no identifier occurs twice.\<close>

fun validate_unique ::
  "('x \<Rightarrow> go_error + unit) \<Rightarrow> ('x \<Rightarrow> int) \<Rightarrow> string \<Rightarrow> int set \<Rightarrow> 'x list \<Rightarrow> go_error + unit" where
  "validate_unique chk ident kind seen [] = Inr ()"
| "validate_unique chk ident kind seen (x # xs) =
     (case chk x of Inl e \<Rightarrow> Inl e
      | Inr _ \<Rightarrow> if ident x \<in> seen then Inl (Err (''duplicate '' @ kind @ '' ID '' @ FormatInt (ident x)))
                else validate_unique chk ident kind (insert (ident x) seen) xs)"

lemma validate_unique_iff:
  "validate_unique chk ident kind seen xs = Inr () \<longleftrightarrow>
     (\<forall>x \<in> set xs. chk x = Inr ()) \<and> distinct (map ident xs) \<and> ident ` set xs \<inter> seen = {}"
  by (induction xs arbitrary: seen) (auto split: sum.splits)

text \<open>\<open>byID\<close>: an entry per object, later objects overwriting earlier ones.\<close>

definition index_by :: "('x \<Rightarrow> int) \<Rightarrow> 'x list \<Rightarrow> int \<Rightarrow> 'x option" where
  "index_by ident xs = fold (\<lambda>x m. m(ident x \<mapsto> x)) xs Map.empty"

definition unconsumed_by :: "('x \<Rightarrow> int) \<Rightarrow> 'x list \<Rightarrow> int set \<Rightarrow> 'x list" where
  "unconsumed_by ident xs consumed = filter (\<lambda>x. ident x \<notin> consumed) xs"

lemma index_fold:
  "fold (\<lambda>x m. m(ident x \<mapsto> x)) xs m k =
     (case List.find (\<lambda>x. ident x = k) (rev xs) of None \<Rightarrow> m k | Some x \<Rightarrow> Some x)"
proof (induction xs arbitrary: m)
  case (Cons a xs)
  have app: "List.find P (ys @ [a]) = (case List.find P ys of None \<Rightarrow> if P a then Some a else None | r \<Rightarrow> r)"
    for P and ys :: "'a list"
    by (induction ys) auto
  show ?case by (simp only: fold_simps(2) Cons rev.simps app) (simp split: option.splits)
qed simp

lemma index_by_Some: "index_by ident xs k = Some x \<Longrightarrow> x \<in> set xs \<and> ident x = k"
  unfolding index_by_def index_fold
  by (auto split: option.splits simp: find_Some_iff) (metis length_rev nth_mem set_rev)

lemma index_by_None: "index_by ident xs k = None \<longleftrightarrow> k \<notin> ident ` set xs"
  unfolding index_by_def index_fold by (auto split: option.splits simp: find_None_iff find_Some_iff)
    (metis image_eqI length_rev nth_mem set_rev)

lemma index_by_distinct:
  assumes "distinct (map ident xs)" and "x \<in> set xs"
  shows "index_by ident xs (ident x) = Some x"
proof -
  obtain y where y: "index_by ident xs (ident x) = Some y"
    using assms(2) index_by_None [of ident xs "ident x"] by (cases "index_by ident xs (ident x)") auto
  then have "y \<in> set xs" "ident y = ident x" by (auto dest: index_by_Some)
  with assms y show ?thesis by (metis distinct_map inj_onD)
qed

lemma set_unconsumed_by: "set (unconsumed_by ident xs c) = {x \<in> set xs. ident x \<notin> c}"
  by (simp add: unconsumed_by_def)

lemma unconsumed_by_all: "ident ` set xs \<subseteq> c \<Longrightarrow> unconsumed_by ident xs c = []"
  by (auto simp: unconsumed_by_def filter_empty_conv)

section \<open>Unique pairs\<close>

text \<open>A Go map from keys to the objects that have the key, in the order of the listing.\<close>

definition group_by :: "('x \<Rightarrow> 'k) \<Rightarrow> 'x list \<Rightarrow> ('k \<times> 'x list) list" where
  "group_by key xs = map (\<lambda>k. (k, filter (\<lambda>x. key x = k) xs)) (remdups (map key xs))"

definition group_at :: "('k \<times> 'x list) list \<Rightarrow> 'k \<Rightarrow> 'x list" where
  "group_at groups k = (case map_of groups k of None \<Rightarrow> [] | Some xs \<Rightarrow> xs)"

text \<open>The pairing passes: the keys that exactly one object on each side has, subject to
  a further condition on the two objects. The result is the map from GitHub to Forgejo
  identifiers.\<close>

definition pair_of :: "('x \<Rightarrow> int) \<Rightarrow> ('x \<Rightarrow> 'x \<Rightarrow> bool) \<Rightarrow> 'x list \<Rightarrow> 'x list \<Rightarrow> (int \<times> int) list" where
  "pair_of ident ok gs fs =
     (case (gs, fs) of ([g], [f]) \<Rightarrow> if ok g f then [(ident g, ident f)] else [] | _ \<Rightarrow> [])"

definition unique_pairs ::
  "('x \<Rightarrow> 'k) \<Rightarrow> ('x \<Rightarrow> int) \<Rightarrow> ('x \<Rightarrow> 'x \<Rightarrow> bool) \<Rightarrow> 'x list \<Rightarrow> 'x list \<Rightarrow> (int \<times> int) list" where
  "unique_pairs key ident ok githubs forgejos =
     (let githubBy = group_by key githubs; forgejoBy = group_by key forgejos
      in concat (map (\<lambda>(k, gs). pair_of ident ok gs (group_at forgejoBy k)) githubBy))"

lemma group_at_group_by: "group_at (group_by key xs) k = filter (\<lambda>x. key x = k) xs"
proof (cases "k \<in> key ` set xs")
  case True
  have "map_of (map (\<lambda>k. (k, filter (\<lambda>x. key x = k) xs)) ks) k
      = (if k \<in> set ks then Some (filter (\<lambda>x. key x = k) xs) else None)" for ks
    by (induction ks) auto
  with True show ?thesis by (simp add: group_at_def group_by_def)
next
  case False
  then have "k \<notin> fst ` set (group_by key xs)" by (auto simp: group_by_def)
  then have "map_of (group_by key xs) k = None" by (simp add: map_of_eq_None_iff)
  moreover from False have "filter (\<lambda>x. key x = k) xs = []" by (auto simp: filter_empty_conv)
  ultimately show ?thesis by (simp add: group_at_def)
qed

lemma pair_of_mem: "p \<in> set (pair_of ident ok gs fs) \<longleftrightarrow>
   (\<exists>g f. gs = [g] \<and> fs = [f] \<and> ok g f \<and> p = (ident g, ident f))"
  by (auto simp: pair_of_def split: list.splits)

definition only :: "('x \<Rightarrow> 'k) \<Rightarrow> 'x list \<Rightarrow> 'x \<Rightarrow> bool" where
  "only key xs x \<longleftrightarrow> filter (\<lambda>y. key y = key x) xs = [x]"

lemma only_mem: "only key xs x \<Longrightarrow> x \<in> set xs"
  unfolding only_def by (metis filter_is_subset list.set_intros(1) subsetD)

lemma only_unique: "only key xs x \<Longrightarrow> y \<in> set xs \<Longrightarrow> key y = key x \<Longrightarrow> y = x"
proof -
  assume "only key xs x" "y \<in> set xs" "key y = key x"
  then have "y \<in> set (filter (\<lambda>y. key y = key x) xs)" by simp
  with \<open>only key xs x\<close> show "y = x" unfolding only_def by simp
qed

text \<open>A pair is reported exactly when the two objects have the same key, each is the only
  one on its side that has it, and the further condition holds.\<close>

lemma unique_pairs_mem:
  "p \<in> set (unique_pairs key ident ok gs fs) \<longleftrightarrow>
     (\<exists>g f. only key gs g \<and> only key fs f \<and> key g = key f \<and> ok g f \<and> p = (ident g, ident f))"
proof
  assume "p \<in> set (unique_pairs key ident ok gs fs)"
  then obtain k g f where g: "filter (\<lambda>x. key x = k) gs = [g]" and f: "filter (\<lambda>x. key x = k) fs = [f]"
    and ok: "ok g f" and p: "p = (ident g, ident f)"
    unfolding unique_pairs_def Let_def group_at_group_by
    by (auto simp: group_at_group_by pair_of_mem group_by_def)
  have "key g = k" "key f = k" using g f by (metis (mono_tags, lifting) filter_eq_Cons_iff)+
  with g f have "only key gs g" "only key fs f" "key g = key f" by (simp_all add: only_def)
  with ok p show "\<exists>g f. only key gs g \<and> only key fs f \<and> key g = key f \<and> ok g f \<and> p = (ident g, ident f)"
    by blast
next
  assume "\<exists>g f. only key gs g \<and> only key fs f \<and> key g = key f \<and> ok g f \<and> p = (ident g, ident f)"
  then obtain g f where *: "only key gs g" "only key fs f" "key g = key f" "ok g f" "p = (ident g, ident f)"
    by blast
  then have "(key g, [g]) \<in> set (group_by key gs)"
    using only_mem [of key gs g] unfolding group_by_def only_def
    by (auto intro!: image_eqI [of _ _ "key g"])
  moreover from * have "p \<in> set (pair_of ident ok [g] (group_at (group_by key fs) (key g)))"
    by (simp add: group_at_group_by pair_of_mem only_def)
  ultimately show "p \<in> set (unique_pairs key ident ok gs fs)"
    unfolding unique_pairs_def Let_def by force
qed

lemma unique_pairs_ids:
  assumes "p \<in> set (unique_pairs key ident ok gs fs)"
  shows "fst p \<in> ident ` set gs" and "snd p \<in> ident ` set fs"
proof -
  obtain g f where "only key gs g" "only key fs f" "p = (ident g, ident f)"
    using assms by (auto simp: unique_pairs_mem)
  then show "fst p \<in> ident ` set gs" "snd p \<in> ident ` set fs"
    by (auto dest: only_mem)
qed

lemma unique_pairs_unconsumed:
  assumes "p \<in> set (unique_pairs key ident ok (unconsumed_by ident gs c) (unconsumed_by ident fs e))"
  shows "fst p \<in> ident ` set gs" and "snd p \<in> ident ` set fs" and "fst p \<notin> c" and "snd p \<notin> e"
  using unique_pairs_ids [OF assms] by (auto simp: set_unconsumed_by)

text \<open>The pairing is one-to-one whenever identifiers are.\<close>

lemma unique_pairs_one_to_one:
  assumes "distinct (map ident gs)" and "distinct (map ident fs)"
    and "p \<in> set (unique_pairs key ident ok gs fs)" and "q \<in> set (unique_pairs key ident ok gs fs)"
  shows "fst p = fst q \<longleftrightarrow> snd p = snd q"
proof -
  obtain g f where p: "only key gs g" "only key fs f" "key g = key f" "p = (ident g, ident f)"
    using assms(3) by (auto simp: unique_pairs_mem)
  obtain g' f' where q: "only key gs g'" "only key fs f'" "key g' = key f'" "q = (ident g', ident f')"
    using assms(4) by (auto simp: unique_pairs_mem)
  have "ident g = ident g' \<longleftrightarrow> g = g'"
    using assms(1) p(1) q(1) by (metis distinct_map inj_onD only_mem)
  moreover have "ident f = ident f' \<longleftrightarrow> f = f'"
    using assms(2) p(2) q(2) by (metis distinct_map inj_onD only_mem)
  moreover have "g = g' \<longleftrightarrow> f = f'"
    using p q by (metis only_mem only_unique)
  ultimately show ?thesis using p(4) q(4) by simp
qed

section \<open>The three-way decision\<close>

datatype decision = InSync | CopyToForgejo | CopyToGitHub | BothChanged

text \<open>The \<open>switch\<close> over the two current hashes and the hash of the last synchronized state.\<close>

definition three_way :: "string \<Rightarrow> string \<Rightarrow> string \<Rightarrow> decision" where
  "three_way githubHash forgejoHash lastHash =
     (if githubHash = forgejoHash then InSync
      else if forgejoHash = lastHash then CopyToForgejo
      else if githubHash = lastHash then CopyToGitHub
      else BothChanged)"

lemma three_way_iff:
  "three_way g f l = InSync \<longleftrightarrow> g = f"
  "three_way g f l = CopyToForgejo \<longleftrightarrow> f = l \<and> g \<noteq> l"
  "three_way g f l = CopyToGitHub \<longleftrightarrow> g = l \<and> f \<noteq> l"
  "three_way g f l = BothChanged \<longleftrightarrow> g \<noteq> f \<and> g \<noteq> l \<and> f \<noteq> l"
  by (auto simp: three_way_def)

lemma three_way_swap:
  "three_way f g l = (case three_way g f l of InSync \<Rightarrow> InSync | CopyToForgejo \<Rightarrow> CopyToGitHub
     | CopyToGitHub \<Rightarrow> CopyToForgejo | BothChanged \<Rightarrow> BothChanged)"
  by (auto simp: three_way_def)

lemma guar_decision:
  "(d = InSync \<Longrightarrow> guar R a) \<Longrightarrow> (d = CopyToForgejo \<Longrightarrow> guar R b) \<Longrightarrow> (d = CopyToGitHub \<Longrightarrow> guar R c) \<Longrightarrow>
   (d = BothChanged \<Longrightarrow> guar R e) \<Longrightarrow>
   guar R (case d of InSync \<Rightarrow> a | CopyToForgejo \<Rightarrow> b | CopyToGitHub \<Rightarrow> c | BothChanged \<Rightarrow> e)"
  by (cases d) auto

section \<open>Shared steps\<close>

text \<open>The two parts of the GitHub name of a mapped repository, when the mapping is complete.\<close>

definition mapping_identity :: "repository_mapping \<Rightarrow> go_error + string \<times> string" where
  "mapping_identity repo =
     (case Cut slash (rm_GitHubFullName repo) of (owner, name, ok) \<Rightarrow>
        if \<not> ok \<or> owner = [] \<or> name = [] \<or> rm_ForgejoOwner repo = [] \<or> rm_ForgejoName repo = []
        then Inl (Err ''repository mapping has invalid identity'') else Inr (owner, name))"

text \<open>\<open>store.AddConflict\<close> with \<open>CreatedAt: time.Now().UTC()\<close>.\<close>

definition record_conflict ::
  "'w env \<Rightarrow> string \<Rightarrow> string \<Rightarrow> string \<Rightarrow> string \<Rightarrow> string \<Rightarrow> string \<Rightarrow> ('w sys, unit) prog" where
  "record_conflict E kind repo key githubState forgejoState lastKnown =
     bnd (now E) (\<lambda>t. AddConflict E \<lparr>k_ID = 0, k_Kind = kind, k_Repository = repo, k_ObjectKey = key,
       k_GitHubState = githubState, k_ForgejoState = forgejoState, k_LastKnownState = lastKnown,
       k_CreatedAt = t, k_ResolvedAt = None\<rparr>)"

lemma record_conflict_honest [guar_intros]:
  "guar (on_db honest) (record_conflict E kind repo key gs fs lk)"
  unfolding record_conflict_def by (intro guar_intros)

section \<open>Success\<close>

text \<open>What holds after a program that succeeds.\<close>

definition yields :: "('s, 'a) prog \<Rightarrow> ('s \<Rightarrow> 'a \<Rightarrow> 's \<Rightarrow> bool) \<Rightarrow> bool" where
  "yields m P \<longleftrightarrow> (\<forall>s x t. m s = (Inr x, t) \<longrightarrow> P s x t)"

definition recorded :: "string \<Rightarrow> string \<Rightarrow> string \<Rightarrow> string \<Rightarrow> string \<Rightarrow> store \<Rightarrow> bool" where
  "recorded kind repo key gs fs d \<longleftrightarrow> (kind, repo, key, gs, fs) \<in> conflict_tuple ` set (t_conflicts d)"

lemma recorded_honest: "honest d d' \<Longrightarrow> recorded kind repo key gs fs d \<Longrightarrow> recorded kind repo key gs fs d'"
  by (auto simp: honest_def conflicts_appended_def recorded_def)

lemma db_exec_Inr: "db_exec E f s = (Inr x, t) \<Longrightarrow> f (db s) = Inr (x, db t)"
  by (auto simp: db_exec_def split: prod.splits option.splits sum.splits)

lemma now_Inr: "now E s = (Inr x, t) \<Longrightarrow> db t = db s"
  by (auto simp: now_app split: prod.splits)

lemma ext_Inr: "ext f s = (r, t) \<Longrightarrow> db t = db s"
  by (auto simp: ext_app split: prod.splits)

lemma add_conflict_row_recorded:
  "add_conflict_row k d = Inr (u, d') \<Longrightarrow> conflict_tuple k \<in> conflict_tuple ` set (t_conflicts d')"
  by (auto simp: add_conflict_row_def list_ex_iff Let_def split: if_splits) (metis imageI)

lemma AddConflict_recorded:
  assumes "AddConflict E k s = (Inr x, t)"
  shows "conflict_tuple k \<in> conflict_tuple ` set (t_conflicts (db t))"
  using assms
  by (cases "IsZero (k_CreatedAt k)")
    (auto simp: AddConflict_def bnd_Inr wrapE_Inr ret_Inr dest!: db_exec_Inr add_conflict_row_recorded)

lemma record_conflict_recorded:
  assumes "record_conflict E kind repo key gs fs lk s = (Inr x, t)"
  shows "recorded kind repo key gs fs (db t)"
  using assms
  by (auto simp: record_conflict_def bnd_Inr recorded_def dest!: AddConflict_recorded)
    (simp add: conflict_tuple_def)

text \<open>When the database answers, a conflict is recorded.\<close>

lemma AddConflict_succeeds:
  assumes "\<And>w. fst (e_fault E w) = None"
  shows "\<exists>t. AddConflict E k s = (Inr (), t) \<and> t_pulls (db t) = t_pulls (db s)"
proof -
  obtain k' u where start: "(if IsZero (k_CreatedAt k) then bnd (now E) (\<lambda>t. ret (k\<lparr>k_CreatedAt := t\<rparr>)) else ret k) s = (Inr k', u)"
    and u: "db u = db s"
    by (cases "IsZero (k_CreatedAt k)"; cases "e_now E (world s)") (auto simp: bnd_app now_app ret_app)
  obtain w where "e_fault E (world u) = (None, w)"
    using assms [of "world u"] by (cases "e_fault E (world u)") simp
  then have "\<exists>t. db_exec E (add_conflict_row k') u = (Inr (), t) \<and> t_pulls (db t) = t_pulls (db u)"
    by (cases "list_ex (\<lambda>x. conflict_tuple x = conflict_tuple k') (t_conflicts (db u))")
      (simp_all add: db_exec_def add_conflict_row_def Let_def)
  then obtain t where "db_exec E (add_conflict_row k') u = (Inr (), t)" "t_pulls (db t) = t_pulls (db u)" by blast
  with start u show ?thesis by (simp add: AddConflict_def bnd_app wrapE_app)
qed

lemma record_conflict_succeeds:
  assumes "\<And>w. fst (e_fault E w) = None"
  shows "\<exists>t. record_conflict E kind repo key gs fs lk s = (Inr (), t) \<and> t_pulls (db t) = t_pulls (db s)"
proof -
  obtain v u where "now E s = (Inr v, u)" "db u = db s"
    by (cases "e_now E (world s)") (simp add: now_app)
  with AddConflict_succeeds [OF assms] show ?thesis
    by (simp add: record_conflict_def bnd_app) metis
qed

lemma foldE_Inr_honest:
  assumes "foldE f xs a s = (Inr b, t)" and "\<And>x a. guar (on_db honest) (f x a)"
  shows "honest (db s) (db t)"
  using guarD [OF honest.foldE_guar [of xs f a, OF assms(2)] assms(1)] by (simp add: on_db_def)

lemma foldE_each:
  assumes "foldE f xs a s = (Inr b, t)" and "\<And>x a. guar (on_db honest) (f x a)"
    and step: "\<And>x a s b t. x \<in> set xs \<Longrightarrow> f x a s = (Inr b, t) \<Longrightarrow> Q x (db t)"
    and stable: "\<And>x d d'. honest d d' \<Longrightarrow> Q x d \<Longrightarrow> Q x d'"
  shows "\<forall>x \<in> set xs. Q x (db t)"
  using assms(1) step
proof (induction xs arbitrary: a s)
  case (Cons x xs)
  then obtain c u where c: "f x a s = (Inr c, u)" and rest: "foldE f xs c u = (Inr b, t)"
    by (auto simp: bnd_Inr)
  have "Q x (db u)" by (rule Cons.prems(2) [OF _ c]) simp
  with foldE_Inr_honest [OF rest assms(2)] have "Q x (db t)" by (rule stable)
  moreover have "\<forall>y \<in> set xs. Q y (db t)"
    by (rule Cons.IH [OF rest]) (use Cons.prems(2) in force)
  ultimately show ?case by simp
qed simp

lemma forE_each:
  assumes "forE f xs s = (Inr b, t)" and "\<And>x. guar (on_db honest) (f x)"
    and "\<And>x s b t. x \<in> set xs \<Longrightarrow> f x s = (Inr b, t) \<Longrightarrow> Q x (db t)"
    and "\<And>x d d'. honest d d' \<Longrightarrow> Q x d \<Longrightarrow> Q x d'"
  shows "\<forall>x \<in> set xs. Q x (db t)"
  using foldE_each [of "\<lambda>x _. f x" xs "()" s b t Q] assms by (simp add: forE_def)

text \<open>The local variables after a loop, when the body computes them from the element alone.\<close>

lemma foldE_acc:
  assumes "foldE f xs a s = (Inr b, t)"
    and "\<And>x a s b t. x \<in> set xs \<Longrightarrow> f x a s = (Inr b, t) \<Longrightarrow> b = g x a"
  shows "b = fold g xs a"
  using assms
proof (induction xs arbitrary: a s)
  case (Cons x xs)
  then obtain c u where "f x a s = (Inr c, u)" and rest: "foldE f xs c u = (Inr b, t)"
    by (auto simp: bnd_Inr)
  with Cons.prems(2) have "c = g x a" by force
  with Cons.IH [OF rest] Cons.prems(2) show ?case by simp
qed (simp add: ret_Inr)

lemma foldE_quiet:
  "(\<And>x a. x \<in> set xs \<Longrightarrow> f x a = ret (g x a)) \<Longrightarrow> foldE f xs a = ret (fold g xs a)"
  by (induction xs arbitrary: a) simp_all

lemma foldE_cong:
  "(\<And>x a. x \<in> set xs \<Longrightarrow> f x a = g x a) \<Longrightarrow> foldE f xs a = foldE g xs a"
proof (induction xs arbitrary: a)
  case (Cons x xs)
  then have "foldE f xs = foldE g xs" by (intro ext) simp
  with Cons.prems show ?case by simp
qed simp

lemma forE_cong: "(\<And>x. x \<in> set xs \<Longrightarrow> f x = g x) \<Longrightarrow> forE f xs = forE g xs"
  by (induction xs) simp_all

text \<open>Consuming the two sides of every pair.\<close>

lemma fold_consume_pairs:
  "fold (\<lambda>p c. (insert (fst p) (fst c), insert (snd p) (snd c))) ps c
     = (fst c \<union> fst ` set ps, snd c \<union> snd ` set ps)"
  by (induction ps arbitrary: c) auto

text \<open>An invariant of the local variables and the store through a loop.\<close>

lemma foldE_inv:
  assumes "foldE f xs a s = (Inr b, t)" and "I a (db s)"
    and "\<And>x a s b t. x \<in> set xs \<Longrightarrow> f x a s = (Inr b, t) \<Longrightarrow> I a (db s) \<Longrightarrow> I b (db t)"
  shows "I b (db t)"
  using assms
proof (induction xs arbitrary: a s)
  case (Cons x xs)
  then obtain c u where c: "f x a s = (Inr c, u)" and rest: "foldE f xs c u = (Inr b, t)"
    by (auto simp: bnd_Inr)
  have "I c (db u)" using Cons.prems(3) [OF _ c Cons.prems(2)] by simp
  from Cons.IH [OF rest this] Cons.prems(3) show ?case by (meson list.set_intros(2))
qed (simp add: ret_Inr)

lemma forE_Inr_honest:
  "forE f xs s = (Inr b, t) \<Longrightarrow> (\<And>x. guar (on_db honest) (f x)) \<Longrightarrow> honest (db s) (db t)"
  unfolding forE_def by (rule foldE_Inr_honest)

lemma Inr_honest: "m s = (r, t) \<Longrightarrow> guar (on_db honest) m \<Longrightarrow> honest (db s) (db t)"
  by (auto dest: guarD simp: on_db_def)

text \<open>The order in which Go ranges over a map is a permutation of its entries.\<close>

definition order_ok :: "'w env \<Rightarrow> bool" where
  "order_ok E \<longleftrightarrow> (\<forall>w xs. mset (e_order E w xs) = mset xs)"

lemma order_ok_set: "order_ok E \<Longrightarrow> map_range E xs s = (Inr ys, t) \<Longrightarrow> set ys = set xs \<and> t = s"
  by (auto simp: order_ok_def map_range_app dest: mset_eq_setD)

lemma order_ok_Nil: "order_ok E \<Longrightarrow> map_range E [] = ret []"
  by (rule ext) (use order_ok_set [of E "[]"] in \<open>force simp: map_range_app ret_app\<close>)

section \<open>What a successful upsert stores\<close>

lemma Upsert_stored:
  "UpsertIssueMapping E im s = (Inr x, t) \<Longrightarrow> \<exists>u. im\<lparr>im_UpdatedAt := u\<rparr> \<in> set (t_issues (db t))"
  "UpsertPullRequestMapping E pm s = (Inr x, t) \<Longrightarrow> \<exists>u. pm\<lparr>pm_UpdatedAt := u\<rparr> \<in> set (t_pulls (db t))"
  "UpsertCommentMapping E cm s = (Inr x, t) \<Longrightarrow> \<exists>u. cm\<lparr>cm_UpdatedAt := u\<rparr> \<in> set (t_comments (db t))"
  "UpsertReleaseMapping E lm s = (Inr x, t) \<Longrightarrow> \<exists>u. lm\<lparr>lm_UpdatedAt := u\<rparr> \<in> set (t_releases (db t))"
  "UpsertRepository E rm s = (Inr x, t) \<Longrightarrow> \<exists>u. rm\<lparr>rm_UpdatedAt := u\<rparr> \<in> set (t_repositories (db t))"
  unfolding UpsertIssueMapping_def UpsertPullRequestMapping_def UpsertCommentMapping_def
    UpsertReleaseMapping_def UpsertRepository_def
  by (auto simp: bnd_Inr wrapE_Inr ret_Inr throw_app split: if_splits
      dest!: db_exec_Inr issue_table.upsert_stores pull_table.upsert_stores
        comment_table.upsert_stores release_table.upsert_stores repository_table.upsert_stores)
    (metis issue_mapping.surjective issue_mapping.update_convs(7)
      pull_request_mapping.surjective pull_request_mapping.update_convs(7)
      comment_mapping.surjective comment_mapping.update_convs(6)
      release_mapping.surjective release_mapping.update_convs(6)
      repository_mapping.surjective repository_mapping.update_convs(9))+

section \<open>A concrete environment for worked examples\<close>

text \<open>A clock that stands still, a database that never fails, the identity for SHA-256 (it
  has no collision), maps ranged over in listing order.\<close>

definition calm_env :: "'w env" where
  "calm_env = \<lparr>e_now = \<lambda>w. (0, w), e_fault = \<lambda>w. (None, w), e_sha256 = \<lambda>x. x, e_order = \<lambda>w xs. xs\<rparr>"

lemma calm_env_simps [simp]:
  "e_now calm_env = (\<lambda>w. (0, w))" "e_fault calm_env = (\<lambda>w. (None, w))"
  "e_sha256 calm_env = (\<lambda>x. x)" "e_order calm_env = (\<lambda>w xs. xs)" "order_ok calm_env"
  by (simp_all add: calm_env_def order_ok_def)

abbreviation unit_env :: "unit env" where "unit_env \<equiv> calm_env"

definition sample_repository :: repository_mapping where
  "sample_repository = \<lparr>rm_GitHubID = 7, rm_GitHubFullName = ''a/b'', rm_ForgejoOwner = ''a'',
     rm_ForgejoName = ''b'', rm_Visibility = VisibilityPublic, rm_Archived = False, rm_SizeKB = 1,
     rm_LastStateHash = ''h'', rm_UpdatedAt = 0\<rparr>"

lemma sample_identity [simp]: "mapping_identity sample_repository = Inr (''a'', ''b'')"
  by (simp add: mapping_identity_def sample_repository_def Cut_def)

lemma sample_repository_simps [simp]:
  "rm_GitHubID sample_repository = 7" "rm_GitHubFullName sample_repository = ''a/b''"
  "rm_ForgejoOwner sample_repository = ''a''" "rm_ForgejoName sample_repository = ''b''"
  by (simp_all add: sample_repository_def)

definition sample_sys :: "unit sys" where
  "sample_sys = \<lparr>db = empty_store\<lparr>t_repositories := [sample_repository]\<rparr>, world = ()\<rparr>"

lemma sample_sys_wf [simp]: "store_wf (db sample_sys)"
  by (simp add: sample_sys_def wf_defs empty_store_def keyed_def numbered_def)

lemma run_result: "fst r = Inr x \<Longrightarrow> r = (Inr x, snd r)"
  by (metis prod.collapse)

end
