(* ===== verification/StoreProperties.thy ===== *)
theory StoreProperties
  imports Pairing
begin

text \<open>
  The properties of \<open>internal/state/store.go\<close>: every operation keeps the table invariant and
  loses nothing, mapping slots are never taken over, a webhook delivery is claimed at most
  once, a conflict is recorded once and resolved by identifier only, a run is completed once.
\<close>

section \<open>Properties\<close>

text \<open>What the resolution of conflict \<open>i\<close> may do: set the time of resolution of that row, if it has
  none.\<close>

definition resolves :: "int \<Rightarrow> store \<Rightarrow> store \<Rightarrow> bool" where
  "resolves i d d' \<longleftrightarrow> (store_wf d \<longrightarrow> store_wf d') \<and> (\<exists>cs. d' = d\<lparr>t_conflicts := cs\<rparr>
     \<and> list_all2 (\<lambda>k k'. k' = k \<or> k_ID k = i \<and> conflict_kept k k') (t_conflicts d) cs)"

lemma resolves_trans: "resolves i d e \<Longrightarrow> resolves i e f \<Longrightarrow> resolves i d f"
  unfolding resolves_def
proof (elim conjE exE, intro conjI exI)
  fix cs cs' assume e: "e = d\<lparr>t_conflicts := cs\<rparr>" and f: "f = e\<lparr>t_conflicts := cs'\<rparr>"
    and cs: "list_all2 (\<lambda>k k'. k' = k \<or> k_ID k = i \<and> conflict_kept k k') (t_conflicts d) cs"
    and cs': "list_all2 (\<lambda>k k'. k' = k \<or> k_ID k = i \<and> conflict_kept k k') (t_conflicts e) cs'"
  show "f = d\<lparr>t_conflicts := cs'\<rparr>" by (simp add: e f)
  from cs' have second: "list_all2 (\<lambda>k k'. k' = k \<or> k_ID k = i \<and> conflict_kept k k') cs cs'" by (simp add: e)
  show "list_all2 (\<lambda>k k'. k' = k \<or> k_ID k = i \<and> conflict_kept k k') (t_conflicts d) cs'"
    by (rule list_all2_trans [OF _ cs second]) (auto simp: conflict_kept_def)
qed simp

interpretation resolves: store_guarantee "resolves i" for i
proof
  show "resolves i d d" for d
    unfolding resolves_def by (intro conjI exI [of _ "t_conflicts d"]) (simp_all add: list_all2_refl)
qed (rule resolves_trans)

lemma unchanged_resolves: "guar (on_db unchanged) m \<Longrightarrow> guar (on_db (resolves i)) m"
  by (erule guar_mono) (simp add: on_db_def unchanged_def resolves.P_refl)

lemma ResolveConflict_resolves: "guar (on_db (resolves i)) (ResolveConflict E i)"
proof -
  have row: "resolves i d d'" if "resolve_row i t d = Inr (n, d')" for t d n d'
  proof -
    have wf: "store_wf d \<longrightarrow> store_wf d'" using resolve_row_retained [OF that] by (simp add: retained_def)
    let ?cs = "map (\<lambda>k. if k_ID k = i \<and> k_ResolvedAt k = None then k\<lparr>k_ResolvedAt := Some t\<rparr> else k) (t_conflicts d)"
    have "d' = d\<lparr>t_conflicts := ?cs\<rparr>" using that by (auto simp: resolve_row_def Let_def)
    moreover have "list_all2 (\<lambda>k k'. k' = k \<or> k_ID k = i \<and> conflict_kept k k') (t_conflicts d) ?cs"
      by (auto simp: conflict_kept_def list_all2_conv_all_nth)
    ultimately show ?thesis using wf unfolding resolves_def by blast
  qed
  show ?thesis
    unfolding ResolveConflict_def
    by (intro guar_intros guar_splits resolves.db_exec_guar row unchanged_resolves [OF read_unchanged(9)])
qed

text \<open>C18: every operation that writes to the tables, whatever its arguments and whatever the database
  answers, keeps the table invariant (unique keys on both sides of every mapping, foreign
  keys, unique conflict tuples, consistent run records). The ten of normal operation keep every
  row: mappings are only overwritten by ones of the same key, the claim of a delivery stays, a
  completed run stays and a running one can only be completed, and conflicts are only appended,
  unresolved. The operator's resolution changes nothing but the time of resolution of the
  conflict with the given number, if it was unresolved.\<close>

theorem store_operations_honest:
  "honest (db s) (db (snd (UpsertRepository E rm s)))
   \<and> honest (db s) (db (snd (UpsertIssueMapping E im s)))
   \<and> honest (db s) (db (snd (UpsertPullRequestMapping E pm s)))
   \<and> honest (db s) (db (snd (UpsertCommentMapping E cm s)))
   \<and> honest (db s) (db (snd (UpsertReleaseMapping E lm s)))
   \<and> honest (db s) (db (snd (ClaimWebhookDelivery E f i e h s)))
   \<and> honest (db s) (db (snd (MarkWebhookProcessed E f i pe s)))
   \<and> honest (db s) (db (snd (AddConflict E k s)))
   \<and> honest (db s) (db (snd (BeginRun E sc dr s)))
   \<and> honest (db s) (db (snd (CompleteRun E n sm re s)))
   \<and> resolves n (db s) (db (snd (ResolveConflict E n s)))"
  using ResolveConflict_resolves [of n E] by (intro conjI honest_after write_honest) (simp add: guar_def on_db_def)

lemma db_exec_Inl: "db_exec E f s = (Inl e, t) \<Longrightarrow> db t = db s \<and> (f (db s) = Inl e \<or> (\<exists>msg w. e_fault E (world s) = (Some msg, w)))"
  by (auto simp: db_exec_def split: prod.splits option.splits sum.splits)

lemma now_not_Inl: "now E s \<noteq> (Inl e, t)"
  by (simp add: now_app split: prod.splits)

lemma stamped:
  "(if b then bnd (now E) (\<lambda>t. ret (f t)) else ret m) s = (r, u) \<Longrightarrow> db u = db s \<and> (\<exists>x. r = Inr x)"
  by (auto simp: bnd_app now_app ret_app split: if_splits prod.splits)

lemma upsert_fails_unchanged:
  assumes "UpsertPullRequestMapping E m s = (Inl e, t)"
  shows "db t = db s"
proof (cases "pm_RepositoryGitHubID m \<le> 0 \<or> pm_GitHubID m \<le> 0 \<or> pm_ForgejoID m \<le> 0
     \<or> pm_GitHubIndex m \<le> 0 \<or> pm_ForgejoIndex m \<le> 0 \<or> pm_LastStateHash m = []")
  case True
  with assms show ?thesis by (auto simp: UpsertPullRequestMapping_def throw_app)
next
  case False
  with assms have "bnd (if IsZero (pm_UpdatedAt m) then bnd (now E) (\<lambda>t. ret (m\<lparr>pm_UpdatedAt := t\<rparr>)) else ret m)
      (\<lambda>m. wrapE ''upsert pull request mapping'' (db_exec E (upsert_pull_row m))) s = (Inl e, t)"
    by (simp add: UpsertPullRequestMapping_def)
  then show ?thesis unfolding bnd_Inl wrapE_Inl by (auto dest!: stamped db_exec_Inl)
qed

lemma ResolveConflict_Inr:
  assumes "ResolveConflict E i s = (Inr r, t)"
  shows "\<exists>tm n u. resolve_row i tm (db s) = Inr (n, db u) \<and> (if n \<noteq> 1 then ret None else conflictByID E i) u = (Inr r, t)"
proof -
  obtain tm v n u where "now E s = (Inr tm, v)" and "db_exec E (resolve_row i tm) v = (Inr n, u)"
    and "(if n \<noteq> 1 then ret None else conflictByID E i) u = (Inr r, t)"
    using assms unfolding ResolveConflict_def bnd_Inr wrapE_Inr by blast
  then show ?thesis using now_Inr db_exec_Inr by metis
qed

lemma CompleteRun_row:
  assumes "CompleteRun E i sm re s = (r, t)"
  shows "(\<exists>tm n. complete_run_row i sm re tm (db s) = Inr (n, db t) \<and> (r = Inr () \<longleftrightarrow> n = 1))
     \<or> (\<exists>e. r = Inl e \<and> db t = db s)"
proof -
  obtain tm v where v: "now E s = (Inr tm, v)" "db v = db s"
    using now_not_Inl now_Inr by (metis old.sum.exhaust surj_pair)
  obtain q u where q: "db_exec E (complete_run_row i sm re tm) v = (q, u)" by force
  show ?thesis
  proof (cases q)
    case (Inl e)
    with assms v q have "r = Inl (Wrap ''complete reconciliation run'' e)" "t = u"
      by (auto simp: CompleteRun_def bnd_app wrapE_app)
    with q Inl v db_exec_Inl [of E "complete_run_row i sm re tm" v e u] show ?thesis by auto
  next
    case (Inr n)
    with assms v q have "(if n \<noteq> 1 then throw (Err ''reconciliation run is absent or already completed'') else ret ()) u = (r, t)"
      by (simp add: CompleteRun_def bnd_app wrapE_app)
    then have "t = u" "r = Inr () \<longleftrightarrow> n = 1" by (auto simp: throw_app ret_app split: if_splits)
    with q Inr v db_exec_Inr [of E "complete_run_row i sm re tm" v n u] show ?thesis by metis
  qed
qed

text \<open>a pull request mapping that is stored takes the Forgejo slot of no other GitHub pull
  request, and it leaves the mappings of all other GitHub pull requests as they are. When the
  upsert fails, no table changes.\<close>

theorem pull_slot_never_stolen:
  assumes "store_wf (db s)" and "UpsertPullRequestMapping E m s = (r, t)"
  shows "(case r of
      Inl e \<Rightarrow> db t = db s
    | Inr _ \<Rightarrow> (\<forall>x \<in> set (t_pulls (db s)). pull_uq x = pull_uq m \<longrightarrow> pull_pk x = pull_pk m)
        \<and> (\<forall>x \<in> set (t_pulls (db s)). pull_pk x \<noteq> pull_pk m \<longrightarrow> x \<in> set (t_pulls (db t)))
        \<and> pull_pk m \<in> pull_pk ` set (t_pulls (db t)))"
proof (cases r)
  case (Inl e)
  from upsert_fails_unchanged [OF assms(2) [unfolded Inl]] Inl show ?thesis by simp
next
  case (Inr x)
  with assms(2) obtain u v where up: "upsert_pull_row (m\<lparr>pm_UpdatedAt := u\<rparr>) (db s) = Inr (v, db t)"
  proof (cases "IsZero (pm_UpdatedAt m)")
    case True
    with assms(2) Inr show ?thesis
      by (auto simp: UpsertPullRequestMapping_def bnd_Inr wrapE_Inr ret_Inr throw_app
          split: if_splits dest!: db_exec_Inr now_Inr intro: that)
  next
    case False
    have same: "m\<lparr>pm_UpdatedAt := pm_UpdatedAt m\<rparr> = m" by simp
    from False assms(2) Inr have "upsert_pull_row m (db s) = Inr ((), db t)"
      by (auto simp: UpsertPullRequestMapping_def bnd_Inr wrapE_Inr ret_Inr throw_app
          split: if_splits dest!: db_exec_Inr)
    with that [of "pm_UpdatedAt m" "()"] show ?thesis by (simp add: same)
  qed
  with Inr show ?thesis
    using pull_table.upsert_steals_nothing [OF assms(1) up] pull_table.upsert_keeps_others [OF up]
      pull_table.upsert_keys [OF up]
    by auto
qed

lemma claim_row_known:
  "claim_row forge i ev h tm d = Inr (b, d') \<Longrightarrow>
     (b \<longleftrightarrow> (forge, i) \<notin> delivery_key ` set (t_deliveries d)) \<and> (forge, i) \<in> delivery_key ` set (t_deliveries d')"
  by (auto simp: claim_row_def list_ex_iff image_iff split: if_splits)

lemma claim_known:
  assumes "ClaimWebhookDelivery E forge i ev h s = (Inr b, t)"
  shows "(b \<longleftrightarrow> (forge, i) \<notin> delivery_key ` set (t_deliveries (db s)))
     \<and> (forge, i) \<in> delivery_key ` set (t_deliveries (db t))"
proof -
  obtain tm u where u: "now E s = (Inr tm, u)" and c: "db_exec E (claim_row forge i ev h tm) u = (Inr b, t)"
    using assms unfolding ClaimWebhookDelivery_def bnd_Inr wrapE_Inr by blast
  from claim_row_known [OF db_exec_Inr [OF c]] now_Inr [OF u] show ?thesis by simp
qed

text \<open>replay protection. A delivery is claimed only if it was not known, it is known
  afterwards, and from then on, whatever else is done to the store by operations that are
  honest, claiming it again answers no.\<close>

theorem delivery_claimed_once:
  assumes "ClaimWebhookDelivery E forge i ev h s = (Inr b, t)"
    and "honest (db t) (db s')" and "ClaimWebhookDelivery E forge i ev' h' s' = (Inr b', t')"
  shows "(b \<longleftrightarrow> (forge, i) \<notin> delivery_key ` set (t_deliveries (db s))) \<and> \<not> b'"
proof -
  have "(forge, i) \<in> delivery_key ` set (t_deliveries (db t))" using claim_known [OF assms(1)] ..
  with assms(2) have "(forge, i) \<in> delivery_key ` set (t_deliveries (db s'))"
    using honest_keys(4) by blast
  with claim_known [OF assms(1)] claim_known [OF assms(3)] show ?thesis by simp
qed

text \<open>recording a conflict is idempotent: a second row with the same kind, repository,
  object and states is never added, and a recorded conflict keeps its resolution.\<close>

theorem conflict_recorded_once:
  assumes "AddConflict E k s = (Inr (), t)" and "conflict_tuple k' = conflict_tuple k"
    and "AddConflict E k' t = (Inr (), u)"
  shows "t_conflicts (db u) = t_conflicts (db t)"
proof -
  have known: "conflict_tuple k' \<in> conflict_tuple ` set (t_conflicts (db t))"
    using AddConflict_recorded [OF assms(1)] assms(2) by simp
  have add: "add_conflict_row x (db t) = Inr (v, d') \<Longrightarrow> conflict_tuple x = conflict_tuple k' \<Longrightarrow> d' = db t"
    for x v d'
    using known by (auto simp: add_conflict_row_def list_ex_iff split: if_splits)
  from assms(3) have "db u = db t"
    by (cases "IsZero (k_CreatedAt k')")
      (auto simp: AddConflict_def bnd_Inr wrapE_Inr ret_Inr dest!: db_exec_Inr now_Inr intro: add)
  then show ?thesis by simp
qed

text \<open>C28: Resolving a conflict by its identifier changes the resolution time of that one row
  and nothing else: no row is removed, no other conflict is resolved with it, and a conflict
  that is already resolved or does not exist is reported as such.\<close>

theorem conflict_resolution:
  assumes "store_wf (db s)" and "ResolveConflict E i s = (Inr r, t)"
  shows "case r of
      None \<Rightarrow> db t = db s \<and> (\<forall>k \<in> set (t_conflicts (db s)). k_ID k = i \<longrightarrow> k_ResolvedAt k \<noteq> None)
    | Some k' \<Rightarrow> (\<exists>tm. \<exists>k \<in> set (t_conflicts (db s)). k_ID k = i \<and> k_ResolvedAt k = None
         \<and> k' = k\<lparr>k_ResolvedAt := Some tm\<rparr>
         \<and> db t = (db s)\<lparr>t_conflicts := map (\<lambda>x. if x = k then k' else x) (t_conflicts (db s))\<rparr>)"
proof -
  let ?cs = "t_conflicts (db s)"
  let ?hit = "\<lambda>k. k_ID k = i \<and> k_ResolvedAt k = None"
  have num: "numbered k_ID (t_conflict_seq (db s)) ?cs"
    using assms(1) by (simp add: store_wf_def conflicts_wf_def)
  obtain tm n u where row: "resolve_row i tm (db s) = Inr (n, db u)"
    and answer: "(if n \<noteq> 1 then ret None else conflictByID E i) u = (Inr r, t)"
    using ResolveConflict_Inr [OF assms(2)] by blast
  from row have u: "db u = (db s)\<lparr>t_conflicts := map (\<lambda>k. if ?hit k then k\<lparr>k_ResolvedAt := Some tm\<rparr> else k) ?cs\<rparr>"
    and n: "n = length (filter ?hit ?cs)"
    by (auto simp: resolve_row_def Let_def)
  from answer n have rest: "(if length (filter ?hit ?cs) \<noteq> 1 then ret None else conflictByID E i) u = (Inr r, t)"
    by simp
  show ?thesis
  proof (cases "\<exists>k \<in> set ?cs. ?hit k")
    case False
    then have none: "filter ?hit ?cs = []" by (auto simp: filter_empty_conv)
    with rest have r: "r = None" "t = u" by (simp_all add: ret_app)
    have "map (\<lambda>k. if ?hit k then k\<lparr>k_ResolvedAt := Some tm\<rparr> else k) ?cs = ?cs"
      using False by (intro map_idI) auto
    with u r False show ?thesis by auto
  next
    case True
    then obtain k where k: "k \<in> set ?cs" "?hit k" by blast
    have only: "x = k" if "x \<in> set ?cs" "k_ID x = i" for x
      using num k that unfolding numbered_def by (metis distinct_map inj_onD)
    have "filter ?hit ?cs \<noteq> []" using k by (auto simp: filter_empty_conv)
    moreover have "length (filter ?hit ?cs) \<le> 1" by (rule numbered_unique [OF num])
    ultimately have one: "length (filter ?hit ?cs) = 1" by (simp add: le_Suc_eq)
    let ?k = "k\<lparr>k_ResolvedAt := Some tm\<rparr>"
    have upd: "map (\<lambda>x. if ?hit x then x\<lparr>k_ResolvedAt := Some tm\<rparr> else x) ?cs
        = map (\<lambda>x. if x = k then ?k else x) ?cs"
    proof (rule map_cong [OF HOL.refl])
      fix x assume x: "x \<in> set ?cs"
      have "?hit x \<longleftrightarrow> x = k"
      proof
        assume "?hit x"
        then show "x = k" by (intro only [OF x]) simp
      next
        assume "x = k"
        with k(2) show "?hit x" by simp
      qed
      then show "(if ?hit x then x\<lparr>k_ResolvedAt := Some tm\<rparr> else x) = (if x = k then ?k else x)" by auto
    qed
    have "List.find (\<lambda>x. k_ID x = i) (map (\<lambda>x. if x = k then ?k else x) xs) = Some ?k"
      if "k \<in> set xs" "\<forall>x \<in> set xs. (k_ID x = i) = (x = k)" for xs
      using that by (induction xs) auto
    moreover have "\<forall>x \<in> set ?cs. (k_ID x = i) = (x = k)"
    proof
      fix x assume x: "x \<in> set ?cs"
      show "(k_ID x = i) = (x = k)" using only [OF x] k(2) by auto
    qed
    ultimately have found: "List.find (\<lambda>x. k_ID x = i) (t_conflicts (db u)) = Some ?k"
      using k(1) by (simp add: u upd)
    from rest one have "conflictByID E i u = (Inr r, t)" by simp
    with found have "r = Some ?k" "db t = db u"
      by (auto simp: conflictByID_def bnd_Inr wrapE_Inr db_query_def ret_Inr throw_app
          split: option.splits dest!: db_exec_Inr)
    with u upd k show ?thesis by auto
  qed
qed

text \<open>a run is completed at most once: completing succeeds only for a run that is still
  running, and afterwards it has a completion time, its summary, and the status that the run's
  error gives it; a second completion of the same run is an error.\<close>

theorem run_completed_once:
  assumes "store_wf (db s)" and "CompleteRun E i sm re s = (Inr (), t)"
  shows "(\<exists>n \<in> set (t_runs (db s)). n_ID n = i \<and> n_Status n = Running)
    \<and> (\<forall>n \<in> set (t_runs (db t)). n_ID n = i \<longrightarrow> n_CompletedAt n \<noteq> None \<and> n_Summary n = Some sm
         \<and> n_Status n = (case re of None \<Rightarrow> Succeeded | Some _ \<Rightarrow> Failed) \<and> n_Error n = map_option Error re)
    \<and> (\<forall>sm' re'. \<exists>e u. CompleteRun E i sm' re' t = (Inl e, u) \<and> db u = db t)"
proof -
  let ?rs = "t_runs (db s)" and ?hit = "\<lambda>n. n_ID n = i \<and> n_Status n = Running"
  have num: "numbered n_ID (t_run_seq (db s)) ?rs" using assms(1) by (simp add: store_wf_def runs_wf_def)
  obtain tm where "complete_run_row i sm re tm (db s) = Inr (1, db t)"
    using CompleteRun_row [OF assms(2)] by auto
  then have one: "length (filter ?hit ?rs) = 1"
    and t: "db t = (db s)\<lparr>t_runs := map (\<lambda>n. if ?hit n then n\<lparr>n_CompletedAt := Some tm,
          n_Status := (case re of None \<Rightarrow> Succeeded | Some _ \<Rightarrow> Failed), n_Summary := Some sm,
          n_Error := map_option Error re\<rparr> else n) ?rs\<rparr>"
    by (auto simp: complete_run_row_def Let_def)
  from one have "filter ?hit ?rs \<noteq> []" by auto
  then obtain n where n: "n \<in> set ?rs" "?hit n" by (auto simp: filter_empty_conv)
  have only: "x = n" if "x \<in> set ?rs" "n_ID x = i" for x
    using num n that unfolding numbered_def by (metis distinct_map inj_onD)
  have runs: "t_runs (db t) = map (\<lambda>n. if ?hit n then n\<lparr>n_CompletedAt := Some tm,
          n_Status := (case re of None \<Rightarrow> Succeeded | Some _ \<Rightarrow> Failed), n_Summary := Some sm,
          n_Error := map_option Error re\<rparr> else n) ?rs"
    by (simp add: t)
  have over: "filter ?hit (t_runs (db t)) = []"
    unfolding filter_empty_conv
  proof
    fix x assume "x \<in> set (t_runs (db t))"
    then have "x \<in> set (map (\<lambda>n. if ?hit n then n\<lparr>n_CompletedAt := Some tm,
          n_Status := (case re of None \<Rightarrow> Succeeded | Some _ \<Rightarrow> Failed), n_Summary := Some sm,
          n_Error := map_option Error re\<rparr> else n) ?rs)" unfolding runs .
    then obtain y where "x = (if ?hit y then y\<lparr>n_CompletedAt := Some tm,
          n_Status := (case re of None \<Rightarrow> Succeeded | Some _ \<Rightarrow> Failed), n_Summary := Some sm,
          n_Error := map_option Error re\<rparr> else y)" unfolding list.set_map by blast
    then show "\<not> ?hit x" by (cases re; cases "?hit y") simp_all
  qed
  have idle: "complete_run_row i sm' re' x (db t) = Inr (0, db t)" for sm' re' x
  proof -
    have "map (\<lambda>n. if ?hit n then f n else n) (t_runs (db t)) = t_runs (db t)" for f
      using over by (intro map_idI) (auto simp: filter_empty_conv)
    with over show ?thesis by (simp add: complete_run_row_def Let_def)
  qed
  have again: "\<exists>e u. CompleteRun E i sm' re' t = (Inl e, u) \<and> db u = db t" for sm' re'
  proof (cases "CompleteRun E i sm' re' t")
    case (Pair r u)
    from CompleteRun_row [OF Pair, unfolded idle] Pair show ?thesis by (cases r) auto
  qed
  have "\<forall>x \<in> set (t_runs (db t)). n_ID x = i \<longrightarrow> n_CompletedAt x \<noteq> None \<and> n_Summary x = Some sm
         \<and> n_Status x = (case re of None \<Rightarrow> Succeeded | Some _ \<Rightarrow> Failed) \<and> n_Error x = map_option Error re"
    unfolding t using only n by (auto split: if_splits)
  with n again show ?thesis by blast
qed

section \<open>Worked examples\<close>

definition sample_pull_mapping :: "int \<Rightarrow> int \<Rightarrow> pull_request_mapping" where
  "sample_pull_mapping a b = \<lparr>pm_RepositoryGitHubID = 7, pm_GitHubID = a, pm_ForgejoID = b,
     pm_GitHubIndex = 1, pm_ForgejoIndex = 1, pm_LastStateHash = ''h'', pm_UpdatedAt = 5\<rparr>"

theorem pull_slot_never_stolen_witness:
  "(7, 1) \<in> pull_pk ` set (t_pulls (db (snd (UpsertPullRequestMapping unit_env (sample_pull_mapping 1 2) sample_sys))))"
proof -
  have ok: "fst (UpsertPullRequestMapping unit_env (sample_pull_mapping 1 2) sample_sys) = Inr ()" by code_simp
  from pull_slot_never_stolen [OF sample_sys_wf run_result [OF ok]]
  show ?thesis by (simp add: sample_pull_mapping_def)
qed

theorem delivery_claimed_once_witness:
  "fst (ClaimWebhookDelivery unit_env ''github'' ''d1'' ''push'' ''h''
     (snd (ClaimWebhookDelivery unit_env ''github'' ''d1'' ''push'' ''h'' sample_sys))) = Inr False"
proof -
  let ?c = "ClaimWebhookDelivery unit_env ''github'' ''d1'' ''push'' ''h''"
  have 1: "fst (?c sample_sys) = Inr True" by code_simp
  have "\<not> isl (fst (?c (snd (?c sample_sys))))" by code_simp
  then obtain b where 2: "fst (?c (snd (?c sample_sys))) = Inr b"
    by (cases "fst (?c (snd (?c sample_sys)))") auto
  have "\<not> b" using delivery_claimed_once [OF run_result [OF 1] honest_refl run_result [OF 2]] by simp
  with 2 show ?thesis by simp
qed

definition sample_conflict :: conflict where
  "sample_conflict = \<lparr>k_ID = 0, k_Kind = ''issue'', k_Repository = ''a/b'', k_ObjectKey = ''k'',
     k_GitHubState = ''g'', k_ForgejoState = ''f'', k_LastKnownState = ''l'', k_CreatedAt = 5, k_ResolvedAt = None\<rparr>"

theorem conflict_recorded_once_witness:
  "t_conflicts (db (snd (AddConflict unit_env sample_conflict (snd (AddConflict unit_env sample_conflict sample_sys)))))
   = t_conflicts (db (snd (AddConflict unit_env sample_conflict sample_sys)))"
proof -
  have 1: "fst (AddConflict unit_env sample_conflict sample_sys) = Inr ()" by code_simp
  have 2: "fst (AddConflict unit_env sample_conflict (snd (AddConflict unit_env sample_conflict sample_sys))) = Inr ()"
    by code_simp
  show ?thesis by (rule conflict_recorded_once [OF run_result [OF 1] HOL.refl run_result [OF 2]])
qed

theorem conflict_resolution_witness:
  "\<exists>k t. ResolveConflict unit_env 1 (snd (AddConflict unit_env sample_conflict sample_sys)) = (Inr (Some k), t)
     \<and> k_ID k = 1 \<and> k_ResolvedAt k \<noteq> None"
proof -
  let ?s = "snd (AddConflict unit_env sample_conflict sample_sys)"
  have wf: "store_wf (db ?s)"
    using honest_after [OF write_honest(8), of sample_sys unit_env sample_conflict] sample_sys_wf by (simp add: honest_def)
  have "case fst (ResolveConflict unit_env 1 ?s) of Inr (Some _) \<Rightarrow> True | _ \<Rightarrow> False" by code_simp
  then obtain k t where run: "ResolveConflict unit_env 1 ?s = (Inr (Some k), t)"
    by (cases "ResolveConflict unit_env 1 ?s") (auto split: sum.splits option.splits)
  from conflict_resolution [OF wf run] have "k_ID k = 1 \<and> k_ResolvedAt k \<noteq> None" by auto
  with run show ?thesis by blast
qed

theorem run_completed_once_witness:
  "\<exists>e u. CompleteRun unit_env 1 ''{}'' None
     (snd (CompleteRun unit_env 1 ''{}'' None (snd (BeginRun unit_env ''manual'' False sample_sys)))) = (Inl e, u)"
proof -
  let ?s = "snd (BeginRun unit_env ''manual'' False sample_sys)"
  have 1: "fst (CompleteRun unit_env 1 ''{}'' None ?s) = Inr ()" by code_simp
  have "honest (db sample_sys) (db ?s)" by (intro honest_after write_honest)
  then have "store_wf (db ?s)" by (simp add: honest_def)
  from run_completed_once [OF this run_result [OF 1]] show ?thesis by blast
qed

end
