(* ===== verification/Issues.thy ===== *)
theory Issues
  imports Pairing
begin

text \<open>
  \<open>internal/issues/reconcile.go\<close>: the issue reconciler of one mapped repository. The
  phases of \<open>Reconcile\<close> are definitions of their own, in the order of the code: the loop
  over the stored mappings, the pairing by state hash, the pairing by index and title, and
  the two creation loops.
\<close>

section \<open>The forge interface and the pure helpers\<close>

record 'w issue_forge =
  ListIssues :: "string \<Rightarrow> string \<Rightarrow> ('w, issue list) call"
  CreateIssue :: "string \<Rightarrow> string \<Rightarrow> issue \<Rightarrow> ('w, issue) call"
  UpdateIssue :: "string \<Rightarrow> string \<Rightarrow> int \<Rightarrow> issue \<Rightarrow> ('w, issue) call"

record 'w issue_reconciler =
  ir_github :: "'w issue_forge"
  ir_forgejo :: "'w issue_forge"

definition zero_issue :: issue where
  "zero_issue = \<lparr>i_ID = 0, i_Index = 0, i_Title = [], i_Body = [], i_State = [], i_Labels = [],
     i_Milestone = [], i_UpdatedAt = time_zero\<rparr>"

definition validateIssue :: "issue \<Rightarrow> go_error + unit" where
  "validateIssue x =
     (if i_ID x \<le> 0 \<or> i_Index x \<le> 0 \<or> i_Title x = [] then Inl (Err ''issue identity or title is empty'')
      else if i_State x \<noteq> ''open'' \<and> i_State x \<noteq> ''closed''
      then Inl (Err (''issue '' @ FormatInt (i_ID x) @ '' has invalid state '' @ Quote (i_State x)))
      else Inr ())"

definition validateIssues :: "issue list \<Rightarrow> go_error + unit" where
  "validateIssues all = validate_unique validateIssue i_ID ''issue'' {} all"

definition issues_byID :: "issue list \<Rightarrow> int \<Rightarrow> issue option" where
  "issues_byID = index_by i_ID"

definition issues_unconsumed :: "issue list \<Rightarrow> int set \<Rightarrow> issue list" where
  "issues_unconsumed = unconsumed_by i_ID"

definition issues_uniqueHashPairs :: "'w env \<Rightarrow> issue list \<Rightarrow> issue list \<Rightarrow> (int \<times> int) list" where
  "issues_uniqueHashPairs E = unique_pairs (issue_Hash E) i_ID (\<lambda>_ _. True)"

definition issues_indexTitlePairs :: "issue list \<Rightarrow> issue list \<Rightarrow> (int \<times> int) list" where
  "issues_indexTitlePairs = unique_pairs i_Index i_ID (\<lambda>g f. i_Title g = i_Title f)"

definition issueMapping :: "'w env \<Rightarrow> int \<Rightarrow> issue \<Rightarrow> issue \<Rightarrow> time \<Rightarrow> issue_mapping" where
  "issueMapping E repositoryID g f t =
     \<lparr>im_RepositoryGitHubID = repositoryID, im_GitHubID = i_ID g, im_ForgejoID = i_ID f,
      im_GitHubIndex = i_Index g, im_ForgejoIndex = i_Index f,
      im_LastStateHash = issue_Hash E g, im_UpdatedAt = t\<rparr>"

definition issues_stateOrMissing :: "'w env \<Rightarrow> issue option \<Rightarrow> string" where
  "issues_stateOrMissing E x =
     (case x of None \<Rightarrow> ''missing'' | Some i \<Rightarrow> issue_Hash E i @ '':'' @ FormatInt (i_ID i))"

section \<open>The phases\<close>

text \<open>Advancing a mapping to a new last synchronized state.\<close>

definition issues_advance :: "'w env \<Rightarrow> issue_mapping \<Rightarrow> string \<Rightarrow> ('w sys, unit) prog" where
  "issues_advance E m h =
     bnd (now E) (\<lambda>t. UpsertIssueMapping E (m\<lparr>im_LastStateHash := h, im_UpdatedAt := t\<rparr>))"

text \<open>A mapping whose two issues are both listed.\<close>

definition issues_sync_pair ::
  "'w env \<Rightarrow> 'w issue_reconciler \<Rightarrow> repository_mapping \<Rightarrow> string \<Rightarrow> string \<Rightarrow> bool \<Rightarrow>
   issue_mapping \<Rightarrow> issue \<Rightarrow> issue \<Rightarrow> ('w sys, unit) prog" where
  "issues_sync_pair E R repo owner name dryRun m g f =
     (let gh = issue_Hash E g; fh = issue_Hash E f
      in case three_way gh fh (im_LastStateHash m) of
        InSync \<Rightarrow> whenE (\<not> dryRun \<and> im_LastStateHash m \<noteq> gh) (issues_advance E m gh)
      | CopyToForgejo \<Rightarrow> whenE (\<not> dryRun)
          (bnd (wrapE (''copy GitHub issue '' @ FormatInt (im_GitHubID m) @ '' to Forgejo'')
             (ext (UpdateIssue (ir_forgejo R) (rm_ForgejoOwner repo) (rm_ForgejoName repo) (im_ForgejoIndex m) g)))
           (\<lambda>_. issues_advance E m gh))
      | CopyToGitHub \<Rightarrow> whenE (\<not> dryRun)
          (bnd (wrapE (''copy Forgejo issue '' @ FormatInt (im_ForgejoID m) @ '' to GitHub'')
             (ext (UpdateIssue (ir_github R) owner name (im_GitHubIndex m) f)))
           (\<lambda>_. issues_advance E m fh))
      | BothChanged \<Rightarrow> whenE (\<not> dryRun)
          (record_conflict E ''issue'' (rm_GitHubFullName repo)
             (object_key (im_GitHubID m) (im_ForgejoID m)) gh fh (im_LastStateHash m)))"

definition issues_reconcile_mapping ::
  "'w env \<Rightarrow> 'w issue_reconciler \<Rightarrow> repository_mapping \<Rightarrow> string \<Rightarrow> string \<Rightarrow> bool \<Rightarrow>
   (int \<Rightarrow> issue option) \<Rightarrow> (int \<Rightarrow> issue option) \<Rightarrow>
   issue_mapping \<Rightarrow> int set \<times> int set \<Rightarrow> ('w sys, int set \<times> int set) prog" where
  "issues_reconcile_mapping E R repo owner name dryRun githubByID forgejoByID m consumed =
     (case (githubByID (im_GitHubID m), forgejoByID (im_ForgejoID m)) of
        (Some g, Some f) \<Rightarrow>
          bnd (issues_sync_pair E R repo owner name dryRun m g f)
            (\<lambda>_. ret (insert (i_ID g) (fst consumed), insert (i_ID f) (snd consumed)))
      | (x, y) \<Rightarrow>
          bnd (whenE (\<not> dryRun) (record_conflict E ''issue-missing'' (rm_GitHubFullName repo)
              (object_key (im_GitHubID m) (im_ForgejoID m))
              (issues_stateOrMissing E x) (issues_stateOrMissing E y) (im_LastStateHash m)))
            (\<lambda>_. ret consumed))"

text \<open>Adopting a pair: the two passes differ in the baseline they record.\<close>

definition issues_adopt_pair ::
  "'w env \<Rightarrow> repository_mapping \<Rightarrow> bool \<Rightarrow> (issue \<Rightarrow> issue \<Rightarrow> issue) \<Rightarrow>
   (int \<Rightarrow> issue option) \<Rightarrow> (int \<Rightarrow> issue option) \<Rightarrow>
   int \<times> int \<Rightarrow> int set \<times> int set \<Rightarrow> ('w sys, int set \<times> int set) prog" where
  "issues_adopt_pair E repo dryRun baseline githubByID forgejoByID p consumed =
     (let g = (case githubByID (fst p) of None \<Rightarrow> zero_issue | Some x \<Rightarrow> x);
          f = (case forgejoByID (snd p) of None \<Rightarrow> zero_issue | Some x \<Rightarrow> x)
      in bnd (whenE (\<not> dryRun) (bnd (now E) (\<lambda>t. UpsertIssueMapping E
              ((issueMapping E (rm_GitHubID repo) g f t)\<lparr>im_LastStateHash := issue_Hash E (baseline g f)\<rparr>))))
           (\<lambda>_. ret (insert (fst p) (fst consumed), insert (snd p) (snd consumed))))"

definition issues_create_on_forgejo ::
  "'w env \<Rightarrow> 'w issue_reconciler \<Rightarrow> repository_mapping \<Rightarrow> bool \<Rightarrow> issue \<Rightarrow> ('w sys, unit) prog" where
  "issues_create_on_forgejo E R repo dryRun g = whenE (\<not> dryRun)
     (bnd (wrapE (''create Forgejo issue from GitHub issue '' @ FormatInt (i_ID g))
        (ext (CreateIssue (ir_forgejo R) (rm_ForgejoOwner repo) (rm_ForgejoName repo) g))) (\<lambda>created.
      bnd (wrapE ''invalid created Forgejo issue'' (of_sum (validateIssue created))) (\<lambda>_.
      bnd (now E) (\<lambda>t. UpsertIssueMapping E (issueMapping E (rm_GitHubID repo) g created t)))))"

definition issues_create_on_github ::
  "'w env \<Rightarrow> 'w issue_reconciler \<Rightarrow> repository_mapping \<Rightarrow> string \<Rightarrow> string \<Rightarrow> bool \<Rightarrow> issue \<Rightarrow> ('w sys, unit) prog" where
  "issues_create_on_github E R repo owner name dryRun f = whenE (\<not> dryRun)
     (bnd (wrapE (''create GitHub issue from Forgejo issue '' @ FormatInt (i_ID f))
        (ext (CreateIssue (ir_github R) owner name f))) (\<lambda>created.
      bnd (wrapE ''invalid created GitHub issue'' (of_sum (validateIssue created))) (\<lambda>_.
      bnd (now E) (\<lambda>t. UpsertIssueMapping E (issueMapping E (rm_GitHubID repo) created f t)))))"

text \<open>Everything after the listings and the mappings are read.\<close>

definition issues_sync ::
  "'w env \<Rightarrow> 'w issue_reconciler \<Rightarrow> repository_mapping \<Rightarrow> string \<Rightarrow> string \<Rightarrow> bool \<Rightarrow>
   issue list \<Rightarrow> issue list \<Rightarrow> issue_mapping list \<Rightarrow> ('w sys, unit) prog" where
  "issues_sync E R repo owner name dryRun gis fis mappings =
     (let githubByID = issues_byID gis; forgejoByID = issues_byID fis
      in bnd (foldE (issues_reconcile_mapping E R repo owner name dryRun githubByID forgejoByID)
               mappings ({}, {})) (\<lambda>c1.
         bnd (map_range E (issues_uniqueHashPairs E (issues_unconsumed gis (fst c1)) (issues_unconsumed fis (snd c1)))) (\<lambda>paired.
         bnd (foldE (issues_adopt_pair E repo dryRun (\<lambda>g f. g) githubByID forgejoByID) paired c1) (\<lambda>c2.
         bnd (map_range E (issues_indexTitlePairs (issues_unconsumed gis (fst c2)) (issues_unconsumed fis (snd c2)))) (\<lambda>indexed.
         bnd (foldE (issues_adopt_pair E repo dryRun (\<lambda>g f. f) githubByID forgejoByID) indexed c2) (\<lambda>c3.
         bnd (forE (issues_create_on_forgejo E R repo dryRun) (issues_unconsumed gis (fst c3))) (\<lambda>_.
         forE (issues_create_on_github E R repo owner name dryRun) (issues_unconsumed fis (snd c3)))))))))"

definition issues_Reconcile ::
  "'w env \<Rightarrow> 'w issue_reconciler \<Rightarrow> repository_mapping \<Rightarrow> bool \<Rightarrow> ('w sys, unit) prog" where
  "issues_Reconcile E R repo dryRun =
     bnd (of_sum (mapping_identity repo)) (\<lambda>(owner, name).
     bnd (wrapE ''list GitHub issues'' (ext (ListIssues (ir_github R) owner name))) (\<lambda>gis.
     bnd (wrapE ''list Forgejo issues''
       (ext (ListIssues (ir_forgejo R) (rm_ForgejoOwner repo) (rm_ForgejoName repo)))) (\<lambda>fis.
     bnd (wrapE ''invalid GitHub issue response'' (of_sum (validateIssues gis))) (\<lambda>_.
     bnd (wrapE ''invalid Forgejo issue response'' (of_sum (validateIssues fis))) (\<lambda>_.
     bnd (ListIssueMappings E (rm_GitHubID repo)) (\<lambda>mappings.
     issues_sync E R repo owner name dryRun gis fis mappings))))))"

section \<open>Frame lemmas\<close>

lemmas issues_defs = issues_advance_def issues_sync_pair_def issues_reconcile_mapping_def
  issues_adopt_pair_def issues_create_on_forgejo_def issues_create_on_github_def

lemma issues_steps_honest [guar_intros]:
  "guar (on_db honest) (issues_advance E m h)"
  "guar (on_db honest) (issues_sync_pair E R repo ow nm dry m g f)"
  "guar (on_db honest) (issues_reconcile_mapping E R repo ow nm dry G F m c)"
  "guar (on_db honest) (issues_adopt_pair E repo dry bl G F p c)"
  "guar (on_db honest) (issues_create_on_forgejo E R repo dry g)"
  "guar (on_db honest) (issues_create_on_github E R repo ow nm dry f)"
  unfolding issues_defs by (intro guar_intros guar_splits guar_decision)+

lemma issues_sync_honest [guar_intros]:
  "guar (on_db honest) (issues_sync E R repo ow nm dry gis fis ms)"
  unfolding issues_sync_def by (intro guar_intros guar_splits)

lemma issues_Reconcile_honest [guar_intros]: "guar (on_db honest) (issues_Reconcile E R repo dry)"
  unfolding issues_Reconcile_def by (intro guar_intros guar_splits)

section \<open>A dry run\<close>

text \<open>In a dry run every step of every phase only updates the local variables.\<close>

definition issues_consume ::
  "(int \<Rightarrow> issue option) \<Rightarrow> (int \<Rightarrow> issue option) \<Rightarrow> issue_mapping \<Rightarrow> int set \<times> int set \<Rightarrow> int set \<times> int set" where
  "issues_consume G F m c = (case (G (im_GitHubID m), F (im_ForgejoID m)) of
     (Some g, Some f) \<Rightarrow> (insert (i_ID g) (fst c), insert (i_ID f) (snd c)) | _ \<Rightarrow> c)"

lemma issues_dry_steps:
  "issues_sync_pair E R repo ow nm True m g f = ret ()"
  "issues_reconcile_mapping E R repo ow nm True G F m c = ret (issues_consume G F m c)"
  "issues_adopt_pair E repo True bl G F p c = ret (insert (fst p) (fst c), insert (snd p) (snd c))"
  "issues_create_on_forgejo E R repo True g = ret ()"
  "issues_create_on_github E R repo ow nm True f = ret ()"
  by (auto simp: issues_defs issues_consume_def Let_def split: decision.split option.split)

lemma issues_sync_dry_unchanged: "guar (on_db unchanged) (issues_sync E R repo ow nm True gis fis ms)"
  unfolding issues_sync_def by (intro guar_intros guar_splits) (simp_all add: issues_dry_steps unchanged.ret_guar)

lemma issues_sync_dry_any:
  "issues_sync E R repo ow nm True gis fis ms = issues_sync E R' repo ow nm True gis fis ms"
proof -
  have "issues_create_on_forgejo E R repo True = issues_create_on_forgejo E R' repo True"
    "issues_create_on_github E R repo ow nm True = issues_create_on_github E R' repo ow nm True"
    "issues_reconcile_mapping E R repo ow nm True = issues_reconcile_mapping E R' repo ow nm True"
    by (intro ext; simp add: issues_dry_steps)+
  then show ?thesis unfolding issues_sync_def by simp
qed

section \<open>What a successful run has done\<close>

lemma issues_advance_Inr:
  "issues_advance E m h s = (Inr x, t) \<Longrightarrow>
     \<exists>u. m\<lparr>im_LastStateHash := h, im_UpdatedAt := u\<rparr> \<in> set (t_issues (db t))"
  by (auto simp: issues_advance_def bnd_Inr dest!: Upsert_stored(1))

lemma issues_mapping_Inr:
  assumes "issues_reconcile_mapping E R repo ow nm dry G F m c s = (Inr b, t)"
  shows "b = issues_consume G F m c"
  using assms
  by (auto simp: issues_reconcile_mapping_def issues_consume_def bnd_Inr ret_Inr split: option.splits)

lemma issues_adopt_Inr:
  assumes "issues_adopt_pair E repo dry bl G F p c s = (Inr b, t)"
  shows "b = (insert (fst p) (fst c), insert (snd p) (snd c))"
  using assms by (auto simp: issues_adopt_pair_def bnd_Inr ret_Inr Let_def)

definition issue_mapped :: "repository_mapping \<Rightarrow> int \<Rightarrow> store \<Rightarrow> bool" where
  "issue_mapped repo i d \<longleftrightarrow> (rm_GitHubID repo, i) \<in> issue_pk ` set (t_issues d)"

lemma issue_mapped_honest: "honest d d' \<Longrightarrow> issue_mapped repo i d \<Longrightarrow> issue_mapped repo i d'"
  unfolding issue_mapped_def by (rule honest_keys(1) [THEN subsetD])

lemma upsert_maps_issue:
  assumes "UpsertIssueMapping E m s = (Inr x, t)" and "issue_pk m = (rm_GitHubID repo, i)"
  shows "issue_mapped repo i (db t)"
proof -
  obtain u where "m\<lparr>im_UpdatedAt := u\<rparr> \<in> set (t_issues (db t))" using Upsert_stored(1) [OF assms(1)] by blast
  then have "issue_pk (m\<lparr>im_UpdatedAt := u\<rparr>) \<in> issue_pk ` set (t_issues (db t))" by (rule imageI)
  with assms(2) show ?thesis by (simp add: issue_mapped_def)
qed

lemma issues_adopt_maps:
  assumes "issues_adopt_pair E repo False bl (issues_byID gis) F p c s = (Inr b, t)"
    and "fst p \<in> i_ID ` set gis"
  shows "issue_mapped repo (fst p) (db t)"
proof -
  obtain g where g: "issues_byID gis (fst p) = Some g"
    using assms(2) index_by_None [of i_ID gis "fst p"] unfolding issues_byID_def by fastforce
  then have "i_ID g = fst p" by (auto simp: issues_byID_def dest: index_by_Some)
  with g assms(1) show ?thesis
    by (auto simp: issues_adopt_pair_def Let_def bnd_Inr ret_Inr issueMapping_def intro!: upsert_maps_issue)
qed

lemma issues_create_maps:
  "issues_create_on_forgejo E R repo False g s = (Inr b, t) \<Longrightarrow> issue_mapped repo (i_ID g) (db t)"
  by (auto simp: issues_create_on_forgejo_def bnd_Inr issueMapping_def intro!: upsert_maps_issue)

lemma issues_consume_mem:
  "k \<in> fst (issues_consume G F m c) \<Longrightarrow> k \<in> fst c \<or> (\<exists>g. G (im_GitHubID m) = Some g \<and> k = i_ID g)"
  by (auto simp: issues_consume_def split: option.splits)

lemma issues_consume_fold:
  "k \<in> fst (fold (issues_consume G F) ms c) \<Longrightarrow>
     k \<in> fst c \<or> (\<exists>m \<in> set ms. \<exists>g. G (im_GitHubID m) = Some g \<and> k = i_ID g)"
proof (induction ms arbitrary: c)
  case (Cons m ms)
  from Cons.IH [of "issues_consume G F m c"] Cons.prems issues_consume_mem [of k G F m c]
  show ?case by auto
qed simp

text \<open>After a successful run every issue that GitHub listed is mapped.\<close>

lemma issues_sync_complete:
  assumes run: "issues_sync E R repo ow nm False gis fis ms s = (Inr (), t)"
    and ord: "order_ok E"
    and old: "\<And>m. m \<in> set ms \<Longrightarrow> issue_mapped repo (im_GitHubID m) (db s)"
    and i: "i \<in> set gis"
  shows "issue_mapped repo (i_ID i) (db t)"
proof -
  let ?G = "issues_byID gis" and ?F = "issues_byID fis"
  obtain c1 s1 ps1 s2 c2 s3 ps2 s4 c3 s5 u s6 where
    1: "foldE (issues_reconcile_mapping E R repo ow nm False ?G ?F) ms ({}, {}) s = (Inr c1, s1)" and
    2: "map_range E (issues_uniqueHashPairs E (issues_unconsumed gis (fst c1)) (issues_unconsumed fis (snd c1))) s1 = (Inr ps1, s2)" and
    3: "foldE (issues_adopt_pair E repo False (\<lambda>g f. g) ?G ?F) ps1 c1 s2 = (Inr c2, s3)" and
    4: "map_range E (issues_indexTitlePairs (issues_unconsumed gis (fst c2)) (issues_unconsumed fis (snd c2))) s3 = (Inr ps2, s4)" and
    5: "foldE (issues_adopt_pair E repo False (\<lambda>g f. f) ?G ?F) ps2 c2 s4 = (Inr c3, s5)" and
    6: "forE (issues_create_on_forgejo E R repo False) (issues_unconsumed gis (fst c3)) s5 = (Inr u, s6)" and
    7: "forE (issues_create_on_github E R repo ow nm False) (issues_unconsumed fis (snd c3)) s6 = (Inr (), t)"
    using run unfolding issues_sync_def Let_def bnd_Inr by (elim exE conjE) (rule that)
  have s2: "s2 = s1" "set ps1 = set (issues_uniqueHashPairs E (issues_unconsumed gis (fst c1)) (issues_unconsumed fis (snd c1)))"
    and s4: "s4 = s3" "set ps2 = set (issues_indexTitlePairs (issues_unconsumed gis (fst c2)) (issues_unconsumed fis (snd c2)))"
    using order_ok_set [OF ord 2] order_ok_set [OF ord 4] by auto
  have c1: "c1 = fold (issues_consume ?G ?F) ms ({}, {})"
    by (rule foldE_acc [OF 1]) (rule issues_mapping_Inr)
  have c2: "c2 = (fst c1 \<union> fst ` set ps1, snd c1 \<union> snd ` set ps1)"
    unfolding fold_consume_pairs [symmetric] by (rule foldE_acc [OF 3]) (rule issues_adopt_Inr)
  have c3: "c3 = (fst c2 \<union> fst ` set ps2, snd c2 \<union> snd ` set ps2)"
    unfolding fold_consume_pairs [symmetric] by (rule foldE_acc [OF 5]) (rule issues_adopt_Inr)
  have h1: "honest (db s) (db s1)" by (rule foldE_Inr_honest [OF 1]) (rule issues_steps_honest)
  have h3: "honest (db s2) (db s3)" by (rule foldE_Inr_honest [OF 3]) (rule issues_steps_honest)
  have h5: "honest (db s4) (db s5)" by (rule foldE_Inr_honest [OF 5]) (rule issues_steps_honest)
  have h6: "honest (db s5) (db s6)"
    using guarD [OF honest.forE_guar [OF issues_steps_honest(5)] 6] by (simp add: on_db_def)
  have h7: "honest (db s6) (db t)"
    using guarD [OF honest.forE_guar [OF issues_steps_honest(6)] 7] by (simp add: on_db_def)
  have t5: "honest (db s5) (db t)" using h6 h7 by (rule honest_trans)
  have t3: "honest (db s3) (db t)" using h5 t5 s4(1) by (metis honest_trans)
  have t1: "honest (db s) (db t)" using h1 h3 t3 s2(1) by (metis honest_trans)
  have ids: "fst p \<in> i_ID ` set gis" if "p \<in> set ps1 \<union> set ps2" for p
    using that unfolding s2(2) s4(2) issues_uniqueHashPairs_def issues_indexTitlePairs_def
      issues_unconsumed_def by (elim UnE) (erule unique_pairs_unconsumed)+
  have m1: "\<forall>p \<in> set ps1. issue_mapped repo (fst p) (db s3)"
    by (rule foldE_each [OF 3]) (auto intro: issues_steps_honest issue_mapped_honest issues_adopt_maps ids)
  have m2: "\<forall>p \<in> set ps2. issue_mapped repo (fst p) (db s5)"
    by (rule foldE_each [OF 5]) (auto intro: issues_steps_honest issue_mapped_honest issues_adopt_maps ids)
  have m3: "\<forall>g \<in> set (issues_unconsumed gis (fst c3)). issue_mapped repo (i_ID g) (db s6)"
    by (rule forE_each [OF 6]) (auto intro: issues_steps_honest issue_mapped_honest issues_create_maps)
  consider (old) "i_ID i \<in> fst c1" | (a) "i_ID i \<in> fst ` set ps1" | (b) "i_ID i \<in> fst ` set ps2"
    | (c) "i \<in> set (issues_unconsumed gis (fst c3))"
    using i c2 c3 by (auto simp: issues_unconsumed_def set_unconsumed_by)
  then show ?thesis
  proof cases
    case old
    then obtain m where "m \<in> set ms" "im_GitHubID m = i_ID i"
      using issues_consume_fold [of "i_ID i" ?G ?F ms "({}, {})"] c1
      by (auto simp: issues_byID_def dest!: index_by_Some)
    with assms(3) t1 show ?thesis by (metis issue_mapped_honest)
  next
    case a
    with m1 t3 show ?thesis by (metis issue_mapped_honest imageE)
  next
    case b
    with m2 t5 show ?thesis by (metis issue_mapped_honest imageE)
  next
    case c
    with m3 h7 show ?thesis by (metis issue_mapped_honest)
  qed
qed

lemma issues_mapping_recorded:
  assumes "issues_reconcile_mapping E R repo ow nm False G F m c s = (Inr b, t)"
  shows "(case (G (im_GitHubID m), F (im_ForgejoID m)) of
      (Some g, Some f) \<Rightarrow>
        three_way (issue_Hash E g) (issue_Hash E f) (im_LastStateHash m) = BothChanged \<longrightarrow>
        recorded ''issue'' (rm_GitHubFullName repo) (object_key (im_GitHubID m) (im_ForgejoID m))
          (issue_Hash E g) (issue_Hash E f) (db t)
    | (x, y) \<Rightarrow>
        recorded ''issue-missing'' (rm_GitHubFullName repo) (object_key (im_GitHubID m) (im_ForgejoID m))
          (issues_stateOrMissing E x) (issues_stateOrMissing E y) (db t))"
  using assms
  by (auto simp: issues_reconcile_mapping_def issues_sync_pair_def Let_def bnd_Inr ret_Inr
      split: option.splits dest!: record_conflict_recorded)

lemma issues_sync_recorded:
  assumes run: "issues_sync E R repo ow nm False gis fis ms s = (Inr (), t)" and m: "m \<in> set ms"
  shows "(case (issues_byID gis (im_GitHubID m), issues_byID fis (im_ForgejoID m)) of
      (Some g, Some f) \<Rightarrow>
        three_way (issue_Hash E g) (issue_Hash E f) (im_LastStateHash m) = BothChanged \<longrightarrow>
        recorded ''issue'' (rm_GitHubFullName repo) (object_key (im_GitHubID m) (im_ForgejoID m))
          (issue_Hash E g) (issue_Hash E f) (db t)
    | (x, y) \<Rightarrow>
        recorded ''issue-missing'' (rm_GitHubFullName repo) (object_key (im_GitHubID m) (im_ForgejoID m))
          (issues_stateOrMissing E x) (issues_stateOrMissing E y) (db t))" (is "?Q m (db t)")
proof -
  let ?f = "issues_reconcile_mapping E R repo ow nm False (issues_byID gis) (issues_byID fis)"
  have stable: "?Q m d \<Longrightarrow> honest d d' \<Longrightarrow> ?Q m d'" for m d d'
    by (auto split: option.splits intro: recorded_honest)
  obtain c u where loop: "foldE ?f ms ({}, {}) s = (Inr c, u)"
    using run unfolding issues_sync_def Let_def bnd_Inr by (elim exE conjE) (rule that)
  have "\<forall>m \<in> set ms. ?Q m (db u)"
    by (rule foldE_each [OF loop issues_steps_honest(3)]) (erule issues_mapping_recorded, erule (1) stable [rotated])
  with m have "?Q m (db u)" by blast
  moreover have "honest (db u) (db t)"
  proof -
    let ?k = "\<lambda>c1. bnd (map_range E (issues_uniqueHashPairs E (issues_unconsumed gis (fst c1)) (issues_unconsumed fis (snd c1)))) (\<lambda>paired.
         bnd (foldE (issues_adopt_pair E repo False (\<lambda>g f. g) (issues_byID gis) (issues_byID fis)) paired c1) (\<lambda>c2.
         bnd (map_range E (issues_indexTitlePairs (issues_unconsumed gis (fst c2)) (issues_unconsumed fis (snd c2)))) (\<lambda>indexed.
         bnd (foldE (issues_adopt_pair E repo False (\<lambda>g f. f) (issues_byID gis) (issues_byID fis)) indexed c2) (\<lambda>c3.
         bnd (forE (issues_create_on_forgejo E R repo False) (issues_unconsumed gis (fst c3))) (\<lambda>_.
         forE (issues_create_on_github E R repo ow nm False) (issues_unconsumed fis (snd c3)))))))"
    have "?k c u = (Inr (), t)" using run loop unfolding issues_sync_def Let_def by (simp add: bnd_app)
    moreover have "guar (on_db honest) (?k c)" by (intro guar_intros guar_splits)
    ultimately show ?thesis by (auto dest: guarD simp: on_db_def)
  qed
  ultimately show ?thesis by (rule stable)
qed

lemma issues_Reconcile_Inr:
  assumes "issues_Reconcile E R repo dry s = (Inr (), t)" and "mapping_identity repo = Inr (ow, nm)"
    and "ListIssues (ir_github R) ow nm (world s) = (Inr gis, w1)"
    and "ListIssues (ir_forgejo R) (rm_ForgejoOwner repo) (rm_ForgejoName repo) w1 = (Inr fis, w2)"
  shows "\<exists>ms u. issues_sync E R repo ow nm dry gis fis ms u = (Inr (), t) \<and> db u = db s
     \<and> set ms = {m \<in> set (t_issues (db s)). im_RepositoryGitHubID m = rm_GitHubID repo}
     \<and> validateIssues gis = Inr () \<and> validateIssues fis = Inr ()"
  using assms
  by (auto simp: issues_Reconcile_def bnd_Inr wrapE_Inr of_sum_app ext_app ListIssueMappings_def
      db_query_def dest!: db_exec_Inr)
    (fastforce simp: db_exec_def split: prod.splits option.splits)

text \<open>Nothing but reads when everything is mapped and in sync.\<close>

lemma issues_sync_quiet:
  assumes ord: "order_ok E"
    and synced: "\<And>m. m \<in> set ms \<Longrightarrow> \<exists>g f. issues_byID gis (im_GitHubID m) = Some g \<and> issues_byID fis (im_ForgejoID m) = Some f
        \<and> issue_Hash E g = im_LastStateHash m \<and> issue_Hash E f = im_LastStateHash m"
    and gs: "i_ID ` set gis \<subseteq> im_GitHubID ` set ms" and fs: "i_ID ` set fis \<subseteq> im_ForgejoID ` set ms"
  shows "issues_sync E R repo ow nm dry gis fis ms = ret ()"
proof -
  let ?G = "issues_byID gis" and ?F = "issues_byID fis"
  let ?c = "fold (issues_consume ?G ?F) ms ({}, {})"
  have loop: "foldE (issues_reconcile_mapping E R repo ow nm dry ?G ?F) ms ({}, {}) = ret ?c"
  proof (rule foldE_quiet)
    fix m c assume "m \<in> set ms"
    then obtain g f where "?G (im_GitHubID m) = Some g" "?F (im_ForgejoID m) = Some f"
      "issue_Hash E g = im_LastStateHash m" "issue_Hash E f = im_LastStateHash m" using synced by blast
    then show "issues_reconcile_mapping E R repo ow nm dry ?G ?F m c = ret (issues_consume ?G ?F m c)"
      by (simp add: issues_reconcile_mapping_def issues_sync_pair_def issues_consume_def three_way_def)
  qed
  have all: "fst (fold (issues_consume ?G ?F) xs c) = fst c \<union> im_GitHubID ` set xs
      \<and> snd (fold (issues_consume ?G ?F) xs c) = snd c \<union> im_ForgejoID ` set xs"
    if "set xs \<subseteq> set ms" for xs c
    using that
  proof (induction xs arbitrary: c)
    case (Cons m xs)
    then obtain g f where "?G (im_GitHubID m) = Some g" "?F (im_ForgejoID m) = Some f" using synced by fastforce
    moreover from this have "i_ID g = im_GitHubID m" "i_ID f = im_ForgejoID m"
      by (auto simp: issues_byID_def dest: index_by_Some)
    ultimately show ?case using Cons by (auto simp: issues_consume_def)
  qed simp
  have "issues_unconsumed gis (fst ?c) = []" "issues_unconsumed fis (snd ?c) = []"
    unfolding issues_unconsumed_def using all [of ms "({}, {})"] gs fs by (auto intro!: unconsumed_by_all)
  moreover have "issues_uniqueHashPairs E [] [] = []" "issues_indexTitlePairs [] [] = []"
    by (simp_all add: issues_uniqueHashPairs_def issues_indexTitlePairs_def unique_pairs_def group_by_def)
  ultimately show ?thesis
    by (simp add: issues_sync_def Let_def loop order_ok_Nil [OF ord])
qed

section \<open>Properties\<close>

text \<open>A dry run writes nothing, and depends on nothing of the forges but their listings.\<close>

lemma issues_Reconcile_dry_unchanged [guar_intros]: "guar (on_db unchanged) (issues_Reconcile E R repo True)"
  unfolding issues_Reconcile_def by (intro guar_intros guar_splits issues_sync_dry_unchanged)

lemma issues_Reconcile_dry_reads:
  assumes "ListIssues (ir_github R') = ListIssues (ir_github R)"
    and "ListIssues (ir_forgejo R') = ListIssues (ir_forgejo R)"
  shows "issues_Reconcile E R' repo True = issues_Reconcile E R repo True"
proof -
  have "issues_sync E R' repo ow nm True = issues_sync E R repo ow nm True" for ow nm
    by (intro HOL.ext issues_sync_dry_any)
  then show ?thesis by (simp add: issues_Reconcile_def assms)
qed

text \<open>C33: after a run that returns no error (and is not a dry run), every issue that GitHub
  listed is mapped to a Forgejo issue: nothing is left out silently.\<close>

theorem issues_complete:
  assumes "order_ok E" and "issues_Reconcile E R repo False s = (Inr (), t)"
    and "mapping_identity repo = Inr (ow, nm)"
    and "ListIssues (ir_github R) ow nm (world s) = (Inr gis, w1)"
    and "ListIssues (ir_forgejo R) (rm_ForgejoOwner repo) (rm_ForgejoName repo) w1 = (Inr fis, w2)"
    and "i \<in> set gis"
  shows "issue_mapped repo (i_ID i) (db t)"
proof -
  obtain ms u where run: "issues_sync E R repo ow nm False gis fis ms u = (Inr (), t)" and u: "db u = db s"
    and ms: "set ms = {m \<in> set (t_issues (db s)). im_RepositoryGitHubID m = rm_GitHubID repo}"
    using issues_Reconcile_Inr [OF assms(2-5)] by blast
  have "issue_mapped repo (im_GitHubID m) (db u)" if "m \<in> set ms" for m
    using that ms u by (force simp: issue_mapped_def)
  from issues_sync_complete [OF run assms(1) this assms(6)] show ?thesis .
qed

text \<open>C34: the reconciler never picks a winner silently. After a run that returns no error,
  every mapped pair that changed on both sides since the last synchronized state, and every
  mapped pair with a side missing, has its conflict row, with the state of both sides.\<close>

theorem issues_conflicts_recorded:
  assumes "issues_Reconcile E R repo False s = (Inr (), t)"
    and "mapping_identity repo = Inr (ow, nm)"
    and "ListIssues (ir_github R) ow nm (world s) = (Inr gis, w1)"
    and "ListIssues (ir_forgejo R) (rm_ForgejoOwner repo) (rm_ForgejoName repo) w1 = (Inr fis, w2)"
    and "m \<in> set (t_issues (db s))" and "im_RepositoryGitHubID m = rm_GitHubID repo"
  shows "(case (issues_byID gis (im_GitHubID m), issues_byID fis (im_ForgejoID m)) of
      (Some g, Some f) \<Rightarrow>
        three_way (issue_Hash E g) (issue_Hash E f) (im_LastStateHash m) = BothChanged \<longrightarrow>
        recorded ''issue'' (rm_GitHubFullName repo) (object_key (im_GitHubID m) (im_ForgejoID m))
          (issue_Hash E g) (issue_Hash E f) (db t)
    | (x, y) \<Rightarrow>
        recorded ''issue-missing'' (rm_GitHubFullName repo) (object_key (im_GitHubID m) (im_ForgejoID m))
          (issues_stateOrMissing E x) (issues_stateOrMissing E y) (db t))"
proof -
  obtain ms u where run: "issues_sync E R repo ow nm False gis fis ms u = (Inr (), t)"
    and ms: "set ms = {m \<in> set (t_issues (db s)). im_RepositoryGitHubID m = rm_GitHubID repo}"
    using issues_Reconcile_Inr [OF assms(1-4)] by blast
  show ?thesis by (rule issues_sync_recorded [OF run]) (simp add: ms assms(5,6))
qed

text \<open>an update is only ever sent for a mapped pair of which exactly one side changed, to
  the other side, with the changed side's content. Replacing the update operations by any
  others that agree on those calls gives the same run.\<close>

theorem issues_only_decided_updates:
  assumes "\<And>m g f w. m \<in> set ms \<Longrightarrow> issues_byID gis (im_GitHubID m) = Some g \<Longrightarrow> issues_byID fis (im_ForgejoID m) = Some f \<Longrightarrow>
        three_way (issue_Hash E g) (issue_Hash E f) (im_LastStateHash m) = CopyToForgejo \<Longrightarrow>
        u (rm_ForgejoOwner repo) (rm_ForgejoName repo) (im_ForgejoIndex m) g w
          = UpdateIssue (ir_forgejo R) (rm_ForgejoOwner repo) (rm_ForgejoName repo) (im_ForgejoIndex m) g w"
    and "\<And>m g f w. m \<in> set ms \<Longrightarrow> issues_byID gis (im_GitHubID m) = Some g \<Longrightarrow> issues_byID fis (im_ForgejoID m) = Some f \<Longrightarrow>
        three_way (issue_Hash E g) (issue_Hash E f) (im_LastStateHash m) = CopyToGitHub \<Longrightarrow>
        v ow nm (im_GitHubIndex m) f w = UpdateIssue (ir_github R) ow nm (im_GitHubIndex m) f w"
  shows "issues_sync E \<lparr>ir_github = (ir_github R)\<lparr>UpdateIssue := v\<rparr>, ir_forgejo = (ir_forgejo R)\<lparr>UpdateIssue := u\<rparr>\<rparr>
           repo ow nm dry gis fis ms s
         = issues_sync E R repo ow nm dry gis fis ms s"
proof -
  let ?R = "\<lparr>ir_github = (ir_github R)\<lparr>UpdateIssue := v\<rparr>, ir_forgejo = (ir_forgejo R)\<lparr>UpdateIssue := u\<rparr>\<rparr>"
  let ?f = "\<lambda>R. issues_reconcile_mapping E R repo ow nm dry (issues_byID gis) (issues_byID fis)"
  have "?f ?R m c = ?f R m c" if m: "m \<in> set ms" for m c
  proof (cases "issues_byID gis (im_GitHubID m)"; cases "issues_byID fis (im_ForgejoID m)")
    fix g f assume gf: "issues_byID gis (im_GitHubID m) = Some g" "issues_byID fis (im_ForgejoID m) = Some f"
    let ?d = "three_way (issue_Hash E g) (issue_Hash E f) (im_LastStateHash m)"
    have u: "?d = CopyToForgejo \<Longrightarrow> u (rm_ForgejoOwner repo) (rm_ForgejoName repo) (im_ForgejoIndex m) g
        = UpdateIssue (ir_forgejo R) (rm_ForgejoOwner repo) (rm_ForgejoName repo) (im_ForgejoIndex m) g"
      by (rule HOL.ext) (rule assms(1) [OF m gf])
    have v: "?d = CopyToGitHub \<Longrightarrow> v ow nm (im_GitHubIndex m) f = UpdateIssue (ir_github R) ow nm (im_GitHubIndex m) f"
      by (rule HOL.ext) (rule assms(2) [OF m gf])
    from u v show ?thesis
      by (cases ?d) (simp_all add: issues_reconcile_mapping_def issues_sync_pair_def gf)
  qed (simp_all add: issues_reconcile_mapping_def)
  then have "foldE (?f ?R) ms c = foldE (?f R) ms c" for c by (rule foldE_cong)
  moreover have "issues_create_on_forgejo E ?R repo dry = issues_create_on_forgejo E R repo dry"
    "issues_create_on_github E ?R repo ow nm dry = issues_create_on_github E R repo ow nm dry"
    by (simp_all add: fun_eq_iff issues_create_on_forgejo_def issues_create_on_github_def)
  ultimately show ?thesis by (simp add: issues_sync_def)
qed

text \<open>when every listed issue is mapped and both sides of every mapping have the last
  synchronized state, a run does nothing but read: no create, no update, no clock, no write,
  and no error, whatever the forges' other operations would do.\<close>

theorem issues_quiescent:
  assumes "order_ok E" and "mapping_identity repo = Inr (ow, nm)"
    and "ListIssues (ir_github R) ow nm (world s) = (Inr gis, w1)"
    and "ListIssues (ir_forgejo R) (rm_ForgejoOwner repo) (rm_ForgejoName repo) w1 = (Inr fis, w2)"
    and "validateIssues gis = Inr ()" and "validateIssues fis = Inr ()"
    and "e_fault E w2 = (None, w3)"
    and "\<And>m. m \<in> set (t_issues (db s)) \<Longrightarrow> im_RepositoryGitHubID m = rm_GitHubID repo \<Longrightarrow>
          \<exists>g f. issues_byID gis (im_GitHubID m) = Some g \<and> issues_byID fis (im_ForgejoID m) = Some f
            \<and> issue_Hash E g = im_LastStateHash m \<and> issue_Hash E f = im_LastStateHash m"
    and "i_ID ` set gis \<subseteq> im_GitHubID ` {m \<in> set (t_issues (db s)). im_RepositoryGitHubID m = rm_GitHubID repo}"
    and "i_ID ` set fis \<subseteq> im_ForgejoID ` {m \<in> set (t_issues (db s)). im_RepositoryGitHubID m = rm_GitHubID repo}"
  shows "issues_Reconcile E R repo dry s = (Inr (), s\<lparr>world := w3\<rparr>)"
proof -
  let ?ms = "sort_key im_GitHubID (filter (\<lambda>m. im_RepositoryGitHubID m = rm_GitHubID repo) (t_issues (db s)))"
  have "issues_sync E R repo ow nm dry gis fis ?ms = ret ()"
    by (rule issues_sync_quiet [OF assms(1)]) (use assms(8-10) in auto)
  with assms(2-7) show ?thesis
    by (simp add: issues_Reconcile_def bnd_app wrapE_app of_sum_app ext_app ListIssueMappings_def
        db_query_def db_exec_def ret_app)
qed

section \<open>Worked examples\<close>

definition sample_issue :: "int \<Rightarrow> string \<Rightarrow> issue" where
  "sample_issue i title = \<lparr>i_ID = i, i_Index = i, i_Title = title, i_Body = [], i_State = ''open'',
     i_Labels = [], i_Milestone = [], i_UpdatedAt = 0\<rparr>"

definition sample_issue_forge :: "issue list \<Rightarrow> unit issue_forge" where
  "sample_issue_forge xs = \<lparr>ListIssues = \<lambda>_ _ w. (Inr xs, w),
     CreateIssue = \<lambda>_ _ i w. (Inr (i\<lparr>i_ID := i_ID i + 50\<rparr>), w),
     UpdateIssue = \<lambda>_ _ _ i w. (Inr i, w)\<rparr>"

definition sample_issue_reconciler :: "issue list \<Rightarrow> issue list \<Rightarrow> unit issue_reconciler" where
  "sample_issue_reconciler gis fis = \<lparr>ir_github = sample_issue_forge gis, ir_forgejo = sample_issue_forge fis\<rparr>"

definition sample_issue_mapping :: "int \<Rightarrow> int \<Rightarrow> string \<Rightarrow> issue_mapping" where
  "sample_issue_mapping a b h = \<lparr>im_RepositoryGitHubID = 7, im_GitHubID = a, im_ForgejoID = b,
     im_GitHubIndex = a, im_ForgejoIndex = b, im_LastStateHash = h, im_UpdatedAt = 0\<rparr>"

definition sample_issue_sys :: "issue_mapping list \<Rightarrow> unit sys" where
  "sample_issue_sys ms = \<lparr>db = empty_store\<lparr>t_repositories := [sample_repository], t_issues := ms\<rparr>, world = ()\<rparr>"

lemma sample_issue_ids [simp]: "i_ID (sample_issue i title) = i"
  by (simp add: sample_issue_def)

lemma sample_issue_mapping_simps [simp]:
  "im_RepositoryGitHubID (sample_issue_mapping a b h) = 7" "im_GitHubID (sample_issue_mapping a b h) = a"
  "im_ForgejoID (sample_issue_mapping a b h) = b" "im_GitHubIndex (sample_issue_mapping a b h) = a"
  "im_ForgejoIndex (sample_issue_mapping a b h) = b" "im_LastStateHash (sample_issue_mapping a b h) = h"
  by (simp_all add: sample_issue_mapping_def)

lemma sample_issue_sys_simps [simp]:
  "t_issues (db (sample_issue_sys ms)) = ms" "(sample_issue_sys ms)\<lparr>world := w\<rparr> = sample_issue_sys ms"
  by (simp_all add: sample_issue_sys_def)

lemma sample_issue_lists [simp]:
  "ListIssues (ir_github (sample_issue_reconciler gis fis)) ow nm w = (Inr gis, w)"
  "ListIssues (ir_forgejo (sample_issue_reconciler gis fis)) ow nm w = (Inr fis, w)"
  by (simp_all add: sample_issue_reconciler_def sample_issue_forge_def)

theorem issues_complete_witness:
  "issue_mapped sample_repository 1 (db (snd (issues_Reconcile unit_env
     (sample_issue_reconciler [sample_issue 1 ''x''] [sample_issue 2 ''y'']) sample_repository False (sample_issue_sys []))))"
proof -
  let ?r = "issues_Reconcile unit_env
     (sample_issue_reconciler [sample_issue 1 ''x''] [sample_issue 2 ''y'']) sample_repository False (sample_issue_sys [])"
  have "fst ?r = Inr ()" by code_simp
  then have "?r = (Inr (), snd ?r)" by (metis prod.collapse)
  from issues_complete [OF _ this, of "''a''" "''b''" "[sample_issue 1 ''x'']" "()" "[sample_issue 2 ''y'']" "()"
      "sample_issue 1 ''x''"]
  show ?thesis by (simp add: sample_issue_def)
qed

theorem issues_conflicts_recorded_witness:
  "recorded ''issue'' ''a/b'' (object_key 1 2) (issue_Hash unit_env (sample_issue 1 ''x''))
     (issue_Hash unit_env (sample_issue 2 ''y''))
     (db (snd (issues_Reconcile unit_env (sample_issue_reconciler [sample_issue 1 ''x''] [sample_issue 2 ''y''])
        sample_repository False (sample_issue_sys [sample_issue_mapping 1 2 ''old'']))))"
proof -
  let ?r = "issues_Reconcile unit_env (sample_issue_reconciler [sample_issue 1 ''x''] [sample_issue 2 ''y''])
        sample_repository False (sample_issue_sys [sample_issue_mapping 1 2 ''old''])"
  have "fst ?r = Inr ()" by code_simp
  then have "?r = (Inr (), snd ?r)" by (metis prod.collapse)
  note run = issues_conflicts_recorded [OF this sample_identity sample_issue_lists(1) sample_issue_lists(2),
      of "sample_issue_mapping 1 2 ''old''"]
  have "issues_byID [sample_issue 1 ''x''] 1 = Some (sample_issue 1 ''x'')"
    "issues_byID [sample_issue 2 ''y''] 2 = Some (sample_issue 2 ''y'')"
    "three_way (issue_Hash unit_env (sample_issue 1 ''x'')) (issue_Hash unit_env (sample_issue 2 ''y'')) ''old'' = BothChanged"
    by code_simp+
  with run show ?thesis by simp
qed

theorem issues_only_decided_updates_witness:
  "issues_sync unit_env
     \<lparr>ir_github = (sample_issue_forge [])\<lparr>UpdateIssue := \<lambda>_ _ _ _ w. (Inl (Err ''refused''), w)\<rparr>,
      ir_forgejo = (sample_issue_forge [])\<lparr>UpdateIssue := \<lambda>_ _ _ _ w. (Inl (Err ''refused''), w)\<rparr>\<rparr>
     sample_repository ''a'' ''b'' False [sample_issue 1 ''x''] [sample_issue 2 ''y'']
     [sample_issue_mapping 1 2 ''old''] (sample_issue_sys [])
   = issues_sync unit_env \<lparr>ir_github = sample_issue_forge [], ir_forgejo = sample_issue_forge []\<rparr>
     sample_repository ''a'' ''b'' False [sample_issue 1 ''x''] [sample_issue 2 ''y'']
     [sample_issue_mapping 1 2 ''old''] (sample_issue_sys [])"
proof -
  have both: "three_way (issue_Hash unit_env g) (issue_Hash unit_env f) ''old'' = BothChanged"
    if "issues_byID [sample_issue 1 ''x''] 1 = Some g" "issues_byID [sample_issue 2 ''y''] 2 = Some f" for g f
  proof -
    have "issues_byID [sample_issue 1 ''x''] 1 = Some (sample_issue 1 ''x'')"
      "issues_byID [sample_issue 2 ''y''] 2 = Some (sample_issue 2 ''y'')"
      "three_way (issue_Hash unit_env (sample_issue 1 ''x'')) (issue_Hash unit_env (sample_issue 2 ''y'')) ''old'' = BothChanged"
      by code_simp+
    with that show ?thesis by simp
  qed
  show ?thesis
    by (intro issues_only_decided_updates [of _ _ _ _ _ _ "\<lparr>ir_github = F, ir_forgejo = F'\<rparr>" for F F', simplified])
      (simp_all add: both)
qed

theorem issues_quiescent_witness:
  "issues_Reconcile unit_env (sample_issue_reconciler [sample_issue 1 ''x''] [sample_issue 2 ''x''])
     sample_repository False
     (sample_issue_sys [sample_issue_mapping 1 2 (issue_Hash unit_env (sample_issue 1 ''x''))])
   = (Inr (), sample_issue_sys [sample_issue_mapping 1 2 (issue_Hash unit_env (sample_issue 1 ''x''))])"
proof -
  let ?s = "sample_issue_sys [sample_issue_mapping 1 2 (issue_Hash unit_env (sample_issue 1 ''x''))]"
  have "issues_byID [sample_issue 1 ''x''] 1 = Some (sample_issue 1 ''x'')"
    "issues_byID [sample_issue 2 ''x''] 2 = Some (sample_issue 2 ''x'')"
    "issue_Hash unit_env (sample_issue 2 ''x'') = issue_Hash unit_env (sample_issue 1 ''x'')"
    "validateIssues [sample_issue 1 ''x''] = Inr ()" "validateIssues [sample_issue 2 ''x''] = Inr ()"
    by code_simp+
  then have "issues_Reconcile unit_env (sample_issue_reconciler [sample_issue 1 ''x''] [sample_issue 2 ''x''])
     sample_repository False ?s = (Inr (), ?s\<lparr>world := ()\<rparr>)"
    by (intro issues_quiescent [of unit_env _ "''a''" "''b''" _ _ "[sample_issue 1 ''x'']" "()" "[sample_issue 2 ''x'']" "()"])
      (simp_all add: Collect_conv_if)
  then show ?thesis by simp
qed

end
