(* ===== verification/Retry.thy ===== *)
theory Retry
  imports Model
begin

text \<open>
  \<open>internal/api/retry.go\<close>: the bounded retry of API calls. The attempt, the sleep and the
  state of the context are programs over an arbitrary state. \<open>Do_loop n i\<close> is the body of
  the \<open>for\<close> loop in iteration \<open>i\<close> with \<open>n\<close> iterations left after it (\<open>n = MaxAttempts - 1 - i\<close>),
  so the code's test \<open>i < p.MaxAttempts-1\<close> is \<open>0 < n\<close>; in the last iteration the body always
  returns.
\<close>

section \<open>Errors that may be retried\<close>

text \<open>\<open>errors.As(err, &transient)\<close>: the two API errors implement the interface; the triple is
  \<open>(Transient(), RetryDelay(), RateLimited())\<close>, and Forgejo's error has no rate limit.\<close>

definition github_Transient :: "github_api_error \<Rightarrow> bool" where
  "github_Transient e = (if gae_rateLimited e then True else gae_StatusCode e = 429 \<or> gae_StatusCode e \<ge> 500)"

definition forgejo_Transient :: "forgejo_api_error \<Rightarrow> bool" where
  "forgejo_Transient e \<longleftrightarrow> fae_StatusCode e = 429 \<or> fae_StatusCode e \<ge> 500"

definition transient_error :: "go_error \<Rightarrow> (bool \<times> duration \<times> bool) option" where
  "transient_error e = (case cause e of
     GitHubAPI a \<Rightarrow> Some (github_Transient a, gae_RetryAfter a, gae_rateLimited a)
   | ForgejoAPI a \<Rightarrow> Some (forgejo_Transient a, fae_RetryAfter a, False)
   | _ \<Rightarrow> None)"

definition isTransportError :: "go_error \<Rightarrow> bool" where
  "isTransportError e = (if transient_error e \<noteq> None then False
     else (case cause e of URLError m \<Rightarrow> True | _ \<Rightarrow> False))"

section \<open>The policy\<close>

record 's retry_policy =
  MaxAttempts :: int
  BaseDelay :: duration
  MaxDelay :: duration
  RateLimitMaxDelay :: duration
  NetworkRetry :: bool
  Sleep :: "duration \<Rightarrow> ('s, unit) prog"

definition DefaultRetryPolicy :: "(duration \<Rightarrow> ('s, unit) prog) \<Rightarrow> 's retry_policy" where
  "DefaultRetryPolicy sleep = \<lparr>MaxAttempts = 4, BaseDelay = second, MaxDelay = 30 * second,
     RateLimitMaxDelay = 15 * minute, NetworkRetry = False, Sleep = sleep\<rparr>"

definition DisabledRetryPolicy :: "(duration \<Rightarrow> ('s, unit) prog) \<Rightarrow> 's retry_policy" where
  "DisabledRetryPolicy sleep = \<lparr>MaxAttempts = 1, BaseDelay = 0, MaxDelay = 0,
     RateLimitMaxDelay = 0, NetworkRetry = False, Sleep = sleep\<rparr>"

definition retry_Validate :: "'s retry_policy \<Rightarrow> go_error + unit" where
  "retry_Validate p =
     (if MaxAttempts p < 1 then Inl (Err ''retry policy requires at least one attempt'')
      else if BaseDelay p < 0 \<or> MaxDelay p < 0 then Inl (Err ''retry delays must not be negative'')
      else if MaxDelay p > 0 \<and> BaseDelay p > MaxDelay p then Inl (Err ''retry base delay exceeds max delay'')
      else Inr ())"

text \<open>\<open>time.Duration(math.Pow(2, float64(attempt)))\<close>: exact below \<open>2 ^ 63\<close>; a larger float
  converts to the smallest \<open>int64\<close> (as on amd64).\<close>

definition pow2_duration :: "nat \<Rightarrow> int" where
  "pow2_duration attempt = (if attempt < 63 then 2 ^ attempt else - (2 ^ 63))"

definition delay :: "'s retry_policy \<Rightarrow> nat \<Rightarrow> duration \<Rightarrow> bool \<Rightarrow> duration" where
  "delay p attempt serverDelay rateLimited =
     (let cap = (if rateLimited \<and> RateLimitMaxDelay p > 0 then RateLimitMaxDelay p else MaxDelay p);
          serverDelay = (if serverDelay > cap \<and> cap > 0 then cap else serverDelay);
          grown = i64 (pow2_duration attempt * BaseDelay p);
          grown = (if grown > cap \<and> cap > 0 then cap else grown)
      in if serverDelay > grown then serverDelay else grown)"

section \<open>The retry loop\<close>

fun Do_loop :: "('s \<Rightarrow> go_error option) \<Rightarrow> 's retry_policy \<Rightarrow> ('s, 'a) prog \<Rightarrow> nat \<Rightarrow> nat \<Rightarrow> ('s, 'a) prog" where
  "Do_loop ctxErr p attempt n i = (\<lambda>s.
     case ctxErr s of Some e \<Rightarrow> (Inl e, s)
     | None \<Rightarrow> (case attempt s of
         (Inr x, t) \<Rightarrow> (Inr x, t)
       | (Inl e, t) \<Rightarrow>
           (case n of 0 \<Rightarrow> (Inl e, t)
            | Suc m \<Rightarrow>
                (case transient_error e of
                   Some (True, serverDelay, limited) \<Rightarrow>
                     bnd (Sleep p (delay p i serverDelay limited)) (\<lambda>_. Do_loop ctxErr p attempt m (Suc i)) t
                 | _ \<Rightarrow>
                     if NetworkRetry p \<and> isTransportError e
                     then bnd (Sleep p (delay p i 0 False)) (\<lambda>_. Do_loop ctxErr p attempt m (Suc i)) t
                     else (Inl e, t)))))"

declare Do_loop.simps [simp del]

definition Do :: "('s \<Rightarrow> go_error option) \<Rightarrow> 's retry_policy \<Rightarrow> ('s, 'a) prog \<Rightarrow> ('s, 'a) prog" where
  "Do ctxErr p attempt =
     (case retry_Validate p of Inl e \<Rightarrow> throw e
      | Inr _ \<Rightarrow> Do_loop ctxErr p attempt (nat (MaxAttempts p - 1)) 0)"

section \<open>Lemmas\<close>

lemma retry_Validate_iff:
  "retry_Validate p = Inr () \<longleftrightarrow> 1 \<le> MaxAttempts p \<and> 0 \<le> BaseDelay p \<and> 0 \<le> MaxDelay p
     \<and> (0 < MaxDelay p \<longrightarrow> BaseDelay p \<le> MaxDelay p)"
  by (auto simp: retry_Validate_def)

context guarantee
begin

lemma Do_loop_guar:
  assumes "guar R attempt" and "\<And>d. guar R (Sleep p d)"
  shows "guar R (Do_loop ctxErr p attempt n i)"
proof (induction n arbitrary: i)
  case 0
  show ?case
  proof (rule guarI)
    fix s
    show "R s (snd (Do_loop ctxErr p attempt 0 i s))"
      using guarD [OF assms(1), of s]
      by (subst Do_loop.simps) (auto simp: refl split: option.splits prod.splits sum.splits)
  qed
next
  case (Suc m)
  show ?case
  proof (rule guarI)
    fix s
    have again: "R t (snd (bnd (Sleep p d) (\<lambda>_. Do_loop ctxErr p attempt m (Suc i)) t))" for t d
      using bnd_guar [where k = "\<lambda>_. Do_loop ctxErr p attempt m (Suc i)", OF assms(2) Suc.IH, of d] by (simp add: guar_def)
    show "R s (snd (Do_loop ctxErr p attempt (Suc m) i s))"
      using guarD [OF assms(1), of s]
      by (subst Do_loop.simps)
        (auto simp: refl intro: trans [OF _ again] split: option.splits prod.splits sum.splits bool.splits)
  qed
qed

lemma Do_guar: "guar R attempt \<Longrightarrow> (\<And>d. guar R (Sleep p d)) \<Longrightarrow> guar R (Do ctxErr p attempt)"
  unfolding Do_def by (auto intro: Do_loop_guar throw_guar split: sum.splits)

end

lemma Do_loop_attempts:
  assumes att: "\<And>s. c (snd (attempt s)) \<le> c s + (1::nat)" and sl: "\<And>d s. c (snd (Sleep p d s)) = c s"
  shows "c (snd (Do_loop ctxErr p attempt n i s)) \<le> c s + Suc n"
proof (induction n arbitrary: i s)
  case 0
  show ?case using att [of s]
    by (subst Do_loop.simps) (auto split: option.splits prod.splits sum.splits)
next
  case (Suc m)
  have again: "c (snd (bnd (Sleep p d) (\<lambda>_. Do_loop ctxErr p attempt m (Suc i)) t)) \<le> c t + Suc m" for t d
    using Suc.IH [of "Suc i" "snd (Sleep p d t)"] sl [of d t]
    by (auto simp: bnd_app split: prod.splits sum.splits)
  have next_step: "c t \<le> Suc (c s) \<Longrightarrow>
      c (snd (bnd (Sleep p d) (\<lambda>_. Do_loop ctxErr p attempt m (Suc i)) t)) \<le> Suc (Suc (c s + m))" for t d
    using again [of d t] by linarith
  show ?case using att [of s]
    by (subst Do_loop.simps)
      (auto intro: next_step split: option.splits prod.splits sum.splits bool.splits)
qed

lemma Do_attempts:
  fixes c :: "'s \<Rightarrow> nat"
  assumes "\<And>s. c (snd (attempt s)) \<le> c s + 1" and "\<And>d s. c (snd (Sleep p d s)) = c s"
  shows "int (c (snd (Do ctxErr p attempt s))) \<le> int (c s) + max 0 (MaxAttempts p)"
proof (cases "retry_Validate p")
  case (Inr u)
  then have "1 \<le> MaxAttempts p" using retry_Validate_iff [of p] by simp
  with Inr Do_loop_attempts [of c attempt p ctxErr "nat (MaxAttempts p - 1)" 0 s, OF assms] show ?thesis
    by (simp add: Do_def)
qed (simp add: Do_def throw_app)

definition retriable :: "'s retry_policy \<Rightarrow> go_error \<Rightarrow> bool" where
  "retriable p e \<longleftrightarrow> (case transient_error e of Some (True, _, _) \<Rightarrow> True | _ \<Rightarrow> NetworkRetry p \<and> isTransportError e)"

lemma Do_loop_success:
  "Do_loop ctxErr p attempt n i s = (Inr x, t) \<Longrightarrow> \<exists>u. attempt u = (Inr x, t)"
proof (induction n arbitrary: i s)
  case 0
  then show ?case by (subst (asm) Do_loop.simps) (auto split: option.splits prod.splits sum.splits)
next
  case (Suc m)
  from Suc.prems show ?case
    by (subst (asm) Do_loop.simps)
      (auto simp: bnd_app dest: Suc.IH split: option.splits prod.splits sum.splits bool.splits if_splits)
qed

section \<open>Properties\<close>

text \<open>C40: the attempt is made at most \<open>MaxAttempts\<close> times, however it fails: any counter that
  an attempt raises by at most one and a sleep leaves alone grows by at most that number.\<close>

theorem retry_attempts_bounded:
  fixes c :: "'s \<Rightarrow> nat"
  assumes "\<And>s. c (snd (attempt s)) \<le> c s + 1" and "\<And>d s. c (snd (Sleep p d s)) = c s"
  shows "int (c (snd (Do ctxErr p attempt s))) \<le> int (c s) + max 0 (MaxAttempts p)"
  using assms by (rule Do_attempts)

text \<open>a failure that is neither transient nor a retried transport error ends the call at
  once with that error, after a single attempt and without a sleep; a call that succeeds
  returns what its last attempt returned.\<close>

theorem retry_stops:
  assumes "retry_Validate p = Inr ()" and "ctxErr s = None"
  shows "(\<forall>e t. attempt s = (Inl e, t) \<longrightarrow> \<not> retriable p e \<longrightarrow> Do ctxErr p attempt s = (Inl e, t))
    \<and> (\<forall>x u. Do ctxErr p attempt s = (Inr x, u) \<longrightarrow> (\<exists>v. attempt v = (Inr x, u)))"
  using assms Do_loop_success [of ctxErr p attempt _ 0 s]
  by (auto simp: Do_def Do_loop.simps [of ctxErr p attempt _ _] retriable_def
      split: option.splits nat.splits bool.splits if_splits)

text \<open>without overflow (\<open>2^i * BaseDelay\<close> below \<open>2^63\<close> nanoseconds) the delay before attempt
  \<open>i + 1\<close> is never negative, never above the applicable cap, at least the exponential back-off
  and at least the server's \<open>Retry-After\<close>, each up to the cap.\<close>

theorem delay_bounds:
  assumes "retry_Validate p = Inr ()" and "i < 63" and "2 ^ i * BaseDelay p < 2 ^ 63"
    and "cap = (if limited \<and> RateLimitMaxDelay p > 0 then RateLimitMaxDelay p else MaxDelay p)"
    and "0 < cap"
  shows "0 \<le> delay p i server limited \<and> delay p i server limited \<le> cap
    \<and> min cap server \<le> delay p i server limited \<and> min cap (2 ^ i * BaseDelay p) \<le> delay p i server limited"
proof -
  have b: "0 \<le> BaseDelay p" using assms(1) retry_Validate_iff by auto
  then have b2: "0 \<le> 2 ^ i * BaseDelay p" by simp
  then have g: "i64 (pow2_duration i * BaseDelay p) = 2 ^ i * BaseDelay p"
    using assms(2,3) by (simp add: pow2_duration_def i64_id)
  show ?thesis
    using assms(5) b2 unfolding delay_def g Let_def assms(4) [symmetric]
    by (auto simp: min_def)
qed

text \<open>the default policy never waits less than zero or longer than 30 seconds between
  two attempts, and for an exhausted rate limit never longer than 15 minutes.\<close>

theorem default_policy_delays:
  "i < 4 \<Longrightarrow> 0 \<le> delay (DefaultRetryPolicy sl) i server limited
     \<and> delay (DefaultRetryPolicy sl) i server limited \<le> (if limited then 15 * minute else 30 * second)"
proof -
  assume "i < 4"
  then have "(2::int) ^ i \<le> 2 ^ 4" by (intro power_increasing) auto
  with \<open>i < 4\<close> have "0 \<le> delay (DefaultRetryPolicy sl) i server limited
     \<and> delay (DefaultRetryPolicy sl) i server limited
       \<le> (if limited \<and> RateLimitMaxDelay (DefaultRetryPolicy sl) > 0
          then RateLimitMaxDelay (DefaultRetryPolicy sl) else MaxDelay (DefaultRetryPolicy sl))"
    by (intro conj_forward [OF delay_bounds [OF _ _ _ HOL.refl]])
      (auto simp: DefaultRetryPolicy_def retry_Validate_def second_def minute_def)
  then show ?thesis by (simp add: DefaultRetryPolicy_def second_def minute_def split: if_splits)
qed

text \<open>The growth overflows for larger attempt numbers, which \<open>Validate\<close> does not exclude: with
  a base of one second the growth for the 36th attempt is negative, and nothing is waited.\<close>

lemma delay_overflows:
  "delay ((DefaultRetryPolicy sl)\<lparr>MaxAttempts := 40\<rparr>) 34 0 False = 0
   \<and> i64 (pow2_duration 34 * second) < 0"
  by (simp add: delay_def DefaultRetryPolicy_def pow2_duration_def second_def minute_def i64_eq
      signed_take_bit_eq_if_negative)

section \<open>Worked examples\<close>

definition tick :: "(nat, unit) prog" where
  "tick = (\<lambda>n. (Inl (ForgejoAPI \<lparr>fae_Method = [], fae_URL = [], fae_StatusCode = 503, fae_RetryAfter = 0\<rparr>), n + 1))"

definition no_sleep :: "duration \<Rightarrow> (nat, unit) prog" where
  "no_sleep d = ret ()"

theorem retry_attempts_bounded_witness:
  "snd (Do (\<lambda>_. None) (DefaultRetryPolicy no_sleep) tick 0) = 4
   \<and> int (snd (Do (\<lambda>_. None) (DefaultRetryPolicy no_sleep) tick 0)) \<le> 4"
proof
  show "snd (Do (\<lambda>_. None) (DefaultRetryPolicy no_sleep) tick 0) = 4" by code_simp
  show "int (snd (Do (\<lambda>_. None) (DefaultRetryPolicy no_sleep) tick 0)) \<le> 4"
    using retry_attempts_bounded [of "\<lambda>n. n" tick "DefaultRetryPolicy no_sleep" "\<lambda>_. None" 0]
    by (simp add: tick_def DefaultRetryPolicy_def ret_app no_sleep_def)
qed

theorem retry_stops_witness:
  "Do (\<lambda>_. None) (DefaultRetryPolicy no_sleep) (throw (Err ''permanent'')) 0 = (Inl (Err ''permanent'') :: go_error + unit, 0)"
  using retry_stops [of "DefaultRetryPolicy no_sleep" "\<lambda>_. None" 0 "throw (Err ''permanent'') :: (nat, unit) prog"]
  by (simp add: DefaultRetryPolicy_def retry_Validate_def second_def throw_app retriable_def
      transient_error_def isTransportError_def)

theorem delay_bounds_witness:
  "0 \<le> delay (DefaultRetryPolicy no_sleep) 3 (60 * second) False
   \<and> delay (DefaultRetryPolicy no_sleep) 3 (60 * second) False \<le> 30 * second"
  using delay_bounds [of "DefaultRetryPolicy no_sleep" 3 "30 * second" False "60 * second"]
  by (simp add: DefaultRetryPolicy_def retry_Validate_def second_def minute_def)

theorem default_policy_delays_witness:
  "0 \<le> delay (DefaultRetryPolicy no_sleep) 2 0 True"
  using default_policy_delays [of 2 no_sleep 0 True] by simp

end
