(* ===== verification/RefPolicy.thy ===== *)
theory RefPolicy
  imports StoreLaws
begin

text \<open>
  \<open>internal/gitrefs/policy.go\<close>: the plan that makes the branches and tags of the two forges
  agree. A \<open>map[string]string\<close> from ref names to commits is an association list; the abstract
  specification is the classification \<open>ref_state\<close> of a single ref.
\<close>

section \<open>The plan\<close>

datatype forge = GitHub | Forgejo

record action =
  act_Ref :: string
  act_SHA :: string
  act_From :: forge
  act_To :: forge

type_synonym refs = "(string \<times> string) list"

definition union_refs :: "refs \<Rightarrow> refs \<Rightarrow> string list" where
  "union_refs githubRefs forgejoRefs = sort_Strings (remdups (map fst githubRefs @ map fst forgejoRefs))"

text \<open>One iteration of the loop over the refs; the accumulator is the pair of slices.\<close>

definition plan_ref ::
  "('s, time) prog \<Rightarrow> string \<Rightarrow> refs \<Rightarrow> refs \<Rightarrow> (string \<Rightarrow> string \<Rightarrow> ('s, bool) prog) \<Rightarrow>
   string \<Rightarrow> action list \<times> conflict list \<Rightarrow> ('s, action list \<times> conflict list) prog" where
  "plan_ref clock repository githubRefs forgejoRefs isAncestor ref acc =
     (case (map_of githubRefs ref, map_of forgejoRefs ref) of
        (None, None) \<Rightarrow> ret acc
      | (Some g, None) \<Rightarrow>
          ret (fst acc @ [\<lparr>act_Ref = ref, act_SHA = g, act_From = GitHub, act_To = Forgejo\<rparr>], snd acc)
      | (None, Some f) \<Rightarrow>
          ret (fst acc @ [\<lparr>act_Ref = ref, act_SHA = f, act_From = Forgejo, act_To = GitHub\<rparr>], snd acc)
      | (Some g, Some f) \<Rightarrow>
          if g = f then ret acc
          else bnd (wrapE (''check ancestry for '' @ ref) (isAncestor g f)) (\<lambda>forgejoAhead.
            if forgejoAhead
            then ret (fst acc @ [\<lparr>act_Ref = ref, act_SHA = f, act_From = Forgejo, act_To = GitHub\<rparr>], snd acc)
            else bnd (wrapE (''check ancestry for '' @ ref) (isAncestor f g)) (\<lambda>githubAhead.
              if githubAhead
              then ret (fst acc @ [\<lparr>act_Ref = ref, act_SHA = g, act_From = GitHub, act_To = Forgejo\<rparr>], snd acc)
              else bnd clock (\<lambda>t.
                ret (fst acc, snd acc @ [\<lparr>k_ID = 0, k_Kind = ''git-ref-divergence'', k_Repository = repository,
                   k_ObjectKey = ref, k_GitHubState = g, k_ForgejoState = f, k_LastKnownState = [],
                   k_CreatedAt = t, k_ResolvedAt = None\<rparr>])))))"

definition Plan ::
  "('s, time) prog \<Rightarrow> string \<Rightarrow> refs \<Rightarrow> refs \<Rightarrow> (string \<Rightarrow> string \<Rightarrow> ('s, bool) prog) \<Rightarrow>
   ('s, action list \<times> conflict list) prog" where
  "Plan clock repository githubRefs forgejoRefs isAncestor =
     (if repository = [] then throw (Err ''repository and ancestry checker are required'')
      else foldE (plan_ref clock repository githubRefs forgejoRefs isAncestor)
             (union_refs githubRefs forgejoRefs) ([], []))"

section \<open>The specification\<close>

datatype ref_state = Absent | OnlyGitHub string | OnlyForgejo string | Same
  | ForgejoAhead string string | GitHubAhead string string | Diverged string string

definition ref_state ::
  "(string \<Rightarrow> string \<Rightarrow> bool) \<Rightarrow> refs \<Rightarrow> refs \<Rightarrow> string \<Rightarrow> ref_state" where
  "ref_state anc G F ref = (case (map_of G ref, map_of F ref) of
     (None, None) \<Rightarrow> Absent
   | (Some g, None) \<Rightarrow> OnlyGitHub g
   | (None, Some f) \<Rightarrow> OnlyForgejo f
   | (Some g, Some f) \<Rightarrow> if g = f then Same else if anc g f then ForgejoAhead g f
       else if anc f g then GitHubAhead g f else Diverged g f)"

definition ref_action :: "string \<Rightarrow> ref_state \<Rightarrow> action list" where
  "ref_action ref st = (case st of
     OnlyGitHub g \<Rightarrow> [\<lparr>act_Ref = ref, act_SHA = g, act_From = GitHub, act_To = Forgejo\<rparr>]
   | OnlyForgejo f \<Rightarrow> [\<lparr>act_Ref = ref, act_SHA = f, act_From = Forgejo, act_To = GitHub\<rparr>]
   | ForgejoAhead g f \<Rightarrow> [\<lparr>act_Ref = ref, act_SHA = f, act_From = Forgejo, act_To = GitHub\<rparr>]
   | GitHubAhead g f \<Rightarrow> [\<lparr>act_Ref = ref, act_SHA = g, act_From = GitHub, act_To = Forgejo\<rparr>]
   | _ \<Rightarrow> [])"

definition ref_conflict :: "string \<Rightarrow> time \<Rightarrow> string \<Rightarrow> ref_state \<Rightarrow> conflict list" where
  "ref_conflict repository t ref st = (case st of
     Diverged g f \<Rightarrow> [\<lparr>k_ID = 0, k_Kind = ''git-ref-divergence'', k_Repository = repository,
         k_ObjectKey = ref, k_GitHubState = g, k_ForgejoState = f, k_LastKnownState = [],
         k_CreatedAt = t, k_ResolvedAt = None\<rparr>]
   | _ \<Rightarrow> [])"

text \<open>An ancestry check that answers without an error, and leaves the state as it is; a clock
  that reads \<open>t\<close>.\<close>

definition plan_actions :: "(string \<Rightarrow> string \<Rightarrow> bool) \<Rightarrow> refs \<Rightarrow> refs \<Rightarrow> action list" where
  "plan_actions anc G F = concat (map (\<lambda>ref. ref_action ref (ref_state anc G F ref)) (union_refs G F))"

definition plan_conflicts :: "string \<Rightarrow> time \<Rightarrow> (string \<Rightarrow> string \<Rightarrow> bool) \<Rightarrow> refs \<Rightarrow> refs \<Rightarrow> conflict list" where
  "plan_conflicts repository t anc G F =
     concat (map (\<lambda>ref. ref_conflict repository t ref (ref_state anc G F ref)) (union_refs G F))"

lemmas ref_defs = ref_state_def ref_action_def ref_conflict_def

lemma set_union_refs [simp]: "set (union_refs G F) = dom (map_of G) \<union> dom (map_of F)"
  by (auto simp: union_refs_def sort_Strings_def dom_map_of_conv_image_fst)

lemma union_swap: "union_refs G F = union_refs F G"
proof -
  have "sort (remdups (map fst G @ map fst F)) = sorted_list_of_set (set (map fst G @ map fst F))"
    "sort (remdups (map fst F @ map fst G)) = sorted_list_of_set (set (map fst F @ map fst G))"
    by (simp_all only: sorted_list_of_set_sort_remdups)
  then show ?thesis by (simp add: union_refs_def sort_Strings_def Un_commute)
qed

lemma distinct_union: "distinct (union_refs G F)"
  by (simp add: union_refs_def sort_Strings_def)

lemma sorted_union_refs: "sorted (union_refs G F)"
  by (simp add: union_refs_def sort_Strings_def)

lemma plan_ref_spec:
  "plan_ref (ret t) repository G F (\<lambda>a d. ret (anc a d)) ref acc =
     ret (fst acc @ ref_action ref (ref_state anc G F ref),
          snd acc @ ref_conflict repository t ref (ref_state anc G F ref))"
  by (simp add: plan_ref_def ref_defs wrapE_def ret_def bnd_def split: option.splits)

lemma foldE_plan:
  "foldE (plan_ref (ret t) repository G F (\<lambda>a d. ret (anc a d))) refs acc =
     ret (fst acc @ concat (map (\<lambda>ref. ref_action ref (ref_state anc G F ref)) refs),
          snd acc @ concat (map (\<lambda>ref. ref_conflict repository t ref (ref_state anc G F ref)) refs))"
  by (induction refs arbitrary: acc) (simp_all add: plan_ref_spec)

lemma Plan_spec:
  "repository \<noteq> [] \<Longrightarrow> Plan (ret t) repository G F (\<lambda>a d. ret (anc a d)) =
     ret (plan_actions anc G F, plan_conflicts repository t anc G F)"
  by (simp add: Plan_def foldE_plan plan_actions_def plan_conflicts_def)

lemma ref_action_Ref: "a \<in> set (ref_action ref st) \<Longrightarrow> act_Ref a = ref"
  by (auto simp: ref_action_def split: ref_state.splits)

lemma ref_conflict_Key: "k \<in> set (ref_conflict repository t ref st) \<Longrightarrow> k_ObjectKey k = ref"
  by (auto simp: ref_conflict_def split: ref_state.splits)

lemma absent_nothing:
  "ref \<notin> set (union_refs G F) \<Longrightarrow> ref_action ref (ref_state anc G F ref) = [] \<and> ref_conflict repository t ref (ref_state anc G F ref) = []"
  by (simp add: ref_defs domIff)

lemma action_state:
  "a \<in> set (plan_actions anc G F) \<longleftrightarrow> a \<in> set (ref_action (act_Ref a) (ref_state anc G F (act_Ref a)))"
proof
  assume "a \<in> set (plan_actions anc G F)"
  then obtain ref where "a \<in> set (ref_action ref (ref_state anc G F ref))" by (auto simp: plan_actions_def)
  moreover from this have "act_Ref a = ref" by (rule ref_action_Ref)
  ultimately show "a \<in> set (ref_action (act_Ref a) (ref_state anc G F (act_Ref a)))" by simp
next
  assume a: "a \<in> set (ref_action (act_Ref a) (ref_state anc G F (act_Ref a)))"
  then have "act_Ref a \<in> set (union_refs G F)" using absent_nothing by fastforce
  with a show "a \<in> set (plan_actions anc G F)" by (auto simp: plan_actions_def simp del: set_union_refs)
qed

lemma conflict_state:
  "k \<in> set (plan_conflicts repository t anc G F) \<longleftrightarrow>
     k \<in> set (ref_conflict repository t (k_ObjectKey k) (ref_state anc G F (k_ObjectKey k)))"
proof
  assume "k \<in> set (plan_conflicts repository t anc G F)"
  then obtain ref where "k \<in> set (ref_conflict repository t ref (ref_state anc G F ref))" by (auto simp: plan_conflicts_def)
  moreover from this have "k_ObjectKey k = ref" by (rule ref_conflict_Key)
  ultimately show "k \<in> set (ref_conflict repository t (k_ObjectKey k) (ref_state anc G F (k_ObjectKey k)))" by simp
next
  assume k: "k \<in> set (ref_conflict repository t (k_ObjectKey k) (ref_state anc G F (k_ObjectKey k)))"
  then have "k_ObjectKey k \<in> set (union_refs G F)" using absent_nothing by fastforce
  with k show "k \<in> set (plan_conflicts repository t anc G F)" by (auto simp: plan_conflicts_def simp del: set_union_refs)
qed

lemma plan_has:
  "(\<exists>a \<in> set (plan_actions anc G F). act_Ref a = ref) \<longleftrightarrow> ref_action ref (ref_state anc G F ref) \<noteq> []"
  "(\<exists>k \<in> set (plan_conflicts repository t anc G F). k_ObjectKey k = ref)
     \<longleftrightarrow> ref_conflict repository t ref (ref_state anc G F ref) \<noteq> []"
proof -
  have "a \<in> set (plan_actions anc G F) \<and> act_Ref a = ref \<longleftrightarrow> a \<in> set (ref_action ref (ref_state anc G F ref))" for a
    using action_state [of a anc G F] ref_action_Ref by blast
  then show "(\<exists>a \<in> set (plan_actions anc G F). act_Ref a = ref) \<longleftrightarrow> ref_action ref (ref_state anc G F ref) \<noteq> []"
    by (metis last_in_set list.set_cases list.distinct(1))
  have "k \<in> set (plan_conflicts repository t anc G F) \<and> k_ObjectKey k = ref
      \<longleftrightarrow> k \<in> set (ref_conflict repository t ref (ref_state anc G F ref))" for k
    using conflict_state [of k repository t anc G F] ref_conflict_Key by blast
  then show "(\<exists>k \<in> set (plan_conflicts repository t anc G F). k_ObjectKey k = ref)
     \<longleftrightarrow> ref_conflict repository t ref (ref_state anc G F ref) \<noteq> []"
    by (metis last_in_set list.set_cases list.distinct(1))
qed

section \<open>Carrying out a plan\<close>

text \<open>A push of an action updates one ref of the target.\<close>

definition apply_action :: "action \<Rightarrow> refs \<times> refs \<Rightarrow> refs \<times> refs" where
  "apply_action a GF = (case act_To a of
     GitHub \<Rightarrow> ((act_Ref a, act_SHA a) # fst GF, snd GF)
   | Forgejo \<Rightarrow> (fst GF, (act_Ref a, act_SHA a) # snd GF))"

lemma apply_actions_to:
  "map_of (fst (fold apply_action as GF)) ref =
     (case List.find (\<lambda>a. act_Ref a = ref \<and> act_To a = GitHub) (rev as) of
        Some a \<Rightarrow> Some (act_SHA a) | None \<Rightarrow> map_of (fst GF) ref)"
  "map_of (snd (fold apply_action as GF)) ref =
     (case List.find (\<lambda>a. act_Ref a = ref \<and> act_To a = Forgejo) (rev as) of
        Some a \<Rightarrow> Some (act_SHA a) | None \<Rightarrow> map_of (snd GF) ref)"
proof -
  have app: "List.find P (ys @ [a]) = (case List.find P ys of None \<Rightarrow> if P a then Some a else None | r \<Rightarrow> r)"
    for P ys and a :: action
    by (induction ys) auto
  show "map_of (fst (fold apply_action as GF)) ref =
     (case List.find (\<lambda>a. act_Ref a = ref \<and> act_To a = GitHub) (rev as) of
        Some a \<Rightarrow> Some (act_SHA a) | None \<Rightarrow> map_of (fst GF) ref)"
    by (induction as arbitrary: GF)
      (auto simp: app apply_action_def split: option.splits forge.splits)
  show "map_of (snd (fold apply_action as GF)) ref =
     (case List.find (\<lambda>a. act_Ref a = ref \<and> act_To a = Forgejo) (rev as) of
        Some a \<Rightarrow> Some (act_SHA a) | None \<Rightarrow> map_of (snd GF) ref)"
    by (induction as arbitrary: GF)
      (auto simp: app apply_action_def split: option.splits forge.splits)
qed

lemma find_action:
  "List.find (\<lambda>a. act_Ref a = ref \<and> act_To a = w) (rev (plan_actions anc G F)) =
     List.find (\<lambda>a. act_To a = w) (ref_action ref (ref_state anc G F ref))"
proof (cases "List.find (\<lambda>a. act_Ref a = ref \<and> act_To a = w) (rev (plan_actions anc G F))")
  case None
  then have no: "\<not> (\<exists>a \<in> set (plan_actions anc G F). act_Ref a = ref \<and> act_To a = w)"
    by (auto simp: find_None_iff)
  have "\<not> (\<exists>a \<in> set (ref_action ref (ref_state anc G F ref)). act_To a = w)"
  proof
    assume "\<exists>a \<in> set (ref_action ref (ref_state anc G F ref)). act_To a = w"
    then obtain a where "a \<in> set (ref_action ref (ref_state anc G F ref))" "act_To a = w" by blast
    moreover from this have "act_Ref a = ref" by (auto dest: ref_action_Ref)
    ultimately show False using no action_state by blast
  qed
  then have "List.find (\<lambda>a. act_To a = w) (ref_action ref (ref_state anc G F ref)) = None"
    by (auto simp: find_None_iff)
  with None show ?thesis by simp
next
  case (Some a)
  then have "a \<in> set (rev (plan_actions anc G F))" "act_Ref a = ref" "act_To a = w"
    by (auto simp: find_Some_iff simp del: set_rev dest: nth_mem)
  then have "a \<in> set (ref_action ref (ref_state anc G F ref))" "act_To a = w"
    using action_state by auto
  then have "List.find (\<lambda>a. act_To a = w) (ref_action ref (ref_state anc G F ref)) = Some a"
    by (auto simp: ref_action_def split: ref_state.splits)
  with Some show ?thesis by simp
qed

text \<open>The state of every ref after the plan has been carried out.\<close>

definition settled :: "ref_state \<Rightarrow> ref_state" where
  "settled st = (case st of Absent \<Rightarrow> Absent | Diverged g f \<Rightarrow> Diverged g f | _ \<Rightarrow> Same)"

lemma settled_state:
  assumes "GF = fold apply_action (plan_actions anc G F) (G, F)"
  shows "ref_state anc (fst GF) (snd GF) ref = settled (ref_state anc G F ref)"
proof -
  have "map_of (fst GF) ref = (case List.find (\<lambda>a. act_To a = GitHub) (ref_action ref (ref_state anc G F ref)) of
      Some a \<Rightarrow> Some (act_SHA a) | None \<Rightarrow> map_of G ref)"
    "map_of (snd GF) ref = (case List.find (\<lambda>a. act_To a = Forgejo) (ref_action ref (ref_state anc G F ref)) of
      Some a \<Rightarrow> Some (act_SHA a) | None \<Rightarrow> map_of F ref)"
    unfolding assms apply_actions_to find_action fst_conv snd_conv by (rule HOL.refl)+
  then show ?thesis
    by (cases "map_of G ref"; cases "map_of F ref") (simp_all add: ref_action_def settled_def ref_state_def)
qed

text \<open>An action that creates a ref the target lacks, or moves the target's ref to a commit of
  which the target's commit was confirmed to be an ancestor.\<close>

definition fast_forward :: "(string \<Rightarrow> string \<Rightarrow> bool) \<Rightarrow> refs \<Rightarrow> refs \<Rightarrow> action \<Rightarrow> bool" where
  "fast_forward confirmed G F act \<longleftrightarrow>
     (let (source, target) = (if act_To act = Forgejo then (G, F) else (F, G))
      in act_From act \<noteq> act_To act \<and> map_of source (act_Ref act) = Some (act_SHA act)
         \<and> (case map_of target (act_Ref act) of None \<Rightarrow> True | Some old \<Rightarrow> confirmed old (act_SHA act)))"

lemma plan_ref_fast_forward:
  assumes "plan_ref clock repository G F isAncestor ref acc s = (Inr acc', t)"
    and conf: "\<And>a d u v. isAncestor a d u = (Inr True, v) \<Longrightarrow> confirmed a d"
  shows "fst acc' = fst acc \<or> (\<exists>a. fast_forward confirmed G F a \<and> fst acc' = fst acc @ [a])"
proof (cases "map_of G ref"; cases "map_of F ref")
  fix g f assume g: "map_of G ref = Some g" and f: "map_of F ref = Some f"
  let ?A = "\<lparr>act_Ref = ref, act_SHA = f, act_From = Forgejo, act_To = GitHub\<rparr>"
  let ?B = "\<lparr>act_Ref = ref, act_SHA = g, act_From = GitHub, act_To = Forgejo\<rparr>"
  have "fst acc' = fst acc \<or> (fst acc' = fst acc @ [?A] \<and> confirmed g f) \<or> (fst acc' = fst acc @ [?B] \<and> confirmed f g)"
    using assms(1) unfolding plan_ref_def g f
    by (auto simp: bnd_Inr wrapE_Inr ret_Inr dest: conf split: if_splits)
  moreover have "confirmed g f \<Longrightarrow> fast_forward confirmed G F ?A" "confirmed f g \<Longrightarrow> fast_forward confirmed G F ?B"
    by (simp_all add: fast_forward_def g f)
  ultimately show ?thesis by blast
qed (use assms(1) in \<open>auto simp: plan_ref_def ret_Inr fast_forward_def\<close>)

lemma Plan_fast_forwards:
  assumes "Plan clock repository G F isAncestor s = (Inr (actions, conflicts), t)"
    and "\<And>a d u v. isAncestor a d u = (Inr True, v) \<Longrightarrow> confirmed a d"
    and "act \<in> set actions"
  shows "fast_forward confirmed G F act"
proof -
  let ?ok = "fast_forward confirmed G F"
  have step: "fst acc' = fst acc \<or> (\<exists>a. ?ok a \<and> fst acc' = fst acc @ [a])"
    if "plan_ref clock repository G F isAncestor ref acc s = (Inr acc', t)" for ref acc acc' s t
    using that assms(2) by (rule plan_ref_fast_forward)
  have "\<forall>a \<in> set (fst acc'). ?ok a"
    if "foldE (plan_ref clock repository G F isAncestor) refs acc s = (Inr acc', t)"
      and "\<forall>a \<in> set (fst acc). ?ok a" for refs acc acc' s t
    using that
  proof (induction refs arbitrary: acc s)
    case Nil
    then show ?case by (simp add: ret_app)
  next
    case (Cons r rs)
    then obtain acc1 u where 1: "plan_ref clock repository G F isAncestor r acc s = (Inr acc1, u)"
      and 2: "foldE (plan_ref clock repository G F isAncestor) rs acc1 u = (Inr acc', t)"
      by (auto simp: bnd_Inr)
    from step [OF 1] Cons.prems(2) have "\<forall>a \<in> set (fst acc1). ?ok a" by auto
    with Cons.IH [OF 2] show ?case by blast
  qed
  from this [of "union_refs G F" "([], [])" s "(actions, conflicts)" t] assms(1,3) show ?thesis
    by (auto simp: Plan_def throw_app split: if_splits)
qed

section \<open>Properties\<close>

text \<open>C14: the plan is exactly the classification: when the ancestry checks answer, the actions and
  the conflicts are those of the states of the single refs, in the order of the ref names, and
  every ref that differs between the forges is in exactly one of the two lists.\<close>

theorem Plan_classifies:
  assumes "repository \<noteq> []"
  shows "Plan (ret t) repository G F (\<lambda>a d. ret (anc a d)) s =
      (Inr (concat (map (\<lambda>ref. ref_action ref (ref_state anc G F ref)) (union_refs G F)),
            concat (map (\<lambda>ref. ref_conflict repository t ref (ref_state anc G F ref)) (union_refs G F))), s)
    \<and> (\<forall>ref. map_of G ref \<noteq> map_of F ref \<longleftrightarrow>
        (\<exists>a \<in> set (plan_actions anc G F). act_Ref a = ref)
        \<noteq> (\<exists>k \<in> set (plan_conflicts repository t anc G F). k_ObjectKey k = ref))"
proof
  show "Plan (ret t) repository G F (\<lambda>a d. ret (anc a d)) s =
      (Inr (concat (map (\<lambda>ref. ref_action ref (ref_state anc G F ref)) (union_refs G F)),
            concat (map (\<lambda>ref. ref_conflict repository t ref (ref_state anc G F ref)) (union_refs G F))), s)"
    by (simp add: Plan_spec [OF assms] plan_actions_def plan_conflicts_def ret_app)
  show "\<forall>ref. map_of G ref \<noteq> map_of F ref \<longleftrightarrow>
        (\<exists>a \<in> set (plan_actions anc G F). act_Ref a = ref)
        \<noteq> (\<exists>k \<in> set (plan_conflicts repository t anc G F). k_ObjectKey k = ref)"
  proof
    fix ref
    show "map_of G ref \<noteq> map_of F ref \<longleftrightarrow>
        (\<exists>a \<in> set (plan_actions anc G F). act_Ref a = ref)
        \<noteq> (\<exists>k \<in> set (plan_conflicts repository t anc G F). k_ObjectKey k = ref)"
      unfolding plan_has by (auto simp: ref_defs split: option.splits)
  qed
qed

text \<open>C13: history is never overwritten and no ref is deleted: whatever the ancestry check does, an
  action of the plan either creates a ref that the target does not have, with the commit the
  source has, or moves it to the source's commit after the check has confirmed that the
  target's commit is an ancestor of it. Here the check logs the pairs it confirms.\<close>

theorem Plan_only_fast_forwards:
  assumes "Plan clock repository G F isAncestor s = (Inr (actions, conflicts), t)"
    and "\<And>a d u v. isAncestor a d u = (Inr True, v) \<Longrightarrow> confirmed a d"
    and "act \<in> set actions"
  shows "fast_forward confirmed G F act"
  by (rule Plan_fast_forwards [OF assms])

definition swap_forge :: "forge \<Rightarrow> forge" where
  "swap_forge w = (case w of GitHub \<Rightarrow> Forgejo | Forgejo \<Rightarrow> GitHub)"

definition swap_action :: "action \<Rightarrow> action" where
  "swap_action a = a\<lparr>act_From := swap_forge (act_From a), act_To := swap_forge (act_To a)\<rparr>"

definition swap_conflict :: "conflict \<Rightarrow> conflict" where
  "swap_conflict k = k\<lparr>k_GitHubState := k_ForgejoState k, k_ForgejoState := k_GitHubState k\<rparr>"

text \<open>neither forge is privileged: exchanging the two forges exchanges the direction of every
  action and the two sides of every conflict, and changes nothing else. (Two different commits
  are never ancestors of each other.)\<close>

theorem Plan_symmetric:
  assumes "repository \<noteq> []" and "\<And>a d. anc a d \<Longrightarrow> anc d a \<Longrightarrow> a = d"
  shows "Plan (ret t) repository F G (\<lambda>a d. ret (anc a d)) s =
    (case Plan (ret t) repository G F (\<lambda>a d. ret (anc a d)) s of
       (Inr (actions, conflicts), u) \<Rightarrow> (Inr (map swap_action actions, map swap_conflict conflicts), u)
     | (Inl e, u) \<Rightarrow> (Inl e, u))"
proof -
  have "ref_action ref (ref_state anc F G ref) = map swap_action (ref_action ref (ref_state anc G F ref))" for ref
    using assms(2) by (auto simp: ref_defs swap_action_def swap_forge_def split: option.splits)
  moreover have "ref_conflict repository t ref (ref_state anc F G ref)
      = map swap_conflict (ref_conflict repository t ref (ref_state anc G F ref))" for ref
    using assms(2) by (auto simp: ref_defs swap_conflict_def split: option.splits)
  ultimately show ?thesis
    by (simp add: Plan_spec [OF assms(1)] ret_app plan_actions_def plan_conflicts_def
        union_swap [of F G] map_concat comp_def)
qed

lemma union_refs_settled:
  assumes "\<And>ref. ref_state anc G' F' ref = settled (ref_state anc G F ref)"
  shows "union_refs G' F' = union_refs G F"
proof (rule sorted_distinct_set_unique)
  have present: "ref \<in> set (union_refs A B) \<longleftrightarrow> ref_state anc A B ref \<noteq> Absent" for ref A B
    by (auto simp: ref_state_def split: option.splits)
  show "set (union_refs G' F') = set (union_refs G F)"
  proof (rule set_eqI)
    fix ref
    show "ref \<in> set (union_refs G' F') \<longleftrightarrow> ref \<in> set (union_refs G F)"
      unfolding present assms by (cases "ref_state anc G F ref") (simp_all add: settled_def)
  qed
qed (simp_all only: sorted_union_refs distinct_union)

text \<open>A ref without a divergence is at the same commit on both sides once it is settled.\<close>

lemma agrees_unless_conflict:
  assumes st: "\<And>ref. ref_state anc G' F' ref = settled (ref_state anc G F ref)"
    and "ref \<notin> k_ObjectKey ` set (plan_conflicts repository t anc G F)"
  shows "map_of G' ref = map_of F' ref"
proof (cases "\<exists>g f. ref_state anc G F ref = Diverged g f")
  case True
  then obtain k where "k \<in> set (ref_conflict repository t ref (ref_state anc G F ref))" "k_ObjectKey k = ref"
    by (auto simp: ref_conflict_def)
  then have "ref \<in> k_ObjectKey ` set (plan_conflicts repository t anc G F)" using conflict_state by force
  with assms(2) show ?thesis by simp
next
  case False
  then have "ref_state anc G' F' ref \<in> {Absent, Same}"
    by (auto simp: st settled_def split: ref_state.splits)
  then show ?thesis by (auto simp: ref_state_def split: option.splits if_splits)
qed

text \<open>C15: convergence: once the actions of a plan have been carried out, planning again gives no
  action at all, and exactly the same divergences; a ref without a divergence is then at the
  same commit on both forges.\<close>

theorem Plan_converges:
  assumes "repository \<noteq> []"
    and "Plan (ret t) repository G F (\<lambda>a d. ret (anc a d)) s = (Inr (actions, conflicts), s)"
    and "(G', F') = fold apply_action actions (G, F)"
  shows "Plan (ret t) repository G' F' (\<lambda>a d. ret (anc a d)) s = (Inr ([], conflicts), s)
    \<and> (\<forall>ref. ref \<notin> k_ObjectKey ` set conflicts \<longrightarrow> map_of G' ref = map_of F' ref)"
proof -
  have acts: "actions = plan_actions anc G F" and cons: "conflicts = plan_conflicts repository t anc G F"
    using assms(2) by (simp_all add: Plan_spec [OF assms(1)] ret_app)
  have st: "ref_state anc G' F' ref = settled (ref_state anc G F ref)" for ref
    using settled_state [OF assms(3) [unfolded acts], of ref] by simp
  have u: "union_refs G' F' = union_refs G F" by (rule union_refs_settled [OF st])
  have "ref_action ref (ref_state anc G' F' ref) = []" for ref
    by (simp add: st settled_def ref_action_def split: ref_state.splits)
  moreover have "ref_conflict repository t ref (ref_state anc G' F' ref)
      = ref_conflict repository t ref (ref_state anc G F ref)" for ref
    by (simp add: st settled_def ref_conflict_def split: ref_state.splits)
  ultimately have "plan_actions anc G' F' = []"
    and "plan_conflicts repository t anc G' F' = plan_conflicts repository t anc G F"
    by (simp_all add: plan_actions_def plan_conflicts_def u)
  then have "Plan (ret t) repository G' F' (\<lambda>a d. ret (anc a d)) s = (Inr ([], conflicts), s)"
    using assms(1) by (simp add: Plan_spec cons ret_app)
  moreover have "map_of G' ref = map_of F' ref" if "ref \<notin> k_ObjectKey ` set conflicts" for ref
    using agrees_unless_conflict [OF st] that unfolding cons by blast
  ultimately show ?thesis by blast
qed

section \<open>Worked examples\<close>

text \<open>One ref ahead on Forgejo, one missing there, one diverged.\<close>

definition sample_github :: refs where
  "sample_github = [(''refs/heads/main'', ''1''), (''refs/tags/v1'', ''7''), (''refs/heads/dev'', ''a'')]"

definition sample_forgejo :: refs where
  "sample_forgejo = [(''refs/heads/dev'', ''b''), (''refs/heads/main'', ''2'')]"

definition sample_ancestry :: "string \<Rightarrow> string \<Rightarrow> bool" where
  "sample_ancestry a d \<longleftrightarrow> a = ''1'' \<and> d = ''2''"

theorem Plan_classifies_witness:
  "map act_Ref (plan_actions sample_ancestry sample_github sample_forgejo) = [''refs/heads/main'', ''refs/tags/v1'']
   \<and> fst (Plan (ret 0) ''a/b'' sample_github sample_forgejo (\<lambda>a d. ret (sample_ancestry a d)) ())
     = Inr (plan_actions sample_ancestry sample_github sample_forgejo,
            plan_conflicts ''a/b'' 0 sample_ancestry sample_github sample_forgejo)"
proof
  show "map act_Ref (plan_actions sample_ancestry sample_github sample_forgejo) = [''refs/heads/main'', ''refs/tags/v1'']"
    by code_simp
  show "fst (Plan (ret 0) ''a/b'' sample_github sample_forgejo (\<lambda>a d. ret (sample_ancestry a d)) ())
     = Inr (plan_actions sample_ancestry sample_github sample_forgejo,
            plan_conflicts ''a/b'' 0 sample_ancestry sample_github sample_forgejo)"
    using Plan_classifies [of "''a/b''" 0 sample_github sample_forgejo sample_ancestry "()"]
    by (simp add: plan_actions_def plan_conflicts_def)
qed

theorem Plan_only_fast_forwards_witness:
  "\<exists>act :: action. act_Ref act = ''refs/heads/main'' \<and> act_To act = GitHub \<and> act_SHA act = ''2''
     \<and> sample_ancestry ''1'' (act_SHA act)"
proof -
  let ?p = "Plan (ret 0) ''a/b'' sample_github sample_forgejo (\<lambda>a d. ret (sample_ancestry a d)) ()"
  let ?act = "\<lparr>act_Ref = ''refs/heads/main'', act_SHA = ''2'', act_From = Forgejo, act_To = GitHub\<rparr>"
  have p: "?p = (Inr (plan_actions sample_ancestry sample_github sample_forgejo,
            plan_conflicts ''a/b'' 0 sample_ancestry sample_github sample_forgejo), ())"
    by (simp add: Plan_spec ret_app)
  have "?act \<in> set (plan_actions sample_ancestry sample_github sample_forgejo)" by code_simp
  from Plan_only_fast_forwards [OF p, of sample_ancestry, OF _ this]
  have "sample_ancestry ''1'' ''2''" by (auto simp: ret_app sample_github_def fast_forward_def)
  then show ?thesis by (intro exI [of _ ?act]) simp
qed

lemma sample_antisym: "sample_ancestry a d \<Longrightarrow> sample_ancestry d a \<Longrightarrow> a = d"
  by (simp add: sample_ancestry_def)

theorem Plan_symmetric_witness:
  "fst (Plan (ret 0) ''a/b'' sample_forgejo sample_github (\<lambda>a d. ret (sample_ancestry a d)) ())
   = Inr (map swap_action (plan_actions sample_ancestry sample_github sample_forgejo),
          map swap_conflict (plan_conflicts ''a/b'' 0 sample_ancestry sample_github sample_forgejo))"
  using Plan_symmetric [of "''a/b''" sample_ancestry 0 sample_forgejo sample_github "()", OF _ sample_antisym]
  by (simp add: Plan_spec ret_app)

theorem Plan_converges_witness:
  "\<exists>G F c. (G, F) = fold apply_action (plan_actions sample_ancestry sample_github sample_forgejo) (sample_github, sample_forgejo)
     \<and> Plan (ret 0) ''a/b'' G F (\<lambda>a d. ret (sample_ancestry a d)) () = (Inr ([], c), ())
     \<and> map_of G ''refs/heads/main'' = map_of F ''refs/heads/main''"
proof -
  obtain G F where gf: "(G, F) = fold apply_action (plan_actions sample_ancestry sample_github sample_forgejo) (sample_github, sample_forgejo)"
    by (metis surj_pair)
  have p: "Plan (ret 0) ''a/b'' sample_github sample_forgejo (\<lambda>a d. ret (sample_ancestry a d)) ()
    = (Inr (plan_actions sample_ancestry sample_github sample_forgejo,
            plan_conflicts ''a/b'' 0 sample_ancestry sample_github sample_forgejo), ())"
    by (simp add: Plan_spec ret_app)
  have "''refs/heads/main'' \<notin> k_ObjectKey ` set (plan_conflicts ''a/b'' 0 sample_ancestry sample_github sample_forgejo)"
    by code_simp
  with Plan_converges [OF _ p gf] gf show ?thesis by fastforce
qed

end
