(* ===== verification/RefSync.thy ===== *)
theory RefSync
  imports RefPolicy Pairing
begin

text \<open>
  \<open>internal/gitrefs/sync.go\<close>: the synchronization of the refs of one repository. The git
  binary, the file system and the timers are the record \<open>host\<close>; everything the program
  itself does around them (the limited output buffer, the environment of a command, the
  reading of the ref listing, the retry of a fetch, the order of the steps) is written out.
\<close>

section \<open>The host\<close>

record remote =
  re_URL :: string
  re_Username :: string
  re_Token :: string

definition no_remote :: remote where
  "no_remote = \<lparr>re_URL = [], re_Username = [], re_Token = []\<rparr>"

datatype exit = Exited int | NotStarted

text \<open>\<open>h_git dir args env\<close> runs git and returns the chunks it writes and how it ended;
  \<open>h_ctx\<close> is \<open>ctx.Err()\<close>, \<open>h_timer\<close> waits for a timer or the context.\<close>

record 'w host =
  h_mkdtemp :: "('w, string) call"
  h_chmod :: "string \<Rightarrow> ('w, unit) call"
  h_removeall :: "string \<Rightarrow> 'w \<Rightarrow> 'w"
  h_write :: "string \<Rightarrow> string \<Rightarrow> ('w, unit) call"
  h_git :: "string \<Rightarrow> string list \<Rightarrow> (string \<times> string) list \<Rightarrow> 'w \<Rightarrow> (string list \<times> exit) \<times> 'w"
  h_ctx :: "'w \<Rightarrow> go_error option"
  h_timer :: "duration \<Rightarrow> ('w, unit) call"
  h_parse :: "string \<Rightarrow> parsed_url option"

section \<open>The limited buffer\<close>

definition maxGitOutput :: nat where "maxGitOutput = 2 ^ 20"

record limitedBuffer =
  lb_buffer :: string
  lb_truncated :: bool

definition lb_Write :: "string \<Rightarrow> limitedBuffer \<Rightarrow> limitedBuffer" where
  "lb_Write value w =
     (if length (lb_buffer w) < maxGitOutput
      then let remaining = maxGitOutput - length (lb_buffer w)
           in if length value > remaining
              then \<lparr>lb_buffer = lb_buffer w @ take remaining value, lb_truncated = True\<rparr>
              else w\<lparr>lb_buffer := lb_buffer w @ value\<rparr>
      else w\<lparr>lb_truncated := True\<rparr>)"

definition truncation_marker :: string where
  "truncation_marker = newline # ''[output truncated]''"

definition lb_String :: "limitedBuffer \<Rightarrow> string" where
  "lb_String w = (if lb_truncated w then lb_buffer w @ truncation_marker else lb_buffer w)"

definition collect :: "string list \<Rightarrow> limitedBuffer" where
  "collect chunks = fold lb_Write chunks \<lparr>lb_buffer = [], lb_truncated = False\<rparr>"

section \<open>Running git\<close>

text \<open>\<open>filepath.Dir\<close> and \<open>filepath.Join\<close> on clean paths.\<close>

definition path_Dir :: "string \<Rightarrow> string" where
  "path_Dir p = (let r = dropWhile (\<lambda>c. c \<noteq> slash) (rev p)
     in if r = [] then ''.'' else if tl r = [] then ''/'' else rev (tl r))"

definition path_Join :: "string \<Rightarrow> string \<Rightarrow> string" where
  "path_Join a b = a @ [slash] @ b"

definition askpass_body :: string where
  "askpass_body = ''#!/bin/sh'' @ newline # ''case '' @ [quote] @ ''$1'' @ [quote] @ '' in'' @ newline #
     ''  *Username*) printf '' @ [CHR 0x27] @ ''%s'' @ [backslash] @ ''n'' @ [CHR 0x27] @ '' '' @ [quote]
     @ ''$FORGE_SYNC_GIT_USERNAME'' @ [quote] @ '' ;;'' @ newline #
     ''  *) printf '' @ [CHR 0x27] @ ''%s'' @ [backslash] @ ''n'' @ [CHR 0x27] @ '' '' @ [quote]
     @ ''$FORGE_SYNC_GIT_TOKEN'' @ [quote] @ '' ;;'' @ newline # ''esac'' @ [newline]"

definition base_env :: "(string \<times> string) list" where
  "base_env = [(''GIT_CONFIG_NOSYSTEM'', ''1''), (''GIT_TERMINAL_PROMPT'', ''0'')]"

definition credentials_env :: "string \<Rightarrow> remote \<Rightarrow> (string \<times> string) list" where
  "credentials_env directory r =
     [(''GIT_ASKPASS'', path_Join (path_Dir directory) ''askpass.sh''),
      (''FORGE_SYNC_GIT_USERNAME'', if re_Username r = [] then ''oauth2'' else re_Username r),
      (''FORGE_SYNC_GIT_TOKEN'', re_Token r)]"

definition git_command ::
  "'w host \<Rightarrow> string \<Rightarrow> string list \<Rightarrow> (string \<times> string) list \<Rightarrow> ('w, string) call" where
  "git_command H directory args envs w =
     (case h_git H directory args envs w of ((chunks, ex), w') \<Rightarrow>
        let output = lb_String (collect chunks)
        in case h_ctx H w' of
             Some e \<Rightarrow> (Inl e, w')
           | None \<Rightarrow> (case ex of
                 Exited code \<Rightarrow> (if code = 0 then Inr output else Inl (CommandError code (TrimSpace output)), w')
               | NotStarted \<Rightarrow> (Inl (CommandError (- 1) (TrimSpace output)), w')))"

definition run_git :: "'w host \<Rightarrow> string \<Rightarrow> remote \<Rightarrow> string list \<Rightarrow> ('w, string) call" where
  "run_git H directory r args w =
     (if re_Token r \<noteq> []
      then (case h_write H (path_Join (path_Dir directory) ''askpass.sh'') askpass_body w of
              (Inl e, w') \<Rightarrow> (Inl e, w')
            | (Inr _, w') \<Rightarrow> git_command H directory args (base_env @ credentials_env directory r) w')
      else git_command H directory args base_env w)"

section \<open>Remotes and fetching\<close>

definition remote_validate :: "'w host \<Rightarrow> remote \<Rightarrow> go_error + unit" where
  "remote_validate H r =
     (if re_URL r = [] then Inl (Err ''URL is empty'')
      else case h_parse H (re_URL r) of
        None \<Rightarrow> Inl (Err ''URL is invalid'')
      | Some u \<Rightarrow>
          if u_User u then Inl (Err ''credentials must not be embedded in URL'')
          else if u_Scheme u = ''http'' \<or> u_Scheme u = ''https''
          then if u_Host u = [] then Inl (Err ''HTTP URL has no host'')
               else if re_Token r = [] then Inl (Err ''HTTP remote token is empty'')
               else Inr ()
          else Inr ())"

fun forge_name :: "forge \<Rightarrow> string" where
  "forge_name GitHub = ''github''"
| "forge_name Forgejo = ''forgejo''"

definition ref_prefix :: "forge \<Rightarrow> string" where
  "ref_prefix w = ''refs/forge-sync/'' @ forge_name w"

definition fetch_args :: "string \<Rightarrow> forge \<Rightarrow> string \<Rightarrow> string list" where
  "fetch_args gitDir w url = [''--git-dir'', gitDir, ''fetch'', ''--no-tags'', ''--prune'', url,
     ''+refs/heads/*:'' @ ref_prefix w @ ''/heads/*'', ''+refs/tags/*:'' @ ref_prefix w @ ''/tags/*'']"

definition fetch :: "'w host \<Rightarrow> string \<Rightarrow> forge \<Rightarrow> remote \<Rightarrow> ('w sys, unit) prog" where
  "fetch H gitDir w r = bnd (wrapE (''fetch '' @ forge_name w @ '' refs'')
     (ext (run_git H gitDir r (fetch_args gitDir w (re_URL r))))) (\<lambda>_. ret ())"

definition transient_markers :: "string list" where
  "transient_markers = [''error: 502'', ''error: 503'', ''error: 504'', ''error: 429'',
     ''Connection reset by peer'', ''connection refused'', ''timed out'', ''Could not resolve host'',
     ''Failed to connect'']"

definition transientGitFailure :: "go_error \<Rightarrow> bool" where
  "transientGitFailure e = list_ex (\<lambda>marker. Contains (Error e) marker) transient_markers"

text \<open>Attempt number \<open>attempt\<close>, with \<open>n\<close> attempts left after it.\<close>

fun fetch_loop :: "'w host \<Rightarrow> string \<Rightarrow> forge \<Rightarrow> remote \<Rightarrow> nat \<Rightarrow> nat \<Rightarrow> ('w sys, unit) prog" where
  "fetch_loop H gitDir w r n attempt =
     bnd (whenE (attempt > 0) (ext (h_timer H (int attempt * (5 * second))))) (\<lambda>_.
     tryE (fetch H gitDir w r) (\<lambda>res.
       case res of Inr _ \<Rightarrow> ret ()
       | Inl e \<Rightarrow> (case n of 0 \<Rightarrow> throw e
           | Suc m \<Rightarrow> if \<not> transientGitFailure e then throw e else fetch_loop H gitDir w r m (Suc attempt))))"

declare fetch_loop.simps [simp del]

definition fetchWithRetry :: "'w host \<Rightarrow> string \<Rightarrow> forge \<Rightarrow> remote \<Rightarrow> ('w sys, unit) prog" where
  "fetchWithRetry H gitDir w r = fetch_loop H gitDir w r 2 0"

section \<open>Reading the refs\<close>

text \<open>The lines that \<open>bufio.Scanner\<close> delivers: split at newlines, a carriage return at the end
  dropped, no empty line after a final newline; a line that does not fit into the scanner's
  64 KiB buffer stops it with an error.\<close>

definition scan_lines :: "string \<Rightarrow> string list" where
  "scan_lines s = (let ls = Split newline s in if last ls = [] then butlast ls else ls)"

definition drop_cr :: "string \<Rightarrow> string" where
  "drop_cr l = TrimSuffix l [CHR 0x0D]"

definition parse_ref_line :: "string \<Rightarrow> string \<Rightarrow> go_error + string \<times> string" where
  "parse_ref_line prefix line =
     (case Fields line of
        [full, sha] \<Rightarrow>
          if \<not> HasPrefix full prefix then Inl (Err (''invalid local ref line '' @ Quote line))
          else let name = TrimPrefix full prefix
               in if HasPrefix name ''heads/'' then Inr (''refs/heads/'' @ TrimPrefix name ''heads/'', sha)
                  else if HasPrefix name ''tags/'' then Inr (''refs/tags/'' @ TrimPrefix name ''tags/'', sha)
                  else Inl (Err (''unexpected local ref '' @ Quote full))
      | _ \<Rightarrow> Inl (Err (''invalid local ref line '' @ Quote line)))"

fun read_refs :: "string \<Rightarrow> string list \<Rightarrow> refs \<Rightarrow> go_error + refs" where
  "read_refs prefix [] acc = Inr acc"
| "read_refs prefix (l # ls) acc =
     (if length l \<ge> 65536 then Inl (Err ''bufio.Scanner: token too long'')
      else case parse_ref_line prefix (drop_cr l) of
          Inl e \<Rightarrow> Inl e
        | Inr entry \<Rightarrow> read_refs prefix ls (entry # acc))"

definition parse_refs :: "string \<Rightarrow> string \<Rightarrow> go_error + refs" where
  "parse_refs prefix output = read_refs prefix (scan_lines output) []"

definition for_each_ref_args :: "string \<Rightarrow> forge \<Rightarrow> string list" where
  "for_each_ref_args gitDir w = [''--git-dir'', gitDir, ''for-each-ref'',
     ''--format=%(refname) %(objectname)'', ref_prefix w @ ''/'']"

definition localRefs :: "'w host \<Rightarrow> string \<Rightarrow> forge \<Rightarrow> ('w sys, refs) prog" where
  "localRefs H gitDir w =
     bnd (ext (run_git H gitDir no_remote (for_each_ref_args gitDir w))) (\<lambda>output.
     of_sum (parse_refs (ref_prefix w @ ''/'') output))"

section \<open>The synchronization\<close>

record sync_result =
  sr_Actions :: "action list"
  sr_Conflicts :: "conflict list"

definition merge_base_args :: "string \<Rightarrow> string \<Rightarrow> string \<Rightarrow> string list" where
  "merge_base_args gitDir a d = [''--git-dir'', gitDir, ''merge-base'', ''--is-ancestor'', a, d]"

definition ancestry :: "'w host \<Rightarrow> string \<Rightarrow> string \<Rightarrow> string \<Rightarrow> ('w sys, bool) prog" where
  "ancestry H gitDir a d =
     tryE (ext (run_git H gitDir no_remote (merge_base_args gitDir a d))) (\<lambda>res.
       case res of Inr _ \<Rightarrow> ret True
       | Inl e \<Rightarrow> (case cause e of
           CommandError code out \<Rightarrow> if code = 1 then ret False else throw e
         | _ \<Rightarrow> throw e))"

definition push_args :: "string \<Rightarrow> string \<Rightarrow> action \<Rightarrow> string list" where
  "push_args gitDir url a =
     [''--git-dir'', gitDir, ''push'', ''--porcelain'', url, act_SHA a @ [colon] @ act_Ref a]"

definition push_action :: "'w host \<Rightarrow> string \<Rightarrow> remote \<Rightarrow> remote \<Rightarrow> action \<Rightarrow> ('w sys, unit) prog" where
  "push_action H gitDir github forgejo a =
     (let target = (if act_To a = GitHub then github else forgejo)
      in bnd (wrapE (''push '' @ act_Ref a @ '' to '' @ forge_name (act_To a))
           (ext (run_git H gitDir target (push_args gitDir (re_URL target) a)))) (\<lambda>_. ret ()))"

text \<open>The part of \<open>Sync\<close> that works in the temporary directory.\<close>

definition sync_workspace ::
  "'w env \<Rightarrow> 'w host \<Rightarrow> string \<Rightarrow> remote \<Rightarrow> remote \<Rightarrow> bool \<Rightarrow> string \<Rightarrow> ('w sys, sync_result) prog" where
  "sync_workspace E H repository github forgejo dryRun workspace =
     (let gitDir = path_Join workspace ''repository.git''
      in bnd (ext (h_chmod H workspace)) (\<lambda>_.
         bnd (wrapE ''initialize temporary repository''
           (ext (run_git H workspace no_remote [''init'', ''--bare'', gitDir]))) (\<lambda>_.
         bnd (fetchWithRetry H gitDir GitHub github) (\<lambda>_.
         bnd (fetchWithRetry H gitDir Forgejo forgejo) (\<lambda>_.
         bnd (localRefs H gitDir GitHub) (\<lambda>githubRefs.
         bnd (localRefs H gitDir Forgejo) (\<lambda>forgejoRefs.
         bnd (Plan (now E) repository githubRefs forgejoRefs (ancestry H gitDir)) (\<lambda>(actions, conflicts).
         bnd (whenE (\<not> dryRun) (bnd (forE (AddConflict E) conflicts) (\<lambda>_.
                forE (push_action H gitDir github forgejo) actions))) (\<lambda>_.
         ret \<lparr>sr_Actions = actions, sr_Conflicts = conflicts\<rparr>)))))))))"

definition Sync ::
  "'w env \<Rightarrow> 'w host \<Rightarrow> string \<Rightarrow> remote \<Rightarrow> remote \<Rightarrow> bool \<Rightarrow> ('w sys, sync_result) prog" where
  "Sync E H repository github forgejo dryRun =
     bnd (wrapE ''GitHub remote'' (of_sum (remote_validate H github))) (\<lambda>_.
     bnd (wrapE ''Forgejo remote'' (of_sum (remote_validate H forgejo))) (\<lambda>_.
     bnd (ext (h_mkdtemp H)) (\<lambda>workspace.
     deferE (\<lambda>s. s\<lparr>world := h_removeall H workspace (world s)\<rparr>)
       (sync_workspace E H repository github forgejo dryRun workspace))))"

section \<open>Frame lemmas\<close>

context store_guarantee
begin

lemma fetch_loop_guar: "guar (on_db P) (fetch_loop H gitDir w r n attempt)"
proof (induction n arbitrary: attempt)
  case 0
  show ?case by (subst fetch_loop.simps) (auto simp: fetch_def intro!: guar_intros guar_splits)
next
  case (Suc n)
  show ?case
    by (subst fetch_loop.simps) (auto simp: fetch_def intro!: guar_intros guar_splits Suc.IH)
qed

lemma ancestry_guar: "guar (on_db P) (ancestry H gitDir a d)"
  unfolding ancestry_def by (intro guar_intros guar_splits) (auto intro: guar_intros split: go_error.split)

lemma Plan_guar: "guar (on_db P) (Plan (now E) repository G F (ancestry H gitDir))"
  unfolding Plan_def plan_ref_def by (intro guar_intros guar_splits ancestry_guar)

lemma push_guar: "guar (on_db P) (push_action H gitDir g f a)"
  unfolding push_action_def by (intro guar_intros guar_splits)

lemma localRefs_guar: "guar (on_db P) (localRefs H gitDir w)"
  unfolding localRefs_def by (intro guar_intros)

end

lemma Sync_honest [guar_intros]: "guar (on_db honest) (Sync E H repository g f dry)"
  unfolding Sync_def sync_workspace_def fetchWithRetry_def Let_def
  by (intro guar_intros guar_splits honest.deferE_guar honest.fetch_loop_guar honest.Plan_guar
      honest.push_guar honest.localRefs_guar)
    (simp add: on_db_def honest_refl)

lemma Sync_dry_unchanged [guar_intros]: "guar (on_db unchanged) (Sync E H repository g f True)"
  unfolding Sync_def sync_workspace_def fetchWithRetry_def Let_def
  by (intro guar_intros guar_splits unchanged.deferE_guar unchanged.fetch_loop_guar unchanged.Plan_guar
      unchanged.push_guar unchanged.localRefs_guar)
    (simp_all add: on_db_def unchanged_def)

section \<open>The listing of the refs\<close>

definition render_ref :: "string \<Rightarrow> string \<times> string \<Rightarrow> string" where
  "render_ref prefix r = prefix @ drop (length ''refs/'') (fst r) @ CHR '' '' # snd r @ [newline]"

definition ref_name_ok :: "string \<Rightarrow> bool" where
  "ref_name_ok name \<longleftrightarrow> HasPrefix name ''refs/heads/'' \<or> HasPrefix name ''refs/tags/''"

definition unspaced :: "string \<Rightarrow> bool" where
  "unspaced s \<longleftrightarrow> (\<forall>c \<in> set s. \<not> is_space c)"

definition listable :: "string \<Rightarrow> string \<times> string \<Rightarrow> bool" where
  "listable prefix r \<longleftrightarrow> ref_name_ok (fst r) \<and> unspaced (fst r) \<and> unspaced (snd r) \<and> snd r \<noteq> []
     \<and> length (render_ref prefix r) \<le> 65536"

lemma unspaced_newline: "unspaced s \<Longrightarrow> newline \<notin> set s"
  by (auto simp: unspaced_def is_space_def)

lemma scan_lines_concat:
  "(\<And>l. l \<in> set ls \<Longrightarrow> newline \<notin> set l) \<Longrightarrow> scan_lines (concat (map (\<lambda>l. l @ [newline]) ls)) = ls"
proof -
  assume ls: "\<And>l. l \<in> set ls \<Longrightarrow> newline \<notin> set l"
  then have "Split newline (concat (map (\<lambda>l. l @ [newline]) ls)) = ls @ [[]]"
    by (induction ls) (simp_all add: Split_append)
  then show ?thesis by (simp add: scan_lines_def)
qed

lemma drop_cr_unspaced: "unspaced b \<Longrightarrow> b \<noteq> [] \<Longrightarrow> drop_cr (a @ b) = a @ b"
  by (cases b rule: rev_cases)
    (auto simp: drop_cr_def TrimSuffix_def HasSuffix_def HasPrefix_def unspaced_def is_space_def)

lemma parse_render:
  assumes "unspaced prefix" and "prefix \<noteq> []" and "listable prefix r"
  shows "parse_ref_line prefix (drop_cr (prefix @ drop 5 (fst r) @ CHR '' '' # snd r)) = Inr r"
proof -
  obtain rest where rest: "fst r = ''refs/heads/'' @ rest \<or> fst r = ''refs/tags/'' @ rest"
    using assms(3) by (auto simp: listable_def ref_name_ok_def HasPrefix_iff)
  let ?a = "prefix @ drop 5 (fst r)"
  have "drop_cr ((?a @ [CHR '' '']) @ snd r) = (?a @ [CHR '' '']) @ snd r"
    by (rule drop_cr_unspaced) (use assms(3) in \<open>auto simp: listable_def\<close>)
  moreover have "Fields (?a @ CHR '' '' # snd r) = [?a, snd r]"
    by (rule Fields_two) (use assms in \<open>auto simp: listable_def unspaced_def dest: in_set_dropD\<close>)
  ultimately show ?thesis
    using rest by (auto simp: parse_ref_line_def Let_def HasPrefix_def TrimPrefix_def intro: prod_eqI)
qed

lemma read_refs_map:
  "(\<And>r. r \<in> set rs \<Longrightarrow> length (f r) < 65536 \<and> parse_ref_line prefix (drop_cr (f r)) = Inr r) \<Longrightarrow>
   read_refs prefix (map f rs) acc = Inr (rev rs @ acc)"
proof (induction rs arbitrary: acc)
  case (Cons r rs)
  from Cons.prems [of r] have "\<not> length (f r) \<ge> 65536" "parse_ref_line prefix (drop_cr (f r)) = Inr r" by simp_all
  moreover have "read_refs prefix (map f rs) (r # acc) = Inr (rev rs @ r # acc)"
    by (rule Cons.IH) (rule Cons.prems, simp)
  ultimately show ?case by simp
qed simp

lemma ref_prefix_ok: "unspaced (ref_prefix w @ ''/'')" "ref_prefix w @ ''/'' \<noteq> []"
  by (cases w; simp add: unspaced_def ref_prefix_def is_space_def)+

section \<open>Truncated output\<close>

lemma lb_Write_buffer:
  "length (lb_buffer b) \<le> maxGitOutput \<Longrightarrow>
     lb_buffer (lb_Write v b) = take maxGitOutput (lb_buffer b @ v)
   \<and> (lb_truncated b \<or> length (lb_buffer b @ v) > maxGitOutput \<longrightarrow> lb_truncated (lb_Write v b))"
  by (auto simp: lb_Write_def Let_def)

lemma fold_lb_Write:
  "length (lb_buffer b) \<le> maxGitOutput \<Longrightarrow>
     lb_buffer (fold lb_Write vs b) = take maxGitOutput (lb_buffer b @ concat vs)
   \<and> (lb_truncated b \<or> length (lb_buffer b @ concat vs) > maxGitOutput \<longrightarrow> lb_truncated (fold lb_Write vs b))"
proof (induction vs arbitrary: b)
  case (Cons v vs)
  note w = lb_Write_buffer [OF Cons.prems, of v]
  then have "length (lb_buffer (lb_Write v b)) \<le> maxGitOutput" by simp
  from Cons.IH [OF this] w show ?case
    by (auto simp: min_def split: if_splits)
qed simp

lemma collect_bounded:
  "lb_buffer (collect chunks) = take maxGitOutput (concat chunks)"
  "length (concat chunks) > maxGitOutput \<Longrightarrow> lb_truncated (collect chunks)"
  using fold_lb_Write [of "\<lparr>lb_buffer = [], lb_truncated = False\<rparr>" chunks] by (simp_all add: collect_def)

lemma read_refs_append:
  "read_refs prefix (ls @ ks) acc = (case read_refs prefix ls acc of Inl e \<Rightarrow> Inl e | Inr acc' \<Rightarrow> read_refs prefix ks acc')"
  by (induction ls arbitrary: acc) (auto split: sum.splits)

lemma Split_at: "\<exists>ls. ls \<noteq> [] \<and> Split c (s @ c # t) = ls @ Split c t"
proof (induction s)
  case (Cons x s)
  then obtain l ls where "Split c (s @ c # t) = (l # ls) @ Split c t" by (metis list.exhaust)
  then show ?case by (cases "x = c") (auto intro: exI [of _ "[] # l # ls"] exI [of _ "(x # l) # ls"])
qed (auto intro: exI [of _ "[[]]"])

lemma marker_rejected: "parse_ref_line (ref_prefix w @ ''/'') (drop_cr ''[output truncated]'') \<noteq> Inr r"
proof -
  have "parse_ref_line (ref_prefix GitHub @ ''/'') (drop_cr ''[output truncated]'')
      = Inl (Err (''invalid local ref line '' @ Quote ''[output truncated]''))"
    "parse_ref_line (ref_prefix Forgejo @ ''/'') (drop_cr ''[output truncated]'')
      = Inl (Err (''invalid local ref line '' @ Quote ''[output truncated]''))"
    by code_simp+
  then show ?thesis by (cases w) simp_all
qed

lemma marked_rejected: "\<exists>e. parse_refs (ref_prefix w @ ''/'') (s @ truncation_marker) = Inl e"
proof -
  obtain ls where "Split newline (s @ newline # ''[output truncated]'') = ls @ Split newline ''[output truncated]''"
    using Split_at [of newline s "''[output truncated]''"] by blast
  moreover have "Split newline ''[output truncated]'' = [''[output truncated]'']" by code_simp
  ultimately have "scan_lines (s @ truncation_marker) = ls @ [''[output truncated]'']"
    by (simp add: scan_lines_def truncation_marker_def)
  then show ?thesis
    using marker_rejected [of w]
    by (auto simp: parse_refs_def read_refs_append split: sum.splits)
qed

section \<open>The commands\<close>

text \<open>The reading git commands of a synchronization: they initialize the temporary repository, fetch
  into it, list its refs and ask for ancestry.\<close>

inductive reading :: "string list \<Rightarrow> bool" where
  "reading [''init'', ''--bare'', dir]"
| "reading (fetch_args dir w url)"
| "reading (for_each_ref_args dir w)"
| "reading (merge_base_args dir a d)"

text \<open>What \<open>git for-each-ref\<close> documents of \<open>%(objectname)\<close>: the refs that a listing names have object
  names, in hexadecimal digits.\<close>

definition object_name :: "string \<Rightarrow> bool" where
  "object_name sha \<longleftrightarrow> sha \<noteq> [] \<and> (\<forall>c \<in> set sha. c \<in> set ''0123456789abcdef'')"

definition lists_objects :: "'w host \<Rightarrow> bool" where
  "lists_objects H \<longleftrightarrow> (\<forall>wd dir w envs s chunks ex s' rs.
     h_git H wd (for_each_ref_args dir w) envs s = ((chunks, ex), s') \<longrightarrow>
     parse_refs (ref_prefix w @ ''/'') (lb_String (collect chunks)) = Inr rs \<longrightarrow> (\<forall>r \<in> set rs. object_name (snd r)))"

text \<open>The first half of \<open>Sync\<close>, which ends with the refs of both forges, and the second.\<close>

definition sync_listing :: "'w host \<Rightarrow> remote \<Rightarrow> remote \<Rightarrow> string \<Rightarrow> ('w sys, refs \<times> refs) prog" where
  "sync_listing H github forgejo workspace =
     (let gitDir = path_Join workspace ''repository.git''
      in bnd (ext (h_chmod H workspace)) (\<lambda>_.
         bnd (wrapE ''initialize temporary repository''
           (ext (run_git H workspace no_remote [''init'', ''--bare'', gitDir]))) (\<lambda>_.
         bnd (fetchWithRetry H gitDir GitHub github) (\<lambda>_.
         bnd (fetchWithRetry H gitDir Forgejo forgejo) (\<lambda>_.
         bnd (localRefs H gitDir GitHub) (\<lambda>githubRefs.
         bnd (localRefs H gitDir Forgejo) (\<lambda>forgejoRefs.
         ret (githubRefs, forgejoRefs))))))))"

definition sync_rest ::
  "'w env \<Rightarrow> 'w host \<Rightarrow> string \<Rightarrow> remote \<Rightarrow> remote \<Rightarrow> bool \<Rightarrow> string \<Rightarrow> refs \<Rightarrow> refs \<Rightarrow> ('w sys, sync_result) prog" where
  "sync_rest E H repository github forgejo dryRun gitDir githubRefs forgejoRefs =
     bnd (Plan (now E) repository githubRefs forgejoRefs (ancestry H gitDir)) (\<lambda>(actions, conflicts).
     bnd (whenE (\<not> dryRun) (bnd (forE (AddConflict E) conflicts) (\<lambda>_.
            forE (push_action H gitDir github forgejo) actions))) (\<lambda>_.
     ret \<lparr>sr_Actions = actions, sr_Conflicts = conflicts\<rparr>))"

lemma sync_workspace_halves:
  "sync_workspace E H repository github forgejo dry workspace = bnd (sync_listing H github forgejo workspace)
     (\<lambda>(G, F). sync_rest E H repository github forgejo dry (path_Join workspace ''repository.git'') G F)"
  by (simp add: sync_workspace_def sync_listing_def sync_rest_def Let_def bnd_assoc)

text \<open>The commands that a synchronization started in \<open>s\<close> may run: the reading ones, and pushes to one
  forge of a commit that this synchronization listed for the same branch or tag of the other.
  Such a push has no flag that forces it, and its refspec is an object name, a colon and the
  ref: no sign that forces, and no empty source, which would delete.\<close>

inductive harmless :: "'w host \<Rightarrow> remote \<Rightarrow> remote \<Rightarrow> 'w sys \<Rightarrow> string list \<Rightarrow> bool" for H github forgejo s where
  read: "reading args \<Longrightarrow> harmless H github forgejo s args"
| to_forgejo: "h_mkdtemp H (world s) = (Inr workspace, w) \<Longrightarrow>
     sync_listing H github forgejo workspace (s\<lparr>world := w\<rparr>) = (Inr (G, F), t) \<Longrightarrow>
     map_of G ref = Some sha \<Longrightarrow> object_name sha \<Longrightarrow> ref_name_ok ref \<Longrightarrow>
     harmless H github forgejo s [''--git-dir'', path_Join workspace ''repository.git'', ''push'', ''--porcelain'',
       re_URL forgejo, sha @ [colon] @ ref]"
| to_github: "h_mkdtemp H (world s) = (Inr workspace, w) \<Longrightarrow>
     sync_listing H github forgejo workspace (s\<lparr>world := w\<rparr>) = (Inr (G, F), t) \<Longrightarrow>
     map_of F ref = Some sha \<Longrightarrow> object_name sha \<Longrightarrow> ref_name_ok ref \<Longrightarrow>
     harmless H github forgejo s [''--git-dir'', path_Join workspace ''repository.git'', ''push'', ''--porcelain'',
       re_URL github, sha @ [colon] @ ref]"

lemma parse_ref_line_ok:
  assumes "parse_ref_line prefix l = Inr r"
  shows "ref_name_ok (fst r) \<and> snd r \<noteq> []"
proof -
  obtain full sha where f: "Fields l = [full, sha]"
    using assms by (auto simp: parse_ref_line_def split: list.splits)
  moreover have "sha \<noteq> []" using f Fields_not_Nil [of sha l] by simp
  ultimately show ?thesis
    using assms by (auto simp: parse_ref_line_def Let_def ref_name_ok_def HasPrefix_def split: if_splits)
qed

lemma read_refs_ok:
  "read_refs prefix ls acc = Inr rs \<Longrightarrow> \<forall>r \<in> set acc. ref_name_ok (fst r) \<and> snd r \<noteq> [] \<Longrightarrow>
   \<forall>r \<in> set rs. ref_name_ok (fst r) \<and> snd r \<noteq> []"
proof (induction ls arbitrary: acc)
  case (Cons l ls)
  obtain entry where e: "parse_ref_line prefix (drop_cr l) = Inr entry"
    and rest: "read_refs prefix ls (entry # acc) = Inr rs"
    using Cons.prems(1) by (simp split: if_splits sum.splits)
  show ?case by (rule Cons.IH [OF rest]) (use Cons.prems(2) parse_ref_line_ok [OF e] in simp)
qed simp

lemma localRefs_ok:
  assumes "lists_objects H" and "localRefs H gitDir w s = (Inr rs, t)"
  shows "\<forall>r \<in> set rs. ref_name_ok (fst r) \<and> object_name (snd r)"
proof -
  obtain out u where run: "run_git H gitDir no_remote (for_each_ref_args gitDir w) (world s) = (Inr out, u)"
    and out: "parse_refs (ref_prefix w @ ''/'') out = Inr rs"
    using assms(2) unfolding localRefs_def bnd_Inr of_sum_app by (auto simp: ext_app split: prod.splits)
  obtain chunks ex where "h_git H gitDir (for_each_ref_args gitDir w) base_env (world s) = ((chunks, ex), u)"
    and "out = lb_String (collect chunks)"
    using run by (auto simp: run_git_def git_command_def no_remote_def Let_def split: prod.splits option.splits exit.splits if_splits)
  with assms(1) out have "\<forall>r \<in> set rs. object_name (snd r)" unfolding lists_objects_def by blast
  moreover have "\<forall>r \<in> set rs. ref_name_ok (fst r) \<and> snd r \<noteq> []"
    using out unfolding parse_refs_def by (rule read_refs_ok) simp
  ultimately show ?thesis by simp
qed

lemma sync_listing_ok:
  assumes "lists_objects H" and "sync_listing H github forgejo workspace s = (Inr (G, F), t)"
  shows "\<forall>r \<in> set G \<union> set F. ref_name_ok (fst r) \<and> object_name (snd r)"
  using assms(2) localRefs_ok [OF assms(1)] by (fastforce simp: sync_listing_def Let_def bnd_Inr ret_Inr)

text \<open>The forge that an action pushes to.\<close>

abbreviation target_url :: "remote \<Rightarrow> remote \<Rightarrow> action \<Rightarrow> string" where
  "target_url github forgejo a \<equiv> re_URL (if act_To a = GitHub then github else forgejo)"

lemma push_harmless:
  assumes objects: "lists_objects H" and tmp: "h_mkdtemp H (world s) = (Inr workspace, w)"
    and listed: "sync_listing H github forgejo workspace (s\<lparr>world := w\<rparr>) = (Inr (G, F), t)"
    and a: "fast_forward (\<lambda>_ _. True) G F a"
  shows "harmless H github forgejo s (push_args (path_Join workspace ''repository.git'') (target_url github forgejo a) a)"
proof (cases "act_To a")
  case GitHub
  with a have "map_of F (act_Ref a) = Some (act_SHA a)" by (simp add: fast_forward_def)
  moreover from map_of_SomeD [OF this] have "ref_name_ok (act_Ref a) \<and> object_name (act_SHA a)"
    using bspec [OF sync_listing_ok [OF objects listed], of "(act_Ref a, act_SHA a)"] by simp
  ultimately show ?thesis using GitHub harmless.to_github [OF tmp listed] by (simp add: push_args_def)
next
  case Forgejo
  with a have "map_of G (act_Ref a) = Some (act_SHA a)" by (simp add: fast_forward_def)
  moreover from map_of_SomeD [OF this] have "ref_name_ok (act_Ref a) \<and> object_name (act_SHA a)"
    using bspec [OF sync_listing_ok [OF objects listed], of "(act_Ref a, act_SHA a)"] by simp
  ultimately show ?thesis using Forgejo harmless.to_forgejo [OF tmp listed] by (simp add: push_args_def)
qed

lemma run_git_cong:
  "(\<And>dir envs w. g dir args envs w = h_git H dir args envs w) \<Longrightarrow>
   run_git (H\<lparr>h_git := g\<rparr>) dir r args = run_git H dir r args"
  by (simp add: run_git_def git_command_def fun_eq_iff split: sum.split prod.split)

text \<open>Two hosts that differ only in how git treats commands outside a class.\<close>

definition agree_on :: "(string list \<Rightarrow> bool) \<Rightarrow> 'w host \<Rightarrow> 'w host \<Rightarrow> bool" where
  "agree_on P H H' \<longleftrightarrow> H' = H\<lparr>h_git := h_git H'\<rparr>
     \<and> (\<forall>dir args envs w. P args \<longrightarrow> h_git H' dir args envs w = h_git H dir args envs w)"

lemma agree_run: "agree_on P H H' \<Longrightarrow> P args \<Longrightarrow> run_git H' dir r args = run_git H dir r args"
  unfolding agree_on_def by (metis run_git_cong)

lemma agree_reading:
  assumes "agree_on P H H'" and "\<And>args. reading args \<Longrightarrow> P args"
  shows "fetch H' dir w r = fetch H dir w r" and "localRefs H' dir w = localRefs H dir w"
    and "ancestry H' dir = ancestry H dir"
  by (simp_all add: fetch_def localRefs_def ancestry_def fun_eq_iff agree_run [OF assms(1)] assms(2) reading.intros)

lemma agree_timer: "agree_on P H H' \<Longrightarrow> h_timer H' = h_timer H \<and> h_chmod H' = h_chmod H
    \<and> h_mkdtemp H' = h_mkdtemp H \<and> h_removeall H' = h_removeall H \<and> h_parse H' = h_parse H"
  unfolding agree_on_def by (metis host.select_convs host.surjective host.update_convs(5))

lemma agree_fetch:
  assumes "agree_on P H H'" and "\<And>args. reading args \<Longrightarrow> P args"
  shows "fetchWithRetry H' dir w r = fetchWithRetry H dir w r"
proof -
  have "fetch_loop H' dir w r n k = fetch_loop H dir w r n k" for n k
    by (induction n arbitrary: k; subst (1 2) fetch_loop.simps)
      (simp_all add: agree_reading [OF assms] agree_timer [OF assms(1)] cong: if_cong)
  then show ?thesis by (simp add: fetchWithRetry_def)
qed

lemma agree_listing:
  assumes "agree_on P H H'" and "\<And>args. reading args \<Longrightarrow> P args"
  shows "sync_listing H' github forgejo workspace = sync_listing H github forgejo workspace"
proof -
  have "run_git H' dir r [''init'', ''--bare'', d] = run_git H dir r [''init'', ''--bare'', d]" for dir r d
    by (rule agree_run [OF assms(1)]) (rule assms(2), rule reading.intros)
  then show ?thesis
    using agree_timer [OF assms(1)]
    by (simp add: sync_listing_def agree_fetch [OF assms] agree_reading [OF assms])
qed

lemma agree_rest:
  assumes agree: "agree_on P H H'" and reads: "\<And>args. reading args \<Longrightarrow> P args"
    and push: "\<And>a. \<not> dry \<Longrightarrow> fast_forward (\<lambda>_ _. True) G F a \<Longrightarrow> P (push_args gitDir (target_url github forgejo a) a)"
  shows "sync_rest E H' repository github forgejo dry gitDir G F = sync_rest E H repository github forgejo dry gitDir G F"
proof -
  have anc: "ancestry H' gitDir = ancestry H gitDir" by (rule agree_reading(3) [OF agree reads])
  show ?thesis
    unfolding sync_rest_def anc
  proof (rule bnd_cong [OF HOL.refl])
    fix s x t assume "Plan (now E) repository G F (ancestry H gitDir) s = (Inr x, t)"
    then have "fast_forward (\<lambda>_ _. True) G F a" if "a \<in> set (fst x)" for a
      using Plan_fast_forwards [of "now E" repository G F _ s "fst x" "snd x" t "\<lambda>_ _. True" a] that by simp
    then have "forE (push_action H' gitDir github forgejo) (fst x) = forE (push_action H gitDir github forgejo) (fst x)" if "\<not> dry"
      using that push by (intro forE_cong) (simp add: push_action_def Let_def agree_run [OF agree])
    then show "(case x of (actions, conflicts) \<Rightarrow> bnd (whenE (\<not> dry) (bnd (forE (AddConflict E) conflicts) (\<lambda>_.
                  forE (push_action H' gitDir github forgejo) actions))) (\<lambda>_.
           ret \<lparr>sr_Actions = actions, sr_Conflicts = conflicts\<rparr>)) t
        = (case x of (actions, conflicts) \<Rightarrow> bnd (whenE (\<not> dry) (bnd (forE (AddConflict E) conflicts) (\<lambda>_.
                  forE (push_action H gitDir github forgejo) actions))) (\<lambda>_.
           ret \<lparr>sr_Actions = actions, sr_Conflicts = conflicts\<rparr>)) t"
      by (cases dry; cases x) simp_all
  qed
qed

lemma Sync_agree:
  assumes agree: "agree_on P H H'" and reads: "\<And>args. reading args \<Longrightarrow> P args"
    and push: "\<And>workspace w G F t a. \<not> dry \<Longrightarrow> h_mkdtemp H (world s) = (Inr workspace, w) \<Longrightarrow>
      sync_listing H github forgejo workspace (s\<lparr>world := w\<rparr>) = (Inr (G, F), t) \<Longrightarrow>
      fast_forward (\<lambda>_ _. True) G F a \<Longrightarrow>
      P (push_args (path_Join workspace ''repository.git'') (target_url github forgejo a) a)"
  shows "Sync E H' repository github forgejo dry s = Sync E H repository github forgejo dry s"
proof -
  have work: "sync_workspace E H' repository github forgejo dry workspace (s\<lparr>world := w\<rparr>)
      = sync_workspace E H repository github forgejo dry workspace (s\<lparr>world := w\<rparr>)"
    if tmp: "h_mkdtemp H (world s) = (Inr workspace, w)" for workspace w
  proof (cases "sync_listing H github forgejo workspace (s\<lparr>world := w\<rparr>)")
    case (Pair r t)
    show ?thesis
    proof (cases r)
      case (Inr GF)
      obtain G F where GF: "GF = (G, F)" by (cases GF)
      note listed = Pair [unfolded Inr GF]
      have "sync_rest E H' repository github forgejo dry (path_Join workspace ''repository.git'') G F
          = sync_rest E H repository github forgejo dry (path_Join workspace ''repository.git'') G F"
        by (rule agree_rest [OF agree reads]) (assumption, rule push [OF _ tmp listed])
      then show ?thesis by (simp add: sync_workspace_halves agree_listing [OF agree reads] bnd_app listed)
    qed (simp add: sync_workspace_halves agree_listing [OF agree reads] bnd_app Pair)
  qed
  then show ?thesis
    by (auto simp: Sync_def remote_validate_def agree_timer [OF agree] bnd_app wrapE_app ext_app deferE_app of_sum_app
        split: sum.split prod.split)
qed

section \<open>What a successful synchronization has recorded\<close>

lemma sync_workspace_records:
  assumes run: "sync_workspace E H repository github forgejo False workspace s = (Inr res, t)"
    and k: "k \<in> set (sr_Conflicts res)"
  shows "conflict_tuple k \<in> conflict_tuple ` set (t_conflicts (db t))"
proof -
  obtain actions conflicts u v where 1: "forE (AddConflict E) conflicts u = (Inr (), v)"
    and 2: "forE (push_action H (path_Join workspace ''repository.git'') github forgejo) actions v = (Inr (), t)"
    and res: "res = \<lparr>sr_Actions = actions, sr_Conflicts = conflicts\<rparr>"
    using run by (auto simp: sync_workspace_def Let_def bnd_Inr ret_Inr)
  have "\<forall>k \<in> set conflicts. conflict_tuple k \<in> conflict_tuple ` set (t_conflicts (db v))"
    by (rule forE_each [OF 1]) (auto intro: guar_intros dest: AddConflict_recorded
        simp: honest_def conflicts_appended_def)
  moreover have "honest (db v) (db t)"
    using guarD [OF honest.forE_guar [OF honest.push_guar] 2] by (simp add: on_db_def)
  ultimately show ?thesis using k res by (auto simp: honest_def conflicts_appended_def)
qed

section \<open>Properties\<close>

text \<open>C16: what git lists is what the planner sees: reading the listing of refs under
  \<open>refs/heads\<close> and \<open>refs/tags\<close> gives back exactly these refs with their commits (a later line
  would overwrite an earlier one, so the last is first).\<close>

theorem refs_listing_roundtrip:
  assumes "\<And>r. r \<in> set rs \<Longrightarrow> listable (ref_prefix w @ ''/'') r"
  shows "parse_refs (ref_prefix w @ ''/'') (concat (map (render_ref (ref_prefix w @ ''/'')) rs)) = Inr (rev rs)"
proof -
  let ?p = "ref_prefix w @ ''/''" and ?f = "\<lambda>r. (ref_prefix w @ ''/'') @ drop 5 (fst r) @ CHR '' '' # snd r"
  have "render_ref ?p r = ?f r @ [newline]" for r by (simp add: render_ref_def numeral_eq_Suc)
  then have render: "render_ref ?p = (\<lambda>r. ?f r @ [newline])" by (rule HOL.ext)
  have "newline \<notin> set (?f r)" if "r \<in> set rs" for r
  proof -
    have "newline \<notin> set ?p" by (rule unspaced_newline [OF ref_prefix_ok(1)])
    moreover have "newline \<notin> set (fst r)" "newline \<notin> set (snd r)"
      using assms [OF that] by (simp_all add: listable_def unspaced_newline)
    moreover have "set (drop 5 (fst r)) \<subseteq> set (fst r)" by (rule set_drop_subset)
    ultimately show ?thesis by auto
  qed
  then have "scan_lines (concat (map (\<lambda>l. l @ [newline]) (map ?f rs))) = map ?f rs"
    by (intro scan_lines_concat) auto
  then have "scan_lines (concat (map (render_ref ?p) rs)) = map ?f rs"
    by (simp add: render comp_def)
  moreover have "read_refs ?p (map ?f rs) [] = Inr (rev rs @ [])"
  proof (rule read_refs_map)
    fix r assume "r \<in> set rs"
    then have "listable ?p r" by (rule assms)
    then show "length (?f r) < 65536 \<and> parse_ref_line ?p (drop_cr (?f r)) = Inr r"
      using parse_render [OF ref_prefix_ok(1,2)] by (simp add: listable_def render)
  qed
  ultimately show ?thesis by (simp add: parse_refs_def)
qed

text \<open>C17: a listing that does not fit into the output limit is never acted on: if git writes more
  than \<open>maxGitOutput\<close> bytes, reading the refs is an error, whatever was cut off. (Acting on a
  truncated listing would take the missing refs for absent ones.)\<close>

theorem truncated_listing_is_error:
  assumes "h_git H gitDir (for_each_ref_args gitDir w) base_env (world s) = ((chunks, ex), u)"
    and "length (concat chunks) > maxGitOutput"
  shows "\<exists>e. fst (localRefs H gitDir w s) = Inl e"
proof -
  have "lb_String (collect chunks) = lb_buffer (collect chunks) @ truncation_marker"
    using collect_bounded(2) [OF assms(2)] by (simp add: lb_String_def)
  with marked_rejected [of w "lb_buffer (collect chunks)"] assms(1) show ?thesis
    by (auto simp: localRefs_def bnd_app ext_app run_git_def git_command_def no_remote_def Let_def
        of_sum_app split: option.split exit.split)
qed

text \<open>C11: a synchronization, successful or not, runs only harmless git commands. If git lists hexadecimal
  object names, as it documents, every command is one of the reading ones or a push, to the URL of
  one forge, of a commit that this run listed for the same branch or tag of the other forge; no
  push is forced, by a flag or by a sign in the refspec, and none deletes. Stated by exchanging
  git: any other git that treats the harmless commands of the run alike gives the same run.\<close>

theorem Sync_harmless:
  assumes "lists_objects H"
    and "\<And>dir args envs w. harmless H github forgejo s args \<Longrightarrow> g dir args envs w = h_git H dir args envs w"
  shows "Sync E (H\<lparr>h_git := g\<rparr>) repository github forgejo dryRun s = Sync E H repository github forgejo dryRun s"
proof (rule Sync_agree)
  show "agree_on (harmless H github forgejo s) H (H\<lparr>h_git := g\<rparr>)" using assms(2) by (simp add: agree_on_def)
qed (rule harmless.read, assumption, rule push_harmless [OF assms(1)])

text \<open>A dry run runs only the reading git commands.\<close>

lemma Sync_dry_reads:
  "agree_on reading H H' \<Longrightarrow> Sync E H' repository github forgejo True = Sync E H repository github forgejo True"
  by (rule HOL.ext) (rule Sync_agree [where P = reading]; simp)

text \<open>C12: after a synchronization that returns no error, every divergence it reports has its row in
  the conflict table, and no mapping, delivery or earlier conflict was lost.\<close>

theorem Sync_records_divergences:
  assumes "Sync E H repository github forgejo False s = (Inr result, t)"
  shows "honest (db s) (db t)
    \<and> (\<forall>k \<in> set (sr_Conflicts result). conflict_tuple k \<in> conflict_tuple ` set (t_conflicts (db t)))"
proof
  show "honest (db s) (db t)" using guarD [OF Sync_honest assms] by (simp add: on_db_def)
  obtain workspace u v where run: "sync_workspace E H repository github forgejo False workspace u = (Inr result, v)"
    and t: "db t = db v"
    using assms by (auto simp: Sync_def bnd_Inr deferE_Inr)
  with sync_workspace_records [OF run]
  show "\<forall>k \<in> set (sr_Conflicts result). conflict_tuple k \<in> conflict_tuple ` set (t_conflicts (db t))" by simp
qed

section \<open>Worked examples\<close>

text \<open>The two limits, compared as integers, so that the definitions evaluate quickly.\<close>

lemma lb_Write_code [code]:
  "lb_Write value w =
     (if int (length (lb_buffer w)) < 1048576
      then if int (length value) > 1048576 - int (length (lb_buffer w))
           then \<lparr>lb_buffer = lb_buffer w @ take (maxGitOutput - length (lb_buffer w)) value, lb_truncated = True\<rparr>
           else w\<lparr>lb_buffer := lb_buffer w @ value\<rparr>
      else w\<lparr>lb_truncated := True\<rparr>)"
  by (auto simp: lb_Write_def maxGitOutput_def Let_def)

lemma read_refs_code [code]:
  "read_refs prefix [] acc = Inr acc"
  "read_refs prefix (l # ls) acc =
     (if int (length l) \<ge> 65536 then Inl (Err ''bufio.Scanner: token too long'')
      else case parse_ref_line prefix (drop_cr l) of
          Inl e \<Rightarrow> Inl e
        | Inr entry \<Rightarrow> read_refs prefix ls (entry # acc))"
  by simp_all

text \<open>A host on which GitHub and Forgejo have different commits on \<open>main\<close>, and neither is an
  ancestor of the other; only GitHub has \<open>dev\<close>.\<close>

definition sample_git :: "string \<Rightarrow> string list \<Rightarrow> (string \<times> string) list \<Rightarrow> unit \<Rightarrow> (string list \<times> exit) \<times> unit" where
  "sample_git dir args envs w =
     (if args = for_each_ref_args ''/t/repository.git'' GitHub
      then (([''refs/forge-sync/github/heads/dev 7'' @ [newline] @ ''refs/forge-sync/github/heads/main 1'' @ [newline]],
             Exited 0), w)
      else if args = for_each_ref_args ''/t/repository.git'' Forgejo
      then (([''refs/forge-sync/forgejo/heads/main 2'' @ [newline]], Exited 0), w)
      else if take 1 (drop 2 args) = [''merge-base''] then (([], Exited 1), w)
      else (([], Exited 0), w))"

definition sample_host :: "unit host" where
  "sample_host = \<lparr>h_mkdtemp = \<lambda>w. (Inr ''/t'', w), h_chmod = \<lambda>_ w. (Inr (), w), h_removeall = \<lambda>_ w. w,
     h_write = \<lambda>_ _ w. (Inr (), w), h_git = sample_git, h_ctx = \<lambda>_. None, h_timer = \<lambda>_ w. (Inr (), w),
     h_parse = \<lambda>_. Some \<lparr>u_Scheme = ''https'', u_Host = ''h'', u_User = False\<rparr>\<rparr>"

definition sample_remote :: remote where
  "sample_remote = \<lparr>re_URL = ''https://h/a/b.git'', re_Username = [], re_Token = ''t''\<rparr>"

theorem refs_listing_roundtrip_witness:
  "parse_refs ''refs/forge-sync/github/'' (''refs/forge-sync/github/heads/dev 7'' @ [newline]
      @ ''refs/forge-sync/github/tags/v1 1'' @ [newline])
   = Inr [(''refs/tags/v1'', ''1''), (''refs/heads/dev'', ''7'')]"
proof -
  have "listable (ref_prefix GitHub @ ''/'') r" if "r \<in> set [(''refs/heads/dev'', ''7''), (''refs/tags/v1'', ''1'')]" for r
  proof -
    have "list_all (\<lambda>r. listable (ref_prefix GitHub @ ''/'') r) [(''refs/heads/dev'', ''7''), (''refs/tags/v1'', ''1'')]"
      by (simp add: listable_def ref_name_ok_def HasPrefix_def unspaced_def is_space_def render_ref_def ref_prefix_def)
    with that show ?thesis by (simp only: list_all_iff)
  qed
  from refs_listing_roundtrip [of "[(''refs/heads/dev'', ''7''), (''refs/tags/v1'', ''1'')]" GitHub, OF this]
  show ?thesis by (simp add: render_ref_def ref_prefix_def)
qed

theorem truncated_listing_is_error_witness:
  "\<exists>e. fst (localRefs (sample_host\<lparr>h_git := \<lambda>_ _ _ w. (([replicate (Suc maxGitOutput) CHR ''x''], Exited 0), w)\<rparr>)
      ''/t'' GitHub sample_sys) = Inl e"
  by (rule truncated_listing_is_error [of _ _ _ _ "[replicate (Suc maxGitOutput) CHR ''x'']" "Exited 0" "()"]) simp_all

lemma sample_lists_objects: "lists_objects sample_host"
proof -
  have out: "parse_refs ''refs/forge-sync/github/'' (lb_String (collect
        [''refs/forge-sync/github/heads/dev 7'' @ [newline] @ ''refs/forge-sync/github/heads/main 1'' @ [newline]]))
      = Inr [(''refs/heads/main'', ''1''), (''refs/heads/dev'', ''7'')]"
    "parse_refs ''refs/forge-sync/forgejo/'' (lb_String (collect [''refs/forge-sync/forgejo/heads/main 2'' @ [newline]]))
      = Inr [(''refs/heads/main'', ''2'')]" by code_simp+
  have empty: "parse_refs p (lb_String (collect [])) = Inr []" for p
    by (simp add: parse_refs_def scan_lines_def lb_String_def collect_def Let_def)
  have chunks: "h_git sample_host wd (for_each_ref_args dir w) envs s = ((chunks, ex), s') \<Longrightarrow>
      chunks = [] \<or> (w = GitHub \<and> chunks = [''refs/forge-sync/github/heads/dev 7'' @ [newline] @ ''refs/forge-sync/github/heads/main 1'' @ [newline]])
        \<or> (w = Forgejo \<and> chunks = [''refs/forge-sync/forgejo/heads/main 2'' @ [newline]])"
    for wd dir w envs s chunks ex s'
    by (cases w) (auto simp: sample_host_def sample_git_def for_each_ref_args_def ref_prefix_def split: if_splits)
  show ?thesis
    unfolding lists_objects_def
  proof (intro allI impI ballI)
    fix wd dir w envs s chunks ex s' rs r
    assume "h_git sample_host wd (for_each_ref_args dir w) envs s = ((chunks, ex), s')"
      and rs: "parse_refs (ref_prefix w @ ''/'') (lb_String (collect chunks)) = Inr rs" and r: "r \<in> set rs"
    with chunks consider "chunks = []" | "w = GitHub" "rs = [(''refs/heads/main'', ''1''), (''refs/heads/dev'', ''7'')]"
      | "w = Forgejo" "rs = [(''refs/heads/main'', ''2'')]"
      using out by (fastforce simp: ref_prefix_def)
    then show "object_name (snd r)"
      using rs r empty by cases (auto simp: object_name_def)
  qed
qed

theorem Sync_harmless_witness:
  "Sync unit_env (sample_host\<lparr>h_git := \<lambda>dir args envs w.
        if args = [''gc''] then (([], NotStarted), w) else sample_git dir args envs w\<rparr>)
      ''a/b'' sample_remote sample_remote False sample_sys
   = Sync unit_env sample_host ''a/b'' sample_remote sample_remote False sample_sys"
proof (rule Sync_harmless [OF sample_lists_objects])
  fix dir and args :: "string list" and envs and w :: unit
  assume "harmless sample_host sample_remote sample_remote sample_sys args"
  then have "args \<noteq> [''gc'']"
    by (auto elim!: harmless.cases reading.cases simp: fetch_args_def for_each_ref_args_def merge_base_args_def)
  then show "(if args = [''gc''] then (([], NotStarted), w) else sample_git dir args envs w)
      = h_git sample_host dir args envs w"
    by (simp add: sample_host_def)
qed

theorem Sync_records_divergences_witness:
  "(''git-ref-divergence'', ''a/b'', ''refs/heads/main'', ''1'', ''2'') \<in> conflict_tuple ` set (t_conflicts
     (db (snd (Sync unit_env sample_host ''a/b'' sample_remote sample_remote False sample_sys))))"
proof -
  let ?r = "Sync unit_env sample_host ''a/b'' sample_remote sample_remote False sample_sys"
  let ?k = "\<lparr>k_ID = 0, k_Kind = ''git-ref-divergence'', k_Repository = ''a/b'', k_ObjectKey = ''refs/heads/main'',
    k_GitHubState = ''1'', k_ForgejoState = ''2'', k_LastKnownState = [], k_CreatedAt = 0, k_ResolvedAt = None\<rparr>"
  let ?a = "\<lparr>act_Ref = ''refs/heads/dev'', act_SHA = ''7'', act_From = GitHub, act_To = Forgejo\<rparr>"
  have "fst ?r = Inr \<lparr>sr_Actions = [?a], sr_Conflicts = [?k]\<rparr>" by code_simp
  then have "?r = (Inr \<lparr>sr_Actions = [?a], sr_Conflicts = [?k]\<rparr>, snd ?r)" by (rule run_result)
  from Sync_records_divergences [OF this] show ?thesis by (simp add: conflict_tuple_def)
qed

end
