(* ===== verification/Comments.thy ===== *)
theory Comments
  imports Pairing
begin

text \<open>
  \<open>internal/comments/reconcile.go\<close>: the comment threads of the mapped issues and pull
  requests of a repository. \<open>reconcileThread\<close> is split into its phases; the two entry points
  are the loops over the mappings.
\<close>

section \<open>The forge interface and the pure helpers\<close>

record 'w comment_forge =
  ListComments :: "string \<Rightarrow> string \<Rightarrow> int \<Rightarrow> ('w, comment list) call"
  CreateComment :: "string \<Rightarrow> string \<Rightarrow> int \<Rightarrow> comment \<Rightarrow> ('w, comment) call"
  UpdateComment :: "string \<Rightarrow> string \<Rightarrow> int \<Rightarrow> comment \<Rightarrow> ('w, comment) call"

record 'w comment_reconciler =
  cr_github :: "'w comment_forge"
  cr_forgejo :: "'w comment_forge"

record thread =
  th_githubID :: int
  th_githubIndex :: int
  th_forgejoIndex :: int

definition zero_comment :: comment where
  "zero_comment = \<lparr>c_ID = 0, c_IssueID = 0, c_Body = [], c_UpdatedAt = time_zero\<rparr>"

definition comments_validate :: "comment list \<Rightarrow> go_error + unit" where
  "comments_validate cs = validate_unique
     (\<lambda>c. if c_ID c \<le> 0 then Inl (Err ''comment ID is invalid'') else Inr ()) c_ID ''comment'' {} cs"

definition commentByID :: "comment list \<Rightarrow> int \<Rightarrow> comment option" where
  "commentByID = index_by c_ID"

definition comments_unconsumed :: "comment list \<Rightarrow> int set \<Rightarrow> comment list" where
  "comments_unconsumed = unconsumed_by c_ID"

definition comments_uniquePairs :: "'w env \<Rightarrow> comment list \<Rightarrow> comment list \<Rightarrow> (int \<times> int) list" where
  "comments_uniquePairs E = unique_pairs (comment_Hash E) c_ID (\<lambda>_ _. True)"

definition comments_mappingFor :: "'w env \<Rightarrow> int \<Rightarrow> int \<Rightarrow> comment \<Rightarrow> comment \<Rightarrow> time \<Rightarrow> comment_mapping" where
  "comments_mappingFor E repositoryID issueGitHubID g f t =
     \<lparr>cm_RepositoryGitHubID = repositoryID, cm_IssueGitHubID = issueGitHubID, cm_GitHubID = c_ID g,
      cm_ForgejoID = c_ID f, cm_LastStateHash = comment_Hash E g, cm_UpdatedAt = t\<rparr>"

definition hashOrMissing :: "'w env \<Rightarrow> comment option \<Rightarrow> string" where
  "hashOrMissing E x = (case x of None \<Rightarrow> ''missing'' | Some c \<Rightarrow> comment_Hash E c)"

section \<open>The phases of a thread\<close>

definition comments_advance :: "'w env \<Rightarrow> comment_mapping \<Rightarrow> string \<Rightarrow> ('w sys, unit) prog" where
  "comments_advance E m h =
     bnd (now E) (\<lambda>t. UpsertCommentMapping E (m\<lparr>cm_LastStateHash := h, cm_UpdatedAt := t\<rparr>))"

definition comments_sync_pair ::
  "'w env \<Rightarrow> 'w comment_reconciler \<Rightarrow> repository_mapping \<Rightarrow> string \<Rightarrow> string \<Rightarrow> bool \<Rightarrow>
   comment_mapping \<Rightarrow> comment \<Rightarrow> comment \<Rightarrow> ('w sys, unit) prog" where
  "comments_sync_pair E R repo owner name dryRun m g f =
     (let gh = comment_Hash E g; fh = comment_Hash E f
      in case three_way gh fh (cm_LastStateHash m) of
        InSync \<Rightarrow> whenE (\<not> dryRun \<and> cm_LastStateHash m \<noteq> gh) (comments_advance E m gh)
      | CopyToForgejo \<Rightarrow> whenE (\<not> dryRun)
          (bnd (ext (UpdateComment (cr_forgejo R) (rm_ForgejoOwner repo) (rm_ForgejoName repo) (cm_ForgejoID m) g))
           (\<lambda>_. comments_advance E m gh))
      | CopyToGitHub \<Rightarrow> whenE (\<not> dryRun)
          (bnd (ext (UpdateComment (cr_github R) owner name (cm_GitHubID m) f))
           (\<lambda>_. comments_advance E m fh))
      | BothChanged \<Rightarrow> whenE (\<not> dryRun)
          (record_conflict E ''comment'' (rm_GitHubFullName repo)
             (object_key (cm_GitHubID m) (cm_ForgejoID m)) gh fh (cm_LastStateHash m)))"

definition comments_reconcile_mapping ::
  "'w env \<Rightarrow> 'w comment_reconciler \<Rightarrow> repository_mapping \<Rightarrow> string \<Rightarrow> string \<Rightarrow> bool \<Rightarrow>
   (int \<Rightarrow> comment option) \<Rightarrow> (int \<Rightarrow> comment option) \<Rightarrow>
   comment_mapping \<Rightarrow> int set \<times> int set \<Rightarrow> ('w sys, int set \<times> int set) prog" where
  "comments_reconcile_mapping E R repo owner name dryRun githubByID forgejoByID m consumed =
     (case (githubByID (cm_GitHubID m), forgejoByID (cm_ForgejoID m)) of
        (Some g, Some f) \<Rightarrow>
          bnd (comments_sync_pair E R repo owner name dryRun m g f)
            (\<lambda>_. ret (insert (c_ID g) (fst consumed), insert (c_ID f) (snd consumed)))
      | (x, y) \<Rightarrow>
          bnd (whenE (\<not> dryRun) (record_conflict E ''comment-missing'' (rm_GitHubFullName repo)
              (object_key (cm_GitHubID m) (cm_ForgejoID m))
              (hashOrMissing E x) (hashOrMissing E y) (cm_LastStateHash m)))
            (\<lambda>_. ret consumed))"

definition comments_map ::
  "'w env \<Rightarrow> repository_mapping \<Rightarrow> thread \<Rightarrow> comment \<Rightarrow> comment \<Rightarrow> ('w sys, unit) prog" where
  "comments_map E repo target g f = bnd (now E) (\<lambda>t.
     UpsertCommentMapping E (comments_mappingFor E (rm_GitHubID repo) (th_githubID target) g f t))"

definition comments_adopt_pair ::
  "'w env \<Rightarrow> repository_mapping \<Rightarrow> thread \<Rightarrow> bool \<Rightarrow> (int \<Rightarrow> comment option) \<Rightarrow> (int \<Rightarrow> comment option) \<Rightarrow>
   int \<times> int \<Rightarrow> int set \<times> int set \<Rightarrow> ('w sys, int set \<times> int set) prog" where
  "comments_adopt_pair E repo target dryRun githubByID forgejoByID p consumed =
     (let g = (case githubByID (fst p) of None \<Rightarrow> zero_comment | Some x \<Rightarrow> x);
          f = (case forgejoByID (snd p) of None \<Rightarrow> zero_comment | Some x \<Rightarrow> x)
      in bnd (whenE (\<not> dryRun) (comments_map E repo target g f))
           (\<lambda>_. ret (insert (fst p) (fst consumed), insert (snd p) (snd consumed))))"

definition comments_create_on_forgejo ::
  "'w env \<Rightarrow> 'w comment_reconciler \<Rightarrow> repository_mapping \<Rightarrow> thread \<Rightarrow> bool \<Rightarrow> comment \<Rightarrow> ('w sys, unit) prog" where
  "comments_create_on_forgejo E R repo target dryRun g = whenE (\<not> dryRun)
     (bnd (ext (CreateComment (cr_forgejo R) (rm_ForgejoOwner repo) (rm_ForgejoName repo)
        (th_forgejoIndex target) g)) (\<lambda>created. comments_map E repo target g created))"

definition comments_create_on_github ::
  "'w env \<Rightarrow> 'w comment_reconciler \<Rightarrow> repository_mapping \<Rightarrow> thread \<Rightarrow> string \<Rightarrow> string \<Rightarrow> bool \<Rightarrow> comment \<Rightarrow>
   ('w sys, unit) prog" where
  "comments_create_on_github E R repo target owner name dryRun f = whenE (\<not> dryRun)
     (bnd (ext (CreateComment (cr_github R) owner name (th_githubIndex target) f))
       (\<lambda>created. comments_map E repo target created f))"

definition comments_sync ::
  "'w env \<Rightarrow> 'w comment_reconciler \<Rightarrow> repository_mapping \<Rightarrow> thread \<Rightarrow> string \<Rightarrow> string \<Rightarrow> bool \<Rightarrow>
   comment list \<Rightarrow> comment list \<Rightarrow> comment_mapping list \<Rightarrow> ('w sys, unit) prog" where
  "comments_sync E R repo target owner name dryRun gcs fcs mappings =
     (let githubByID = commentByID gcs; forgejoByID = commentByID fcs
      in bnd (foldE (comments_reconcile_mapping E R repo owner name dryRun githubByID forgejoByID)
               mappings ({}, {})) (\<lambda>c1.
         bnd (map_range E (comments_uniquePairs E (comments_unconsumed gcs (fst c1)) (comments_unconsumed fcs (snd c1)))) (\<lambda>pairs.
         bnd (foldE (comments_adopt_pair E repo target dryRun githubByID forgejoByID) pairs c1) (\<lambda>c2.
         bnd (forE (comments_create_on_forgejo E R repo target dryRun) (comments_unconsumed gcs (fst c2))) (\<lambda>_.
         forE (comments_create_on_github E R repo target owner name dryRun) (comments_unconsumed fcs (snd c2)))))))"

definition reconcileThread ::
  "'w env \<Rightarrow> 'w comment_reconciler \<Rightarrow> repository_mapping \<Rightarrow> thread \<Rightarrow> string \<Rightarrow> string \<Rightarrow>
   comment list \<Rightarrow> comment list \<Rightarrow> bool \<Rightarrow> ('w sys, unit) prog" where
  "reconcileThread E R repo target owner name gcs fcs dryRun =
     bnd (of_sum (comments_validate gcs)) (\<lambda>_.
     bnd (of_sum (comments_validate fcs)) (\<lambda>_.
     bnd (ListCommentMappings E (rm_GitHubID repo) (th_githubID target)) (\<lambda>mappings.
     comments_sync E R repo target owner name dryRun gcs fcs mappings)))"

section \<open>The entry points\<close>

text \<open>One iteration of either loop; \<open>kind\<close> is the noun of the error text.\<close>

definition comments_thread ::
  "'w env \<Rightarrow> 'w comment_reconciler \<Rightarrow> repository_mapping \<Rightarrow> string \<Rightarrow> string \<Rightarrow> bool \<Rightarrow> string \<Rightarrow>
   int \<Rightarrow> int \<Rightarrow> int \<Rightarrow> int \<Rightarrow> ('w sys, unit) prog" where
  "comments_thread E R repo owner name dryRun kind githubID forgejoID githubIndex forgejoIndex =
     bnd (wrapE (''list GitHub comments for '' @ kind @ '' '' @ FormatInt githubID)
       (ext (ListComments (cr_github R) owner name githubIndex))) (\<lambda>gcs.
     bnd (wrapE (''list Forgejo comments for '' @ kind @ '' '' @ FormatInt forgejoID)
       (ext (ListComments (cr_forgejo R) (rm_ForgejoOwner repo) (rm_ForgejoName repo) forgejoIndex))) (\<lambda>fcs.
     reconcileThread E R repo
       \<lparr>th_githubID = githubID, th_githubIndex = githubIndex, th_forgejoIndex = forgejoIndex\<rparr>
       owner name gcs fcs dryRun))"

definition comments_Reconcile ::
  "'w env \<Rightarrow> 'w comment_reconciler \<Rightarrow> repository_mapping \<Rightarrow> issue_mapping list \<Rightarrow> bool \<Rightarrow> ('w sys, unit) prog" where
  "comments_Reconcile E R repo issueMappings dryRun =
     bnd (of_sum (mapping_identity repo)) (\<lambda>(owner, name).
     forE (\<lambda>m. comments_thread E R repo owner name dryRun ''issue''
         (im_GitHubID m) (im_ForgejoID m) (im_GitHubIndex m) (im_ForgejoIndex m)) issueMappings)"

definition ReconcilePullRequests ::
  "'w env \<Rightarrow> 'w comment_reconciler \<Rightarrow> repository_mapping \<Rightarrow> pull_request_mapping list \<Rightarrow> bool \<Rightarrow> ('w sys, unit) prog" where
  "ReconcilePullRequests E R repo pullRequestMappings dryRun =
     bnd (of_sum (mapping_identity repo)) (\<lambda>(owner, name).
     forE (\<lambda>m. comments_thread E R repo owner name dryRun ''pull request''
         (pm_GitHubID m) (pm_ForgejoID m) (pm_GitHubIndex m) (pm_ForgejoIndex m)) pullRequestMappings)"

section \<open>Frame lemmas\<close>

lemmas comments_defs = comments_advance_def comments_sync_pair_def comments_reconcile_mapping_def
  comments_map_def comments_adopt_pair_def comments_create_on_forgejo_def comments_create_on_github_def

lemma comments_steps_honest [guar_intros]:
  "guar (on_db honest) (comments_advance E m h)"
  "guar (on_db honest) (comments_sync_pair E R repo ow nm dry m g f)"
  "guar (on_db honest) (comments_reconcile_mapping E R repo ow nm dry G F m c)"
  "guar (on_db honest) (comments_map E repo target g f)"
  "guar (on_db honest) (comments_adopt_pair E repo target dry G F p c)"
  "guar (on_db honest) (comments_create_on_forgejo E R repo target dry g)"
  "guar (on_db honest) (comments_create_on_github E R repo target ow nm dry f)"
  unfolding comments_defs by (intro guar_intros guar_splits guar_decision)+

lemma reconcileThread_honest [guar_intros]:
  "guar (on_db honest) (comments_sync E R repo target ow nm dry gcs fcs ms)"
  "guar (on_db honest) (reconcileThread E R repo target ow nm gcs fcs dry)"
  unfolding reconcileThread_def comments_sync_def by (intro guar_intros guar_splits)+

lemma comments_Reconcile_honest [guar_intros]:
  "guar (on_db honest) (comments_Reconcile E R repo ims dry)"
  "guar (on_db honest) (ReconcilePullRequests E R repo pms dry)"
  unfolding comments_Reconcile_def ReconcilePullRequests_def comments_thread_def
  by (intro guar_intros guar_splits)+

text \<open>In a dry run the steps only update the local variables.\<close>

definition comments_consume ::
  "(int \<Rightarrow> comment option) \<Rightarrow> (int \<Rightarrow> comment option) \<Rightarrow> comment_mapping \<Rightarrow> int set \<times> int set \<Rightarrow> int set \<times> int set" where
  "comments_consume G F m c = (case (G (cm_GitHubID m), F (cm_ForgejoID m)) of
     (Some g, Some f) \<Rightarrow> (insert (c_ID g) (fst c), insert (c_ID f) (snd c)) | _ \<Rightarrow> c)"

lemma comments_dry_steps:
  "comments_sync_pair E R repo ow nm True m g f = ret ()"
  "comments_reconcile_mapping E R repo ow nm True G F m c = ret (comments_consume G F m c)"
  "comments_adopt_pair E repo target True G F p c = ret (insert (fst p) (fst c), insert (snd p) (snd c))"
  "comments_create_on_forgejo E R repo target True g = ret ()"
  "comments_create_on_github E R repo target ow nm True f = ret ()"
  by (auto simp: comments_defs comments_consume_def Let_def split: decision.split option.split)

lemma comments_thread_dry_unchanged:
  "guar (on_db unchanged) (comments_thread E R repo ow nm True kind a b c d)"
  unfolding comments_thread_def reconcileThread_def comments_sync_def
  by (intro guar_intros guar_splits) (simp_all add: comments_dry_steps unchanged.ret_guar)

lemma comments_thread_dry_any:
  assumes "ListComments (cr_github R') = ListComments (cr_github R)"
    and "ListComments (cr_forgejo R') = ListComments (cr_forgejo R)"
  shows "comments_thread E R' repo ow nm True kind a b c d = comments_thread E R repo ow nm True kind a b c d"
proof -
  have "comments_create_on_forgejo E R' repo target True = comments_create_on_forgejo E R repo target True"
    "comments_create_on_github E R' repo target ow nm True = comments_create_on_github E R repo target ow nm True"
    "comments_reconcile_mapping E R' repo ow nm True = comments_reconcile_mapping E R repo ow nm True" for target
    by (intro ext; simp add: comments_dry_steps)+
  then show ?thesis by (simp add: comments_thread_def reconcileThread_def comments_sync_def assms)
qed

section \<open>What a successful run has done\<close>

definition comment_mapped :: "repository_mapping \<Rightarrow> int \<Rightarrow> store \<Rightarrow> bool" where
  "comment_mapped repo i d \<longleftrightarrow> (rm_GitHubID repo, i) \<in> comment_pk ` set (t_comments d)"

lemma comment_mapped_honest: "honest d d' \<Longrightarrow> comment_mapped repo i d \<Longrightarrow> comment_mapped repo i d'"
  unfolding comment_mapped_def by (rule honest_keys(3) [THEN subsetD])

lemma comments_map_maps:
  assumes "comments_map E repo target g f s = (Inr x, t)"
  shows "comment_mapped repo (c_ID g) (db t)"
proof -
  obtain v u where "(comments_mappingFor E (rm_GitHubID repo) (th_githubID target) g f v)\<lparr>cm_UpdatedAt := u\<rparr>
      \<in> set (t_comments (db t))"
    using assms Upsert_stored(3) unfolding comments_map_def bnd_Inr by blast
  then show ?thesis by (force simp: comment_mapped_def comments_mappingFor_def)
qed

lemma comments_create_maps:
  "comments_create_on_forgejo E R repo target False g s = (Inr b, t) \<Longrightarrow> comment_mapped repo (c_ID g) (db t)"
  by (auto simp: comments_create_on_forgejo_def bnd_Inr dest: comments_map_maps)

lemma comments_adopt_maps:
  assumes "comments_adopt_pair E repo target False (commentByID gcs) F p c s = (Inr b, t)"
    and "fst p \<in> c_ID ` set gcs"
  shows "comment_mapped repo (fst p) (db t)" and "fst b = insert (fst p) (fst c)"
proof -
  obtain g where g: "commentByID gcs (fst p) = Some g"
    using assms(2) index_by_None [of c_ID gcs "fst p"] unfolding commentByID_def by fastforce
  then have "c_ID g = fst p" by (auto simp: commentByID_def dest: index_by_Some)
  with g assms(1) show "comment_mapped repo (fst p) (db t)" "fst b = insert (fst p) (fst c)"
    by (auto simp: comments_adopt_pair_def bnd_Inr ret_Inr dest: comments_map_maps)
qed

lemma comments_mapping_consumed:
  assumes "comments_reconcile_mapping E R repo ow nm dry (commentByID gcs) F m c s = (Inr b, t)"
  shows "fst b \<subseteq> insert (cm_GitHubID m) (fst c)"
  using assms
  by (auto simp: comments_reconcile_mapping_def bnd_Inr ret_Inr commentByID_def split: option.splits
      dest!: index_by_Some)

lemma comments_sync_complete:
  assumes run: "comments_sync E R repo target ow nm False gcs fcs ms s = (Inr (), t)"
    and ord: "order_ok E" and old: "\<forall>m \<in> set ms. comment_mapped repo (cm_GitHubID m) (db s)"
    and g: "g \<in> set gcs"
  shows "comment_mapped repo (c_ID g) (db t)"
proof -
  let ?G = "commentByID gcs" and ?F = "commentByID fcs"
  let ?I = "\<lambda>c d. \<forall>k \<in> fst c. comment_mapped repo k d"
  obtain c1 s1 ps s2 c2 s3 u s4 where
    1: "foldE (comments_reconcile_mapping E R repo ow nm False ?G ?F) ms ({}, {}) s = (Inr c1, s1)" and
    2: "map_range E (comments_uniquePairs E (comments_unconsumed gcs (fst c1)) (comments_unconsumed fcs (snd c1))) s1 = (Inr ps, s2)" and
    3: "foldE (comments_adopt_pair E repo target False ?G ?F) ps c1 s2 = (Inr c2, s3)" and
    4: "forE (comments_create_on_forgejo E R repo target False) (comments_unconsumed gcs (fst c2)) s3 = (Inr u, s4)" and
    5: "forE (comments_create_on_github E R repo target ow nm False) (comments_unconsumed fcs (snd c2)) s4 = (Inr (), t)"
    using run unfolding comments_sync_def Let_def bnd_Inr by (elim exE conjE) (rule that)
  have "?I c1 (db s1) \<and> (\<forall>m \<in> set ms. comment_mapped repo (cm_GitHubID m) (db s1))"
  proof (rule foldE_inv [OF 1])
    fix m c s b t assume m: "m \<in> set ms"
      and step: "comments_reconcile_mapping E R repo ow nm False ?G ?F m c s = (Inr b, t)"
      and I: "?I c (db s) \<and> (\<forall>m \<in> set ms. comment_mapped repo (cm_GitHubID m) (db s))"
    from Inr_honest [OF step comments_steps_honest(3)]
    have "comment_mapped repo k (db s) \<Longrightarrow> comment_mapped repo k (db t)" for k by (rule comment_mapped_honest)
    with m I comments_mapping_consumed [OF step]
    show "?I b (db t) \<and> (\<forall>m \<in> set ms. comment_mapped repo (cm_GitHubID m) (db t))" by fastforce
  qed (use old in simp)
  moreover have s2: "s2 = s1" "set ps = set (comments_uniquePairs E (comments_unconsumed gcs (fst c1)) (comments_unconsumed fcs (snd c1)))"
    using order_ok_set [OF ord 2] by auto
  ultimately have I2: "?I c1 (db s2)" by simp
  have ids: "fst p \<in> c_ID ` set gcs" if "p \<in> set ps" for p
    using that unfolding s2(2) comments_uniquePairs_def comments_unconsumed_def by (rule unique_pairs_unconsumed)
  have I3: "?I c2 (db s3)"
  proof (rule foldE_inv [OF 3, of ?I, OF I2])
    fix p c s b t assume p: "p \<in> set ps"
      and step: "comments_adopt_pair E repo target False ?G ?F p c s = (Inr b, t)" and I: "?I c (db s)"
    from Inr_honest [OF step comments_steps_honest(5)]
    have "comment_mapped repo k (db s) \<Longrightarrow> comment_mapped repo k (db t)" for k by (rule comment_mapped_honest)
    with I comments_adopt_maps [OF step ids [OF p]] show "?I b (db t)" by simp
  qed
  have "\<forall>g \<in> set (comments_unconsumed gcs (fst c2)). comment_mapped repo (c_ID g) (db s4)"
    by (rule forE_each [OF 4 comments_steps_honest(6)]) (auto intro: comment_mapped_honest comments_create_maps)
  moreover have "honest (db s3) (db s4)" by (rule forE_Inr_honest [OF 4]) (rule comments_steps_honest)
  moreover have "honest (db s4) (db t)" by (rule forE_Inr_honest [OF 5]) (rule comments_steps_honest)
  ultimately show ?thesis using g I3
    by (cases "c_ID g \<in> fst c2")
      (auto simp: comments_unconsumed_def set_unconsumed_by intro: comment_mapped_honest honest_trans)
qed

text \<open>The conflict that a mapping calls for.\<close>

definition comment_conflict :: "'w env \<Rightarrow> repository_mapping \<Rightarrow> comment_mapping \<Rightarrow> comment option \<Rightarrow> comment option \<Rightarrow> store \<Rightarrow> bool" where
  "comment_conflict E repo m x y d = (case (x, y) of
      (Some g, Some f) \<Rightarrow>
        three_way (comment_Hash E g) (comment_Hash E f) (cm_LastStateHash m) = BothChanged \<longrightarrow>
        recorded ''comment'' (rm_GitHubFullName repo) (object_key (cm_GitHubID m) (cm_ForgejoID m))
          (comment_Hash E g) (comment_Hash E f) d
    | _ \<Rightarrow> recorded ''comment-missing'' (rm_GitHubFullName repo) (object_key (cm_GitHubID m) (cm_ForgejoID m))
          (hashOrMissing E x) (hashOrMissing E y) d)"

lemma comments_mapping_recorded:
  "comments_reconcile_mapping E R repo ow nm False G F m c s = (Inr b, t) \<Longrightarrow>
     comment_conflict E repo m (G (cm_GitHubID m)) (F (cm_ForgejoID m)) (db t)"
  by (auto simp: comment_conflict_def comments_reconcile_mapping_def comments_sync_pair_def Let_def bnd_Inr ret_Inr
      split: option.splits dest!: record_conflict_recorded)

lemma comments_sync_recorded:
  assumes run: "comments_sync E R repo target ow nm False gcs fcs ms s = (Inr (), t)" and m: "m \<in> set ms"
  shows "comment_conflict E repo m (commentByID gcs (cm_GitHubID m)) (commentByID fcs (cm_ForgejoID m)) (db t)"
proof -
  let ?Q = "\<lambda>m. comment_conflict E repo m (commentByID gcs (cm_GitHubID m)) (commentByID fcs (cm_ForgejoID m))"
  let ?f = "comments_reconcile_mapping E R repo ow nm False (commentByID gcs) (commentByID fcs)"
  have stable: "?Q m d \<Longrightarrow> honest d d' \<Longrightarrow> ?Q m d'" for m d d'
    by (auto simp: comment_conflict_def split: option.splits intro: recorded_honest)
  obtain k where sync: "comments_sync E R repo target ow nm False gcs fcs ms = bnd (foldE ?f ms ({}, {})) k"
    and k: "\<And>c. guar (on_db honest) (k c)"
  proof
    show "comments_sync E R repo target ow nm False gcs fcs ms = bnd (foldE ?f ms ({}, {})) (\<lambda>c1.
         bnd (map_range E (comments_uniquePairs E (comments_unconsumed gcs (fst c1)) (comments_unconsumed fcs (snd c1)))) (\<lambda>pairs.
         bnd (foldE (comments_adopt_pair E repo target False (commentByID gcs) (commentByID fcs)) pairs c1) (\<lambda>c2.
         bnd (forE (comments_create_on_forgejo E R repo target False) (comments_unconsumed gcs (fst c2))) (\<lambda>_.
         forE (comments_create_on_github E R repo target ow nm False) (comments_unconsumed fcs (snd c2))))))"
      by (simp add: comments_sync_def Let_def)
  qed (intro guar_intros)
  obtain c u where loop: "foldE ?f ms ({}, {}) s = (Inr c, u)" and rest: "k c u = (Inr (), t)"
    using run unfolding sync bnd_Inr by blast
  have "\<forall>m \<in> set ms. ?Q m (db u)"
    by (rule foldE_each [OF loop comments_steps_honest(3)]) (erule comments_mapping_recorded, erule (1) stable [rotated])
  with m Inr_honest [OF rest k] show ?thesis by (blast intro: stable)
qed

lemma reconcileThread_Inr:
  assumes "reconcileThread E R repo target ow nm gcs fcs dry s = (Inr (), t)"
  shows "\<exists>ms u. comments_sync E R repo target ow nm dry gcs fcs ms u = (Inr (), t) \<and> db u = db s
     \<and> set ms = {m \<in> set (t_comments (db s)). cm_RepositoryGitHubID m = rm_GitHubID repo \<and> cm_IssueGitHubID m = th_githubID target}"
  using assms
  by (auto simp: reconcileThread_def bnd_Inr wrapE_Inr of_sum_app ListCommentMappings_def
      db_query_def dest!: db_exec_Inr)
    (fastforce simp: db_exec_def split: prod.splits option.splits)

section \<open>Properties\<close>

text \<open>C37: after a thread was reconciled without an error, every comment that GitHub listed in it is
  mapped: it was mapped before, was paired with the only Forgejo comment of the same text, or
  was created on Forgejo.\<close>

theorem comments_complete:
  assumes "order_ok E" and "reconcileThread E R repo target ow nm gcs fcs False s = (Inr (), t)"
    and "g \<in> set gcs"
  shows "comment_mapped repo (c_ID g) (db t)"
proof -
  obtain ms u where run: "comments_sync E R repo target ow nm False gcs fcs ms u = (Inr (), t)" and u: "db u = db s"
    and ms: "set ms = {m \<in> set (t_comments (db s)). cm_RepositoryGitHubID m = rm_GitHubID repo \<and> cm_IssueGitHubID m = th_githubID target}"
    using reconcileThread_Inr [OF assms(2)] by blast
  have "\<forall>m \<in> set ms. comment_mapped repo (cm_GitHubID m) (db u)"
    using ms u by (force simp: comment_mapped_def)
  from comments_sync_complete [OF run assms(1) this assms(3)] show ?thesis .
qed

text \<open>a comment edited on both forges, or deleted on one, is never overwritten, deleted or
  recreated silently: after a thread was reconciled without an error, each such mapping has its
  conflict row.\<close>

theorem comments_conflicts_recorded:
  assumes "reconcileThread E R repo target ow nm gcs fcs False s = (Inr (), t)"
    and "m \<in> set (t_comments (db s))" and "cm_RepositoryGitHubID m = rm_GitHubID repo"
    and "cm_IssueGitHubID m = th_githubID target"
  shows "comment_conflict E repo m (commentByID gcs (cm_GitHubID m)) (commentByID fcs (cm_ForgejoID m)) (db t)"
proof -
  obtain ms u where run: "comments_sync E R repo target ow nm False gcs fcs ms u = (Inr (), t)"
    and ms: "set ms = {m \<in> set (t_comments (db s)). cm_RepositoryGitHubID m = rm_GitHubID repo \<and> cm_IssueGitHubID m = th_githubID target}"
    using reconcileThread_Inr [OF assms(1)] by blast
  show ?thesis by (rule comments_sync_recorded [OF run]) (simp add: ms assms)
qed

text \<open>A dry run over the threads of issues or of pull requests writes nothing, and depends on
  nothing of the forges but their listings.\<close>

lemma comments_dry_unchanged [guar_intros]:
  "guar (on_db unchanged) (comments_Reconcile E R repo ims True)"
  "guar (on_db unchanged) (ReconcilePullRequests E R repo pms True)"
  unfolding comments_Reconcile_def ReconcilePullRequests_def
  by (intro guar_intros guar_splits comments_thread_dry_unchanged)+

lemma comments_dry_reads:
  assumes "ListComments (cr_github R') = ListComments (cr_github R)"
    and "ListComments (cr_forgejo R') = ListComments (cr_forgejo R)"
  shows "comments_Reconcile E R' repo ims True = comments_Reconcile E R repo ims True"
    and "ReconcilePullRequests E R' repo pms True = ReconcilePullRequests E R repo pms True"
proof -
  have "comments_thread E R' repo ow nm True = comments_thread E R repo ow nm True" for ow nm
    by (intro HOL.ext comments_thread_dry_any assms)
  then show "comments_Reconcile E R' repo ims True = comments_Reconcile E R repo ims True"
    "ReconcilePullRequests E R' repo pms True = ReconcilePullRequests E R repo pms True"
    by (simp_all add: comments_Reconcile_def ReconcilePullRequests_def)
qed

section \<open>Worked examples\<close>

definition sample_comment :: "int \<Rightarrow> string \<Rightarrow> comment" where
  "sample_comment i body = \<lparr>c_ID = i, c_IssueID = 3, c_Body = body, c_UpdatedAt = 0\<rparr>"

definition sample_comment_forge :: "unit comment_forge" where
  "sample_comment_forge = \<lparr>ListComments = \<lambda>_ _ _ w. (Inr [], w),
     CreateComment = \<lambda>_ _ _ c w. (Inr (c\<lparr>c_ID := c_ID c + 50\<rparr>), w),
     UpdateComment = \<lambda>_ _ _ c w. (Inr c, w)\<rparr>"

definition sample_comment_reconciler :: "unit comment_reconciler" where
  "sample_comment_reconciler = \<lparr>cr_github = sample_comment_forge, cr_forgejo = sample_comment_forge\<rparr>"

definition sample_thread :: thread where
  "sample_thread = \<lparr>th_githubID = 3, th_githubIndex = 1, th_forgejoIndex = 1\<rparr>"

definition sample_comment_mapping :: comment_mapping where
  "sample_comment_mapping = \<lparr>cm_RepositoryGitHubID = 7, cm_IssueGitHubID = 3, cm_GitHubID = 1, cm_ForgejoID = 2,
     cm_LastStateHash = ''old'', cm_UpdatedAt = 0\<rparr>"

definition sample_comment_sys :: "unit sys" where
  "sample_comment_sys = \<lparr>db = empty_store\<lparr>t_repositories := [sample_repository],
     t_comments := [sample_comment_mapping]\<rparr>, world = ()\<rparr>"

theorem comments_complete_witness:
  "comment_mapped sample_repository 4 (db (snd (reconcileThread unit_env sample_comment_reconciler sample_repository
     sample_thread ''a'' ''b'' [sample_comment 1 ''x'', sample_comment 4 ''z''] [sample_comment 2 ''y''] False sample_comment_sys)))"
proof -
  let ?r = "reconcileThread unit_env sample_comment_reconciler sample_repository
     sample_thread ''a'' ''b'' [sample_comment 1 ''x'', sample_comment 4 ''z''] [sample_comment 2 ''y''] False sample_comment_sys"
  have "fst ?r = Inr ()" by code_simp
  then have "?r = (Inr (), snd ?r)" by (rule run_result)
  from comments_complete [OF _ this, of "sample_comment 4 ''z''"] show ?thesis by (simp add: sample_comment_def)
qed

theorem comments_conflicts_recorded_witness:
  "recorded ''comment'' ''a/b'' (object_key 1 2) ''x'' ''y'' (db (snd (reconcileThread unit_env sample_comment_reconciler
     sample_repository sample_thread ''a'' ''b'' [sample_comment 1 ''x''] [sample_comment 2 ''y''] False sample_comment_sys)))"
proof -
  let ?r = "reconcileThread unit_env sample_comment_reconciler
     sample_repository sample_thread ''a'' ''b'' [sample_comment 1 ''x''] [sample_comment 2 ''y''] False sample_comment_sys"
  have "fst ?r = Inr ()" by code_simp
  then have "?r = (Inr (), snd ?r)" by (rule run_result)
  note run = comments_conflicts_recorded [OF this, of sample_comment_mapping]
  have "commentByID [sample_comment 1 ''x''] 1 = Some (sample_comment 1 ''x'')"
    "commentByID [sample_comment 2 ''y''] 2 = Some (sample_comment 2 ''y'')"
    "three_way ''x'' ''y'' ''old'' = BothChanged" by code_simp+
  with run show ?thesis
    by (simp add: comment_conflict_def sample_comment_mapping_def sample_comment_sys_def sample_thread_def
        comment_Hash_def sample_comment_def)
qed

end
