(* ===== verification/PullRequests.thy ===== *)
theory PullRequests
  imports Pairing
begin

text \<open>
  \<open>internal/pullrequests/reconcile.go\<close>: the pull request reconciler of one mapped repository,
  with its fallbacks: a pull request that a forge refuses to update, create or reopen, one
  that already exists on the other side, and a pairing whose Forgejo slot is taken.
\<close>

section \<open>The forge interface and the pure helpers\<close>

record 'w pull_forge =
  ListPullRequests :: "string \<Rightarrow> string \<Rightarrow> ('w, pull_request list) call"
  FindPullRequestByHead :: "string \<Rightarrow> string \<Rightarrow> string \<Rightarrow> ('w, pull_request option) call"
  CreatePullRequest :: "string \<Rightarrow> string \<Rightarrow> pull_request \<Rightarrow> ('w, pull_request) call"
  UpdatePullRequest :: "string \<Rightarrow> string \<Rightarrow> int \<Rightarrow> pull_request \<Rightarrow> ('w, pull_request) call"

record 'w pull_reconciler =
  pr_github :: "'w pull_forge"
  pr_forgejo :: "'w pull_forge"

definition zero_pull :: pull_request where
  "zero_pull = \<lparr>p_ID = 0, p_Index = 0, p_Title = [], p_Body = [], p_State = [], p_Head = [], p_Base = [],
     p_Draft = False, p_Merged = False, p_UpdatedAt = time_zero\<rparr>"

definition validatePullRequest :: "pull_request \<Rightarrow> go_error + unit" where
  "validatePullRequest x =
     (if p_ID x \<le> 0 \<or> p_Index x \<le> 0 \<or> p_Title x = [] then Inl (Err ''pull request identity or title is empty'')
      else if p_State x \<noteq> ''open'' \<and> p_State x \<noteq> ''closed''
      then Inl (Err (''pull request '' @ FormatInt (p_ID x) @ '' has invalid state '' @ Quote (p_State x)))
      else if p_Head x = [] \<or> p_Base x = []
      then Inl (Err (''pull request '' @ FormatInt (p_ID x) @ '' has empty head or base ref''))
      else Inr ())"

definition validatePullRequests :: "pull_request list \<Rightarrow> go_error + unit" where
  "validatePullRequests all = validate_unique validatePullRequest p_ID ''pull request'' {} all"

definition pulls_byID :: "pull_request list \<Rightarrow> int \<Rightarrow> pull_request option" where
  "pulls_byID = index_by p_ID"

definition pulls_unconsumed :: "pull_request list \<Rightarrow> int set \<Rightarrow> pull_request list" where
  "pulls_unconsumed = unconsumed_by p_ID"

definition pulls_uniqueHashPairs :: "'w env \<Rightarrow> pull_request list \<Rightarrow> pull_request list \<Rightarrow> (int \<times> int) list" where
  "pulls_uniqueHashPairs E = unique_pairs (pull_Hash E) p_ID (\<lambda>_ _. True)"

definition normalizedTitle :: "string \<Rightarrow> string" where
  "normalizedTitle title = ToLower
     (fold (\<lambda>prefix t. TrimSpace (TrimPrefix t prefix)) [''WIP:'', ''Draft:'', ''[WIP]''] (TrimSpace title))"

definition same_refs :: "pull_request \<Rightarrow> pull_request \<Rightarrow> bool" where
  "same_refs x y \<longleftrightarrow> p_Head x = p_Head y \<and> p_Base x = p_Base y"

definition pulls_indexTitlePairs :: "pull_request list \<Rightarrow> pull_request list \<Rightarrow> (int \<times> int) list" where
  "pulls_indexTitlePairs = unique_pairs p_Index p_ID
     (\<lambda>g f. normalizedTitle (p_Title g) = normalizedTitle (p_Title f) \<and> same_refs g f)"

definition adoptPullRequest :: "pull_request list \<Rightarrow> pull_request \<Rightarrow> int set \<Rightarrow> pull_request option" where
  "adoptPullRequest candidates g consumed = List.find (\<lambda>c. p_ID c \<notin> consumed
     \<and> normalizedTitle (p_Title c) = normalizedTitle (p_Title g) \<and> same_refs c g) candidates"

definition adoptPullRequestByRefs :: "pull_request list \<Rightarrow> pull_request \<Rightarrow> int set \<Rightarrow> pull_request option" where
  "adoptPullRequestByRefs candidates g consumed =
     List.find (\<lambda>c. p_ID c \<notin> consumed \<and> same_refs c g) candidates"

definition adoptGitHubPullRequest :: "pull_request list \<Rightarrow> pull_request \<Rightarrow> int set \<Rightarrow> pull_request option" where
  "adoptGitHubPullRequest candidates f consumed =
     List.find (\<lambda>c. p_ID c \<notin> consumed \<and> same_refs c f) candidates"

definition pullRequestMapping :: "'w env \<Rightarrow> int \<Rightarrow> pull_request \<Rightarrow> pull_request \<Rightarrow> time \<Rightarrow> pull_request_mapping" where
  "pullRequestMapping E repositoryID g f t =
     \<lparr>pm_RepositoryGitHubID = repositoryID, pm_GitHubID = p_ID g, pm_ForgejoID = p_ID f,
      pm_GitHubIndex = p_Index g, pm_ForgejoIndex = p_Index f,
      pm_LastStateHash = pull_Hash E g, pm_UpdatedAt = t\<rparr>"

definition pulls_stateOrMissing :: "'w env \<Rightarrow> pull_request option \<Rightarrow> string" where
  "pulls_stateOrMissing E x =
     (case x of None \<Rightarrow> ''missing'' | Some i \<Rightarrow> pull_Hash E i @ '':'' @ FormatInt (p_ID i))"

section \<open>Mapped pull requests\<close>

definition pulls_advance :: "'w env \<Rightarrow> pull_request_mapping \<Rightarrow> string \<Rightarrow> ('w sys, unit) prog" where
  "pulls_advance E m h =
     bnd (now E) (\<lambda>t. UpsertPullRequestMapping E (m\<lparr>pm_LastStateHash := h, pm_UpdatedAt := t\<rparr>))"

text \<open>\<open>http.StatusPreconditionFailed\<close> is how Gitea refuses to edit a merged or closed pull
  request.\<close>

definition pulls_copy_to_forgejo ::
  "'w env \<Rightarrow> 'w pull_reconciler \<Rightarrow> repository_mapping \<Rightarrow> pull_request_mapping \<Rightarrow> pull_request \<Rightarrow>
   string \<Rightarrow> string \<Rightarrow> ('w sys, unit) prog" where
  "pulls_copy_to_forgejo E R repo m g gh fh =
     tryE (ext (UpdatePullRequest (pr_forgejo R) (rm_ForgejoOwner repo) (rm_ForgejoName repo) (pm_ForgejoIndex m) g)) (\<lambda>res.
     case res of Inr _ \<Rightarrow> pulls_advance E m gh
     | Inl e \<Rightarrow>
        if map_option fae_StatusCode (as_forgejo e) = Some 412
        then bnd (record_conflict E ''pull-request-locked'' (rm_GitHubFullName repo)
               (object_key (pm_GitHubID m) (pm_ForgejoID m)) gh fh (pm_LastStateHash m)) (\<lambda>_.
             pulls_advance E m gh)
        else throw (Wrap (''copy GitHub pull request '' @ FormatInt (pm_GitHubID m) @ '' to Forgejo'') e))"

definition pulls_copy_to_github ::
  "'w env \<Rightarrow> 'w pull_reconciler \<Rightarrow> repository_mapping \<Rightarrow> string \<Rightarrow> string \<Rightarrow> pull_request_mapping \<Rightarrow>
   pull_request \<Rightarrow> pull_request \<Rightarrow> string \<Rightarrow> string \<Rightarrow> ('w sys, unit) prog" where
  "pulls_copy_to_github E R repo owner name m g f gh fh =
     tryE (ext (UpdatePullRequest (pr_github R) owner name (pm_GitHubIndex m) f)) (\<lambda>res.
     case res of Inr _ \<Rightarrow> pulls_advance E m fh
     | Inl e \<Rightarrow>
        if is_err e ErrCannotReopen
        then bnd (wrapE (''converge Forgejo pull request '' @ FormatInt (pm_ForgejoID m) @ '' to GitHub state'')
               (ext (UpdatePullRequest (pr_forgejo R) (rm_ForgejoOwner repo) (rm_ForgejoName repo) (pm_ForgejoIndex m)
                 (f\<lparr>p_Title := p_Title g, p_Body := p_Body g, p_State := p_State g\<rparr>)))) (\<lambda>_.
             pulls_advance E m gh)
        else throw (Wrap (''copy Forgejo pull request '' @ FormatInt (pm_ForgejoID m) @ '' to GitHub'') e))"

definition pulls_sync_pair ::
  "'w env \<Rightarrow> 'w pull_reconciler \<Rightarrow> repository_mapping \<Rightarrow> string \<Rightarrow> string \<Rightarrow> bool \<Rightarrow>
   pull_request_mapping \<Rightarrow> pull_request \<Rightarrow> pull_request \<Rightarrow> ('w sys, unit) prog" where
  "pulls_sync_pair E R repo owner name dryRun m g f =
     (let gh = pull_Hash E g; fh = pull_Hash E f
      in case three_way gh fh (pm_LastStateHash m) of
        InSync \<Rightarrow> whenE (\<not> dryRun \<and> pm_LastStateHash m \<noteq> gh) (pulls_advance E m gh)
      | CopyToForgejo \<Rightarrow> whenE (\<not> dryRun) (pulls_copy_to_forgejo E R repo m g gh fh)
      | CopyToGitHub \<Rightarrow> whenE (\<not> dryRun) (pulls_copy_to_github E R repo owner name m g f gh fh)
      | BothChanged \<Rightarrow> whenE (\<not> dryRun)
          (record_conflict E ''pull-request'' (rm_GitHubFullName repo)
             (object_key (pm_GitHubID m) (pm_ForgejoID m)) gh fh (pm_LastStateHash m)))"

definition pulls_reconcile_mapping ::
  "'w env \<Rightarrow> 'w pull_reconciler \<Rightarrow> repository_mapping \<Rightarrow> string \<Rightarrow> string \<Rightarrow> bool \<Rightarrow>
   (int \<Rightarrow> pull_request option) \<Rightarrow> (int \<Rightarrow> pull_request option) \<Rightarrow>
   pull_request_mapping \<Rightarrow> int set \<times> int set \<Rightarrow> ('w sys, int set \<times> int set) prog" where
  "pulls_reconcile_mapping E R repo owner name dryRun githubByID forgejoByID m consumed =
     (case (githubByID (pm_GitHubID m), forgejoByID (pm_ForgejoID m)) of
        (Some g, Some f) \<Rightarrow>
          bnd (pulls_sync_pair E R repo owner name dryRun m g f)
            (\<lambda>_. ret (insert (p_ID g) (fst consumed), insert (p_ID f) (snd consumed)))
      | (x, y) \<Rightarrow>
          bnd (whenE (\<not> dryRun) (record_conflict E ''pull-request-missing'' (rm_GitHubFullName repo)
              (object_key (pm_GitHubID m) (pm_ForgejoID m))
              (pulls_stateOrMissing E x) (pulls_stateOrMissing E y) (pm_LastStateHash m)))
            (\<lambda>_. ret consumed))"

section \<open>Pairing\<close>

text \<open>A mapping whose Forgejo side is taken becomes a conflict row; any other error is
  returned.\<close>

definition pairingConflict ::
  "'w env \<Rightarrow> repository_mapping \<Rightarrow> pull_request \<Rightarrow> pull_request \<Rightarrow> go_error \<Rightarrow> ('w sys, unit) prog" where
  "pairingConflict E repo g f err =
     (if \<not> Contains (Error err) ''UNIQUE constraint failed'' then throw err
      else record_conflict E ''pull-request-pairing'' (rm_GitHubFullName repo)
             (object_key (p_ID g) (p_ID f)) (pull_Hash E g) (pull_Hash E f) ''already-paired'')"

definition pulls_store_mapping ::
  "'w env \<Rightarrow> repository_mapping \<Rightarrow> pull_request \<Rightarrow> pull_request \<Rightarrow> ('w sys, unit) prog" where
  "pulls_store_mapping E repo g f = bnd (now E) (\<lambda>t.
     UpsertPullRequestMapping E (pullRequestMapping E (rm_GitHubID repo) g f t))"

text \<open>Storing a mapping, or recording why not; the result tells which.\<close>

definition pulls_pair ::
  "'w env \<Rightarrow> repository_mapping \<Rightarrow> pull_request \<Rightarrow> pull_request \<Rightarrow> ('w sys, bool) prog" where
  "pulls_pair E repo g f =
     tryE (pulls_store_mapping E repo g f) (\<lambda>res.
     case res of Inr _ \<Rightarrow> ret True | Inl e \<Rightarrow> bnd (pairingConflict E repo g f e) (\<lambda>_. ret False))"

definition pulls_of :: "(int \<Rightarrow> pull_request option) \<Rightarrow> int \<Rightarrow> pull_request" where
  "pulls_of m i = (case m i of None \<Rightarrow> zero_pull | Some x \<Rightarrow> x)"

definition pulls_adopt_hash_pair ::
  "'w env \<Rightarrow> repository_mapping \<Rightarrow> bool \<Rightarrow> (int \<Rightarrow> pull_request option) \<Rightarrow> (int \<Rightarrow> pull_request option) \<Rightarrow>
   int \<times> int \<Rightarrow> int set \<times> int set \<Rightarrow> ('w sys, int set \<times> int set) prog" where
  "pulls_adopt_hash_pair E repo dryRun githubByID forgejoByID p consumed =
     bnd (whenE (\<not> dryRun) (bnd (pulls_pair E repo (pulls_of githubByID (fst p)) (pulls_of forgejoByID (snd p)))
            (\<lambda>_. ret ())))
       (\<lambda>_. ret (insert (fst p) (fst consumed), insert (snd p) (snd consumed)))"

definition pulls_adopt_index_pair ::
  "'w env \<Rightarrow> repository_mapping \<Rightarrow> bool \<Rightarrow> (int \<Rightarrow> pull_request option) \<Rightarrow> (int \<Rightarrow> pull_request option) \<Rightarrow>
   int \<times> int \<Rightarrow> int set \<times> int set \<Rightarrow> ('w sys, int set \<times> int set) prog" where
  "pulls_adopt_index_pair E repo dryRun githubByID forgejoByID p consumed =
     (let g = pulls_of githubByID (fst p); f = pulls_of forgejoByID (snd p)
      in bnd (whenE (\<not> dryRun) (bnd (now E) (\<lambda>t. UpsertPullRequestMapping E
              ((pullRequestMapping E (rm_GitHubID repo) g f t)\<lparr>pm_LastStateHash := pull_Hash E f\<rparr>))))
           (\<lambda>_. ret (insert (fst p) (fst consumed), insert (snd p) (snd consumed))))"

section \<open>Creating\<close>

definition github_only_key :: "int \<Rightarrow> string" where
  "github_only_key i = ''github:'' @ FormatInt i @ ''/forgejo:-''"

definition forgejo_only_key :: "int \<Rightarrow> string" where
  "forgejo_only_key i = ''github:-/forgejo:'' @ FormatInt i"

text \<open>The end of an iteration of the first creation loop: \<open>created\<close> was created or adopted. The
  loop carries \<open>consumedGitHub\<close>.\<close>

definition pulls_finish_forgejo ::
  "'w env \<Rightarrow> repository_mapping \<Rightarrow> pull_request \<Rightarrow> pull_request \<Rightarrow> int set \<Rightarrow> ('w sys, int set) prog" where
  "pulls_finish_forgejo E repo g created consumedGitHub =
     bnd (wrapE ''invalid created Forgejo pull request'' (of_sum (validatePullRequest created))) (\<lambda>_.
     bnd (pulls_pair E repo g created) (\<lambda>stored.
     ret (if stored then consumedGitHub else insert (p_ID g) consumedGitHub)))"

definition pulls_create_on_forgejo ::
  "'w env \<Rightarrow> 'w pull_reconciler \<Rightarrow> repository_mapping \<Rightarrow> bool \<Rightarrow> pull_request list \<Rightarrow> int set \<Rightarrow>
   pull_request \<Rightarrow> int set \<Rightarrow> ('w sys, int set) prog" where
  "pulls_create_on_forgejo E R repo dryRun fps consumedForgejo g consumedGitHub =
     (if dryRun then ret consumedGitHub
      else tryE (ext (CreatePullRequest (pr_forgejo R) (rm_ForgejoOwner repo) (rm_ForgejoName repo) g)) (\<lambda>res.
        case res of Inr created \<Rightarrow> pulls_finish_forgejo E repo g created consumedGitHub
        | Inl e \<Rightarrow>
           let code = map_option fae_StatusCode (as_forgejo e)
           in if code = Some 404 \<or> code = Some 422
              then bnd (record_conflict E ''pull-request-empty'' (rm_GitHubFullName repo)
                     (github_only_key (p_ID g)) (pull_Hash E g) ''uncreateable'' ''unpaired'')
                   (\<lambda>_. ret (insert (p_ID g) consumedGitHub))
              else (case (case adoptPullRequest fps g consumedForgejo of
                            Some x \<Rightarrow> Some x | None \<Rightarrow> adoptPullRequestByRefs fps g consumedForgejo) of
                 Some existing \<Rightarrow> pulls_finish_forgejo E repo g existing consumedGitHub
               | None \<Rightarrow>
                  if code \<noteq> Some 409
                  then throw (Wrap (''create Forgejo pull request from GitHub pull request '' @ FormatInt (p_ID g)) e)
                  else bnd (record_conflict E ''pull-request-duplicate'' (rm_GitHubFullName repo)
                         (github_only_key (p_ID g)) (pull_Hash E g) ''occupied-refs'' ''unpaired'')
                       (\<lambda>_. ret (insert (p_ID g) consumedGitHub)))))"

definition pulls_finish_github ::
  "'w env \<Rightarrow> repository_mapping \<Rightarrow> pull_request \<Rightarrow> pull_request \<Rightarrow> ('w sys, unit) prog" where
  "pulls_finish_github E repo created f =
     bnd (wrapE ''invalid created GitHub pull request'' (of_sum (validatePullRequest created))) (\<lambda>_.
     bnd (pulls_pair E repo created f) (\<lambda>_. ret ()))"

text \<open>An existing GitHub pull request spans the refs. When the lookup by head finds none, the
  error text of the last statement has no operand: the error of the lookup is \<open>nil\<close>.\<close>

definition pulls_existing_on_github ::
  "'w env \<Rightarrow> 'w pull_reconciler \<Rightarrow> repository_mapping \<Rightarrow> string \<Rightarrow> string \<Rightarrow> pull_request list \<Rightarrow> int set \<Rightarrow>
   pull_request \<Rightarrow> ('w sys, unit) prog" where
  "pulls_existing_on_github E R repo owner name gps consumedGitHub f =
     bnd (case adoptGitHubPullRequest gps f consumedGitHub of
            Some x \<Rightarrow> ret (Some x)
          | None \<Rightarrow> wrapE (''find GitHub pull request for head '' @ p_Head f)
              (ext (FindPullRequestByHead (pr_github R) owner name (p_Head f)))) (\<lambda>found.
     case found of
       None \<Rightarrow> throw (Err (''Forgejo pull request '' @ FormatInt (p_ID f)
         @ '' reports an existing GitHub pull request that cannot be found: %!w(<nil>)''))
     | Some existing \<Rightarrow>
         if p_ID existing \<in> consumedGitHub
         then record_conflict E ''pull-request-duplicate'' (rm_GitHubFullName repo)
                (object_key (p_ID existing) (p_ID f)) (pull_Hash E existing) (pull_Hash E f) ''already-paired''
         else pulls_finish_github E repo existing f)"

definition pulls_create_on_github ::
  "'w env \<Rightarrow> 'w pull_reconciler \<Rightarrow> repository_mapping \<Rightarrow> string \<Rightarrow> string \<Rightarrow> bool \<Rightarrow> pull_request list \<Rightarrow> int set \<Rightarrow>
   pull_request \<Rightarrow> ('w sys, unit) prog" where
  "pulls_create_on_github E R repo owner name dryRun gps consumedGitHub f = whenE (\<not> dryRun)
     (tryE (ext (CreatePullRequest (pr_github R) owner name f)) (\<lambda>res.
      case res of Inr created \<Rightarrow> pulls_finish_github E repo created f
      | Inl e \<Rightarrow>
         if is_err e ErrPullRequestExists
         then pulls_existing_on_github E R repo owner name gps consumedGitHub f
         else if is_err e ErrNoCommits
         then record_conflict E ''pull-request-empty'' (rm_GitHubFullName repo)
                (forgejo_only_key (p_ID f)) ''no-diff'' (pull_Hash E f) ''unpaired''
         else throw (Wrap (''create GitHub pull request from Forgejo pull request '' @ FormatInt (p_ID f)) e)))"

section \<open>The reconciler\<close>

definition pulls_sync ::
  "'w env \<Rightarrow> 'w pull_reconciler \<Rightarrow> repository_mapping \<Rightarrow> string \<Rightarrow> string \<Rightarrow> bool \<Rightarrow>
   pull_request list \<Rightarrow> pull_request list \<Rightarrow> pull_request_mapping list \<Rightarrow> ('w sys, unit) prog" where
  "pulls_sync E R repo owner name dryRun gps fps mappings =
     (let githubByID = pulls_byID gps; forgejoByID = pulls_byID fps
      in bnd (foldE (pulls_reconcile_mapping E R repo owner name dryRun githubByID forgejoByID)
               mappings ({}, {})) (\<lambda>c1.
         bnd (map_range E (pulls_uniqueHashPairs E (pulls_unconsumed gps (fst c1)) (pulls_unconsumed fps (snd c1)))) (\<lambda>paired.
         bnd (foldE (pulls_adopt_hash_pair E repo dryRun githubByID forgejoByID) paired c1) (\<lambda>c2.
         bnd (map_range E (pulls_indexTitlePairs (pulls_unconsumed gps (fst c2)) (pulls_unconsumed fps (snd c2)))) (\<lambda>indexed.
         bnd (foldE (pulls_adopt_index_pair E repo dryRun githubByID forgejoByID) indexed c2) (\<lambda>c3.
         bnd (foldE (pulls_create_on_forgejo E R repo dryRun fps (snd c3)) (pulls_unconsumed gps (fst c3)) (fst c3))
           (\<lambda>consumedGitHub.
         forE (pulls_create_on_github E R repo owner name dryRun gps consumedGitHub)
           (pulls_unconsumed fps (snd c3)))))))))"

definition pulls_Reconcile ::
  "'w env \<Rightarrow> 'w pull_reconciler \<Rightarrow> repository_mapping \<Rightarrow> bool \<Rightarrow> ('w sys, unit) prog" where
  "pulls_Reconcile E R repo dryRun =
     bnd (of_sum (mapping_identity repo)) (\<lambda>(owner, name).
     bnd (wrapE ''list GitHub pull requests'' (ext (ListPullRequests (pr_github R) owner name))) (\<lambda>gps.
     bnd (wrapE ''list Forgejo pull requests''
       (ext (ListPullRequests (pr_forgejo R) (rm_ForgejoOwner repo) (rm_ForgejoName repo)))) (\<lambda>fps.
     bnd (wrapE ''invalid GitHub pull request response'' (of_sum (validatePullRequests gps))) (\<lambda>_.
     bnd (wrapE ''invalid Forgejo pull request response'' (of_sum (validatePullRequests fps))) (\<lambda>_.
     bnd (ListPullRequestMappings E (rm_GitHubID repo)) (\<lambda>mappings.
     pulls_sync E R repo owner name dryRun gps fps mappings))))))"

section \<open>Frame lemmas\<close>

lemmas pulls_defs = pulls_advance_def pulls_copy_to_forgejo_def pulls_copy_to_github_def pulls_sync_pair_def
  pulls_reconcile_mapping_def pairingConflict_def pulls_store_mapping_def pulls_pair_def pulls_adopt_hash_pair_def
  pulls_adopt_index_pair_def pulls_finish_forgejo_def pulls_create_on_forgejo_def pulls_finish_github_def
  pulls_existing_on_github_def pulls_create_on_github_def

lemma pulls_steps_honest [guar_intros]:
  "guar (on_db honest) (pulls_reconcile_mapping E R repo ow nm dry G F m c)"
  "guar (on_db honest) (pulls_pair E repo g f)"
  "guar (on_db honest) (pulls_adopt_hash_pair E repo dry G F p c)"
  "guar (on_db honest) (pulls_adopt_index_pair E repo dry G F p c)"
  "guar (on_db honest) (pulls_create_on_forgejo E R repo dry fps cf g cg)"
  "guar (on_db honest) (pulls_create_on_github E R repo ow nm dry gps cg f)"
  unfolding pulls_defs by (intro guar_intros guar_splits guar_decision)+

lemma pulls_sync_honest [guar_intros]:
  "guar (on_db honest) (pulls_sync E R repo ow nm dry gps fps ms)"
  unfolding pulls_sync_def by (intro guar_intros guar_splits)

lemma pulls_Reconcile_honest [guar_intros]: "guar (on_db honest) (pulls_Reconcile E R repo dry)"
  unfolding pulls_Reconcile_def by (intro guar_intros guar_splits)

definition pulls_consume ::
  "(int \<Rightarrow> pull_request option) \<Rightarrow> (int \<Rightarrow> pull_request option) \<Rightarrow> pull_request_mapping \<Rightarrow> int set \<times> int set \<Rightarrow> int set \<times> int set" where
  "pulls_consume G F m c = (case (G (pm_GitHubID m), F (pm_ForgejoID m)) of
     (Some g, Some f) \<Rightarrow> (insert (p_ID g) (fst c), insert (p_ID f) (snd c)) | _ \<Rightarrow> c)"

lemma pulls_dry_steps:
  "pulls_reconcile_mapping E R repo ow nm True G F m c = ret (pulls_consume G F m c)"
  "pulls_adopt_hash_pair E repo True G F p c = ret (insert (fst p) (fst c), insert (snd p) (snd c))"
  "pulls_adopt_index_pair E repo True G F p c = ret (insert (fst p) (fst c), insert (snd p) (snd c))"
  "pulls_create_on_forgejo E R repo True fps cf g cg = ret cg"
  "pulls_create_on_github E R repo ow nm True gps cg f = ret ()"
  by (auto simp: pulls_reconcile_mapping_def pulls_sync_pair_def pulls_adopt_hash_pair_def pulls_adopt_index_pair_def
      pulls_create_on_forgejo_def pulls_create_on_github_def pulls_consume_def Let_def split: decision.split option.split)

lemma pulls_sync_dry_unchanged: "guar (on_db unchanged) (pulls_sync E R repo ow nm True gps fps ms)"
  unfolding pulls_sync_def by (intro guar_intros guar_splits) (simp_all add: pulls_dry_steps unchanged.ret_guar)

lemma pulls_sync_dry_any:
  "pulls_sync E R repo ow nm True gps fps ms = pulls_sync E R' repo ow nm True gps fps ms"
proof -
  have "pulls_create_on_forgejo E R repo True = pulls_create_on_forgejo E R' repo True"
    "pulls_create_on_github E R repo ow nm True = pulls_create_on_github E R' repo ow nm True"
    "pulls_reconcile_mapping E R repo ow nm True = pulls_reconcile_mapping E R' repo ow nm True"
    by (intro ext; simp add: pulls_dry_steps)+
  then show ?thesis unfolding pulls_sync_def by simp
qed

section \<open>What a successful run has done\<close>

definition pull_mapped :: "repository_mapping \<Rightarrow> int \<Rightarrow> store \<Rightarrow> bool" where
  "pull_mapped repo i d \<longleftrightarrow> (rm_GitHubID repo, i) \<in> pull_pk ` set (t_pulls d)"

text \<open>A GitHub pull request is accounted for when it is mapped or a conflict row names it.\<close>

definition pull_accounted :: "repository_mapping \<Rightarrow> int \<Rightarrow> store \<Rightarrow> bool" where
  "pull_accounted repo i d \<longleftrightarrow> pull_mapped repo i d
     \<or> (\<exists>kind key gs fs. recorded kind (rm_GitHubFullName repo) key gs fs d
          \<and> HasPrefix key (''github:'' @ FormatInt i @ ''/forgejo:''))"

lemma pull_accounted_honest: "honest d d' \<Longrightarrow> pull_accounted repo i d \<Longrightarrow> pull_accounted repo i d'"
proof -
  assume h: "honest d d'" and acc: "pull_accounted repo i d"
  have "pull_mapped repo i d \<Longrightarrow> pull_mapped repo i d'"
    using honest_keys(2) [OF h] by (auto simp: pull_mapped_def)
  with acc recorded_honest [OF h] show ?thesis unfolding pull_accounted_def by blast
qed

lemma key_names:
  "HasPrefix (object_key i j) (''github:'' @ FormatInt i @ ''/forgejo:'')"
  "HasPrefix (github_only_key i) (''github:'' @ FormatInt i @ ''/forgejo:'')"
  by (simp_all add: HasPrefix_iff object_key_def github_only_key_def)

lemma recorded_accounts:
  "record_conflict E kind (rm_GitHubFullName repo) key gs fs lk s = (Inr x, t) \<Longrightarrow>
   HasPrefix key (''github:'' @ FormatInt i @ ''/forgejo:'') \<Longrightarrow> pull_accounted repo i (db t)"
  unfolding pull_accounted_def by (blast dest: record_conflict_recorded)

lemma upsert_accounts:
  assumes "UpsertPullRequestMapping E m s = (Inr x, t)" and "pull_pk m = (rm_GitHubID repo, i)"
  shows "pull_accounted repo i (db t)"
proof -
  obtain u where "m\<lparr>pm_UpdatedAt := u\<rparr> \<in> set (t_pulls (db t))" using Upsert_stored(2) [OF assms(1)] by blast
  then have "pull_pk (m\<lparr>pm_UpdatedAt := u\<rparr>) \<in> pull_pk ` set (t_pulls (db t))" by (rule imageI)
  with assms(2) show ?thesis by (simp add: pull_accounted_def pull_mapped_def)
qed

lemma pulls_pair_accounts:
  assumes "pulls_pair E repo g f s = (Inr b, t)"
  shows "pull_accounted repo (p_ID g) (db t)"
proof -
  obtain r u where r: "pulls_store_mapping E repo g f s = (r, u)"
    and k: "(case r of Inr _ \<Rightarrow> ret True | Inl e \<Rightarrow> bnd (pairingConflict E repo g f e) (\<lambda>_. ret False)) u = (Inr b, t)"
    using assms unfolding pulls_pair_def tryE_Inr by blast
  show ?thesis
  proof (cases r)
    case (Inl e)
    with k show ?thesis
      by (auto simp: pairingConflict_def bnd_Inr ret_Inr throw_app split: if_splits
          intro: recorded_accounts key_names)
  next
    case (Inr x)
    with r k show ?thesis
      by (auto simp: pulls_store_mapping_def bnd_Inr ret_Inr pullRequestMapping_def intro!: upsert_accounts)
  qed
qed

lemma pulls_of_listed: "i \<in> p_ID ` set gps \<Longrightarrow> p_ID (pulls_of (pulls_byID gps) i) = i"
  using index_by_None [of p_ID gps i] index_by_Some [of p_ID gps i]
  by (cases "pulls_byID gps i") (auto simp: pulls_of_def pulls_byID_def)

lemma pulls_adopt_accounts:
  assumes "fst p \<in> p_ID ` set gps"
  shows "pulls_adopt_hash_pair E repo False (pulls_byID gps) F p c s = (Inr b, t) \<Longrightarrow>
      pull_accounted repo (fst p) (db t) \<and> fst b = insert (fst p) (fst c)"
    and "pulls_adopt_index_pair E repo False (pulls_byID gps) F p c s = (Inr b, t) \<Longrightarrow>
      pull_accounted repo (fst p) (db t) \<and> fst b = insert (fst p) (fst c)"
proof -
  note i = pulls_of_listed [OF assms]
  show "pulls_adopt_hash_pair E repo False (pulls_byID gps) F p c s = (Inr b, t) \<Longrightarrow>
      pull_accounted repo (fst p) (db t) \<and> fst b = insert (fst p) (fst c)"
    using i by (auto simp: pulls_adopt_hash_pair_def bnd_Inr ret_Inr dest!: pulls_pair_accounts)
  show "pulls_adopt_index_pair E repo False (pulls_byID gps) F p c s = (Inr b, t) \<Longrightarrow>
      pull_accounted repo (fst p) (db t) \<and> fst b = insert (fst p) (fst c)"
    using i by (auto simp: pulls_adopt_index_pair_def Let_def bnd_Inr ret_Inr pullRequestMapping_def
        intro!: upsert_accounts)
qed

lemma pulls_finish_accounts:
  "pulls_finish_forgejo E repo g created cg s = (Inr b, t) \<Longrightarrow> pull_accounted repo (p_ID g) (db t)"
  by (auto simp: pulls_finish_forgejo_def bnd_Inr ret_Inr dest!: pulls_pair_accounts split: if_splits)

lemma pulls_create_accounts:
  assumes "pulls_create_on_forgejo E R repo False fps cf g cg s = (Inr b, t)"
  shows "pull_accounted repo (p_ID g) (db t)"
proof -
  obtain r u where run: "(case r of Inr created \<Rightarrow> pulls_finish_forgejo E repo g created cg
        | Inl e \<Rightarrow>
           let code = map_option fae_StatusCode (as_forgejo e)
           in if code = Some 404 \<or> code = Some 422
              then bnd (record_conflict E ''pull-request-empty'' (rm_GitHubFullName repo)
                     (github_only_key (p_ID g)) (pull_Hash E g) ''uncreateable'' ''unpaired'')
                   (\<lambda>_. ret (insert (p_ID g) cg))
              else (case (case adoptPullRequest fps g cf of
                            Some x \<Rightarrow> Some x | None \<Rightarrow> adoptPullRequestByRefs fps g cf) of
                 Some existing \<Rightarrow> pulls_finish_forgejo E repo g existing cg
               | None \<Rightarrow>
                  if code \<noteq> Some 409
                  then throw (Wrap (''create Forgejo pull request from GitHub pull request '' @ FormatInt (p_ID g)) e)
                  else bnd (record_conflict E ''pull-request-duplicate'' (rm_GitHubFullName repo)
                         (github_only_key (p_ID g)) (pull_Hash E g) ''occupied-refs'' ''unpaired'')
                       (\<lambda>_. ret (insert (p_ID g) cg)))) u = (Inr b, t)"
    using assms unfolding pulls_create_on_forgejo_def if_False tryE_Inr by (elim exE conjE) (rule that)
  have conflict: "bnd (record_conflict E kind (rm_GitHubFullName repo) (github_only_key (p_ID g)) gs fs lk)
      (\<lambda>_. ret x) u = (Inr b, t) \<Longrightarrow> pull_accounted repo (p_ID g) (db t)" for kind gs fs lk x
    by (auto simp: bnd_Inr ret_Inr intro: recorded_accounts key_names)
  show ?thesis
  proof (cases r)
    case (Inl e)
    with run show ?thesis
      by (auto simp: Let_def throw_app split: option.splits if_splits intro: conflict pulls_finish_accounts)
  qed (use run in \<open>auto intro: pulls_finish_accounts\<close>)
qed

lemma pulls_mapping_consumed:
  assumes "pulls_reconcile_mapping E R repo ow nm dry (pulls_byID gps) F m c s = (Inr b, t)"
  shows "fst b \<subseteq> insert (pm_GitHubID m) (fst c)"
  using assms
  by (auto simp: pulls_reconcile_mapping_def bnd_Inr ret_Inr pulls_byID_def split: option.splits
      dest!: index_by_Some)

lemma pulls_sync_accounts:
  assumes run: "pulls_sync E R repo ow nm False gps fps ms s = (Inr (), t)"
    and ord: "order_ok E" and old: "\<forall>m \<in> set ms. pull_accounted repo (pm_GitHubID m) (db s)"
    and g: "g \<in> set gps"
  shows "pull_accounted repo (p_ID g) (db t)"
proof -
  let ?G = "pulls_byID gps" and ?F = "pulls_byID fps"
  let ?I = "\<lambda>c d. \<forall>k \<in> fst c. pull_accounted repo k d"
  obtain c1 s1 ps1 s2 c2 s3 ps2 s4 c3 s5 cg s6 where
    1: "foldE (pulls_reconcile_mapping E R repo ow nm False ?G ?F) ms ({}, {}) s = (Inr c1, s1)" and
    2: "map_range E (pulls_uniqueHashPairs E (pulls_unconsumed gps (fst c1)) (pulls_unconsumed fps (snd c1))) s1 = (Inr ps1, s2)" and
    3: "foldE (pulls_adopt_hash_pair E repo False ?G ?F) ps1 c1 s2 = (Inr c2, s3)" and
    4: "map_range E (pulls_indexTitlePairs (pulls_unconsumed gps (fst c2)) (pulls_unconsumed fps (snd c2))) s3 = (Inr ps2, s4)" and
    5: "foldE (pulls_adopt_index_pair E repo False ?G ?F) ps2 c2 s4 = (Inr c3, s5)" and
    6: "foldE (pulls_create_on_forgejo E R repo False fps (snd c3)) (pulls_unconsumed gps (fst c3)) (fst c3) s5 = (Inr cg, s6)" and
    7: "forE (pulls_create_on_github E R repo ow nm False gps cg) (pulls_unconsumed fps (snd c3)) s6 = (Inr (), t)"
    using run unfolding pulls_sync_def Let_def bnd_Inr by (elim exE conjE) (rule that)
  have s2: "s2 = s1" "set ps1 = set (pulls_uniqueHashPairs E (pulls_unconsumed gps (fst c1)) (pulls_unconsumed fps (snd c1)))"
    and s4: "s4 = s3" "set ps2 = set (pulls_indexTitlePairs (pulls_unconsumed gps (fst c2)) (pulls_unconsumed fps (snd c2)))"
    using order_ok_set [OF ord 2] order_ok_set [OF ord 4] by auto
  have ids: "fst p \<in> p_ID ` set gps" if "p \<in> set ps1 \<union> set ps2" for p
    using that unfolding s2(2) s4(2) pulls_uniqueHashPairs_def pulls_indexTitlePairs_def
      pulls_unconsumed_def by (elim UnE) (erule unique_pairs_unconsumed)+
  have step: "?I b (db t)" if "honest (db s) (db t)" "?I c (db s)" "fst b \<subseteq> insert k (fst c)" "pull_accounted repo k (db t)"
    for b c k and s t :: "'a sys"
    using that by (auto intro: pull_accounted_honest)
  have "?I c1 (db s1) \<and> (\<forall>m \<in> set ms. pull_accounted repo (pm_GitHubID m) (db s1))"
  proof (rule foldE_inv [OF 1])
    fix m c s b t assume m: "m \<in> set ms"
      and run: "pulls_reconcile_mapping E R repo ow nm False ?G ?F m c s = (Inr b, t)"
      and I: "?I c (db s) \<and> (\<forall>m \<in> set ms. pull_accounted repo (pm_GitHubID m) (db s))"
    have h: "honest (db s) (db t)" by (rule Inr_honest [OF run pulls_steps_honest(1)])
    with I have "\<forall>m \<in> set ms. pull_accounted repo (pm_GitHubID m) (db t)" by (blast intro: pull_accounted_honest)
    with m step [OF h _ pulls_mapping_consumed [OF run]] I
    show "?I b (db t) \<and> (\<forall>m \<in> set ms. pull_accounted repo (pm_GitHubID m) (db t))" by blast
  qed (use old in simp)
  then have I2: "?I c1 (db s2)" using s2(1) by simp
  have I3: "?I c2 (db s3)"
  proof (rule foldE_inv [OF 3, of ?I, OF I2])
    fix p c s b t assume p: "p \<in> set ps1"
      and run: "pulls_adopt_hash_pair E repo False ?G ?F p c s = (Inr b, t)" and I: "?I c (db s)"
    have a: "pull_accounted repo (fst p) (db t) \<and> fst b = insert (fst p) (fst c)"
      by (rule pulls_adopt_accounts(1) [OF ids run]) (use p in simp)
    show "?I b (db t)" by (rule step [of s t c b "fst p", OF Inr_honest [OF run pulls_steps_honest(3)] I]) (use a in simp_all)
  qed
  then have I4: "?I c2 (db s4)" using s4(1) by simp
  have I5: "?I c3 (db s5)"
  proof (rule foldE_inv [OF 5, of ?I, OF I4])
    fix p c s b t assume p: "p \<in> set ps2"
      and run: "pulls_adopt_index_pair E repo False ?G ?F p c s = (Inr b, t)" and I: "?I c (db s)"
    have a: "pull_accounted repo (fst p) (db t) \<and> fst b = insert (fst p) (fst c)"
      by (rule pulls_adopt_accounts(2) [OF ids run]) (use p in simp)
    show "?I b (db t)" by (rule step [of s t c b "fst p", OF Inr_honest [OF run pulls_steps_honest(4)] I]) (use a in simp_all)
  qed
  have created: "\<forall>g \<in> set (pulls_unconsumed gps (fst c3)). pull_accounted repo (p_ID g) (db s6)"
    by (rule foldE_each [OF 6 pulls_steps_honest(5)]) (auto intro: pull_accounted_honest pulls_create_accounts)
  have h6: "honest (db s5) (db s6)" by (rule foldE_Inr_honest [OF 6 pulls_steps_honest(5)])
  have h7: "honest (db s6) (db t)" by (rule forE_Inr_honest [OF 7 pulls_steps_honest(6)])
  show ?thesis
  proof (cases "p_ID g \<in> fst c3")
    case True
    with I5 h6 h7 show ?thesis by (blast intro: pull_accounted_honest)
  next
    case False
    with g created h7 show ?thesis
      by (auto simp: pulls_unconsumed_def set_unconsumed_by intro: pull_accounted_honest)
  qed
qed

text \<open>The conflict that a mapping calls for.\<close>

definition pull_conflict ::
  "'w env \<Rightarrow> repository_mapping \<Rightarrow> pull_request_mapping \<Rightarrow> pull_request option \<Rightarrow> pull_request option \<Rightarrow> store \<Rightarrow> bool" where
  "pull_conflict E repo m x y d = (case (x, y) of
      (Some g, Some f) \<Rightarrow>
        three_way (pull_Hash E g) (pull_Hash E f) (pm_LastStateHash m) = BothChanged \<longrightarrow>
        recorded ''pull-request'' (rm_GitHubFullName repo) (object_key (pm_GitHubID m) (pm_ForgejoID m))
          (pull_Hash E g) (pull_Hash E f) d
    | _ \<Rightarrow> recorded ''pull-request-missing'' (rm_GitHubFullName repo) (object_key (pm_GitHubID m) (pm_ForgejoID m))
          (pulls_stateOrMissing E x) (pulls_stateOrMissing E y) d)"

lemma pulls_mapping_recorded:
  "pulls_reconcile_mapping E R repo ow nm False G F m c s = (Inr b, t) \<Longrightarrow>
     pull_conflict E repo m (G (pm_GitHubID m)) (F (pm_ForgejoID m)) (db t)"
  by (auto simp: pull_conflict_def pulls_reconcile_mapping_def pulls_sync_pair_def Let_def bnd_Inr ret_Inr
      split: option.splits dest!: record_conflict_recorded)

lemma pulls_sync_recorded:
  assumes run: "pulls_sync E R repo ow nm False gps fps ms s = (Inr (), t)" and m: "m \<in> set ms"
  shows "pull_conflict E repo m (pulls_byID gps (pm_GitHubID m)) (pulls_byID fps (pm_ForgejoID m)) (db t)"
proof -
  let ?Q = "\<lambda>m. pull_conflict E repo m (pulls_byID gps (pm_GitHubID m)) (pulls_byID fps (pm_ForgejoID m))"
  let ?f = "pulls_reconcile_mapping E R repo ow nm False (pulls_byID gps) (pulls_byID fps)"
  have stable: "?Q m d \<Longrightarrow> honest d d' \<Longrightarrow> ?Q m d'" for m d d'
    by (auto simp: pull_conflict_def split: option.splits intro: recorded_honest)
  obtain k where sync: "pulls_sync E R repo ow nm False gps fps ms = bnd (foldE ?f ms ({}, {})) k"
    and k: "\<And>c. guar (on_db honest) (k c)"
  proof
    show "pulls_sync E R repo ow nm False gps fps ms = bnd (foldE ?f ms ({}, {})) (\<lambda>c1.
         bnd (map_range E (pulls_uniqueHashPairs E (pulls_unconsumed gps (fst c1)) (pulls_unconsumed fps (snd c1)))) (\<lambda>paired.
         bnd (foldE (pulls_adopt_hash_pair E repo False (pulls_byID gps) (pulls_byID fps)) paired c1) (\<lambda>c2.
         bnd (map_range E (pulls_indexTitlePairs (pulls_unconsumed gps (fst c2)) (pulls_unconsumed fps (snd c2)))) (\<lambda>indexed.
         bnd (foldE (pulls_adopt_index_pair E repo False (pulls_byID gps) (pulls_byID fps)) indexed c2) (\<lambda>c3.
         bnd (foldE (pulls_create_on_forgejo E R repo False fps (snd c3)) (pulls_unconsumed gps (fst c3)) (fst c3))
           (\<lambda>consumedGitHub.
         forE (pulls_create_on_github E R repo ow nm False gps consumedGitHub)
           (pulls_unconsumed fps (snd c3))))))))"
      by (simp add: pulls_sync_def Let_def)
  qed (intro guar_intros)
  obtain c u where loop: "foldE ?f ms ({}, {}) s = (Inr c, u)" and rest: "k c u = (Inr (), t)"
    using run unfolding sync bnd_Inr by blast
  have "\<forall>m \<in> set ms. ?Q m (db u)"
    by (rule foldE_each [OF loop pulls_steps_honest(1)]) (erule pulls_mapping_recorded, erule (1) stable [rotated])
  with m Inr_honest [OF rest k] show ?thesis by (blast intro: stable)
qed

lemma pulls_Reconcile_Inr:
  assumes "pulls_Reconcile E R repo dry s = (Inr (), t)" and "mapping_identity repo = Inr (ow, nm)"
    and "ListPullRequests (pr_github R) ow nm (world s) = (Inr gps, w1)"
    and "ListPullRequests (pr_forgejo R) (rm_ForgejoOwner repo) (rm_ForgejoName repo) w1 = (Inr fps, w2)"
  shows "\<exists>ms u. pulls_sync E R repo ow nm dry gps fps ms u = (Inr (), t) \<and> db u = db s
     \<and> set ms = {m \<in> set (t_pulls (db s)). pm_RepositoryGitHubID m = rm_GitHubID repo}"
  using assms
  by (auto simp: pulls_Reconcile_def bnd_Inr wrapE_Inr of_sum_app ext_app ListPullRequestMappings_def
      db_query_def dest!: db_exec_Inr)
    (fastforce simp: db_exec_def split: prod.splits option.splits)

section \<open>A taken Forgejo slot\<close>

text \<open>The upsert of a new mapping whose Forgejo pull request another mapping holds.\<close>

lemma taken_slot:
  assumes "\<And>w. fst (e_fault E w) = None"
    and "m \<in> set (t_pulls (db s))" and "pull_pk m \<noteq> (rm_GitHubID repo, p_ID g)" and "pull_uq m = (rm_GitHubID repo, p_ID f)"
    and "0 < rm_GitHubID repo" and "validatePullRequest g = Inr ()" and "validatePullRequest f = Inr ()"
    and "h \<noteq> []"
  shows "\<exists>e u. bnd (now E) (\<lambda>t. UpsertPullRequestMapping E
      ((pullRequestMapping E (rm_GitHubID repo) g f t)\<lparr>pm_LastStateHash := h\<rparr>)) s = (Inl e, u) \<and> db u = db s \<and> Contains (Error e) ''UNIQUE constraint failed''"
proof -
  obtain v u where now: "now E s = (Inr v, u)" and u: "db u = db s"
    by (cases "e_now E (world s)") (simp add: now_app)
  let ?m = "(pullRequestMapping E (rm_GitHubID repo) g f v)\<lparr>pm_LastStateHash := h\<rparr>"
  obtain m' u' where start: "(if IsZero (pm_UpdatedAt ?m) then bnd (now E) (\<lambda>t. ret (?m\<lparr>pm_UpdatedAt := t\<rparr>)) else ret ?m) u = (Inr m', u')"
    and u': "db u' = db u" and m': "pull_pk m' = (rm_GitHubID repo, p_ID g)" "pull_uq m' = (rm_GitHubID repo, p_ID f)"
    by (cases "IsZero (pm_UpdatedAt ?m)"; cases "e_now E (world u)")
      (auto simp: bnd_app now_app ret_app pullRequestMapping_def)
  obtain w where w: "e_fault E (world u') = (None, w)"
    using assms(1) [of "world u'"] by (cases "e_fault E (world u')") simp
  have "\<exists>x. sql_upsert pull_pk pull_uq ''pull_request_mappings.repository_github_id, pull_request_mappings.forgejo_id'' m' (t_pulls (db u')) = Inl x"
    using assms(2-4) m' u u' by (auto simp: sql_upsert_def list_ex_bex)
  then obtain x where x: "sql_upsert pull_pk pull_uq ''pull_request_mappings.repository_github_id, pull_request_mappings.forgejo_id'' m' (t_pulls (db u')) = Inl x"
    by blast
  then have "db_exec E (upsert_pull_row m') u' = (Inl (Err x), u'\<lparr>world := w\<rparr>)"
    by (simp add: db_exec_def w upsert_pull_row_def fk_checked_def)
  moreover have "\<not> (pm_RepositoryGitHubID ?m \<le> 0 \<or> pm_GitHubID ?m \<le> 0 \<or> pm_ForgejoID ?m \<le> 0
         \<or> pm_GitHubIndex ?m \<le> 0 \<or> pm_ForgejoIndex ?m \<le> 0 \<or> pm_LastStateHash ?m = [])"
    using assms(5-8) by (auto simp: pullRequestMapping_def validatePullRequest_def split: if_splits)
  ultimately have "bnd (now E) (\<lambda>t. UpsertPullRequestMapping E
      ((pullRequestMapping E (rm_GitHubID repo) g f t)\<lparr>pm_LastStateHash := h\<rparr>)) s = (Inl (Wrap ''upsert pull request mapping'' (Err x)), u'\<lparr>world := w\<rparr>)"
    using now start by (simp add: UpsertPullRequestMapping_def bnd_app wrapE_app)
  moreover have "Contains (Error (Wrap ''upsert pull request mapping'' (Err x))) ''UNIQUE constraint failed''"
    using sql_upsert_fails [OF x] by (intro Wrap_text_Contains) simp
  ultimately show ?thesis using u u' by fastforce
qed

lemma taken_slot_error:
  assumes "\<And>w. fst (e_fault E w) = None"
    and "m \<in> set (t_pulls (db s))" and "pull_pk m \<noteq> (rm_GitHubID repo, p_ID g)" and "pull_uq m = (rm_GitHubID repo, p_ID f)"
    and "0 < rm_GitHubID repo" and "validatePullRequest g = Inr ()" and "validatePullRequest f = Inr ()"
    and "pull_Hash E g \<noteq> []"
  shows "\<exists>e u. pulls_store_mapping E repo g f s = (Inl e, u) \<and> db u = db s \<and> Contains (Error e) ''UNIQUE constraint failed''"
  using taken_slot [OF assms] by (simp add: pulls_store_mapping_def pullRequestMapping_def)

lemma taken_slot_recorded:
  assumes "\<And>w. fst (e_fault E w) = None"
    and "m \<in> set (t_pulls (db s))" and "pull_pk m \<noteq> (rm_GitHubID repo, p_ID g)" and "pull_uq m = (rm_GitHubID repo, p_ID f)"
    and "0 < rm_GitHubID repo" and "validatePullRequest g = Inr ()" and "validatePullRequest f = Inr ()"
    and "pull_Hash E g \<noteq> []"
  shows "\<exists>t. pulls_pair E repo g f s = (Inr False, t) \<and> t_pulls (db t) = t_pulls (db s)
    \<and> recorded ''pull-request-pairing'' (rm_GitHubFullName repo) (object_key (p_ID g) (p_ID f))
        (pull_Hash E g) (pull_Hash E f) (db t)"
proof -
  obtain e u where e: "pulls_store_mapping E repo g f s = (Inl e, u)" and u: "db u = db s"
    and unique: "Contains (Error e) ''UNIQUE constraint failed''"
    using taken_slot_error [OF assms] by blast
  obtain t where t: "record_conflict E ''pull-request-pairing'' (rm_GitHubFullName repo)
      (object_key (p_ID g) (p_ID f)) (pull_Hash E g) (pull_Hash E f) ''already-paired'' u = (Inr (), t)"
    and same: "t_pulls (db t) = t_pulls (db u)"
    using record_conflict_succeeds [OF assms(1)] by blast
  have "pulls_pair E repo g f s = (Inr False, t)"
    using e unique t by (simp add: pulls_pair_def tryE_app pairingConflict_def bnd_app ret_app)
  with same u record_conflict_recorded [OF t] show ?thesis by auto
qed

section \<open>Properties\<close>

text \<open>A dry run writes nothing, and depends on nothing of the forges but their listings.\<close>

lemma pulls_Reconcile_dry_unchanged [guar_intros]: "guar (on_db unchanged) (pulls_Reconcile E R repo True)"
  unfolding pulls_Reconcile_def by (intro guar_intros guar_splits pulls_sync_dry_unchanged)

lemma pulls_Reconcile_dry_reads:
  assumes "ListPullRequests (pr_github R') = ListPullRequests (pr_github R)"
    and "ListPullRequests (pr_forgejo R') = ListPullRequests (pr_forgejo R)"
  shows "pulls_Reconcile E R' repo True = pulls_Reconcile E R repo True"
proof -
  have "pulls_sync E R' repo ow nm True = pulls_sync E R repo ow nm True" for ow nm
    by (intro HOL.ext pulls_sync_dry_any)
  then show ?thesis by (simp add: pulls_Reconcile_def assms)
qed

text \<open>C35: no pull request is dropped silently. After a run that returns no error, every pull
  request that GitHub listed is mapped to a Forgejo pull request, or a conflict row of the
  repository names it: it could not be created on Forgejo, its refs are occupied there, or
  its Forgejo counterpart is already paired.\<close>

theorem pulls_accounted:
  assumes "order_ok E" and "pulls_Reconcile E R repo False s = (Inr (), t)"
    and "mapping_identity repo = Inr (ow, nm)"
    and "ListPullRequests (pr_github R) ow nm (world s) = (Inr gps, w1)"
    and "ListPullRequests (pr_forgejo R) (rm_ForgejoOwner repo) (rm_ForgejoName repo) w1 = (Inr fps, w2)"
    and "g \<in> set gps"
  shows "pull_accounted repo (p_ID g) (db t)"
proof -
  obtain ms u where run: "pulls_sync E R repo ow nm False gps fps ms u = (Inr (), t)" and u: "db u = db s"
    and ms: "set ms = {m \<in> set (t_pulls (db s)). pm_RepositoryGitHubID m = rm_GitHubID repo}"
    using pulls_Reconcile_Inr [OF assms(2-5)] by blast
  have "\<forall>m \<in> set ms. pull_accounted repo (pm_GitHubID m) (db u)"
    using ms u by (force simp: pull_accounted_def pull_mapped_def)
  from pulls_sync_accounts [OF run assms(1) this assms(6)] show ?thesis .
qed

text \<open>after a run that returns no error, every mapped pair of pull requests that changed on
  both sides, and every mapping with a side missing, has its conflict row.\<close>

theorem pulls_conflicts_recorded:
  assumes "pulls_Reconcile E R repo False s = (Inr (), t)"
    and "mapping_identity repo = Inr (ow, nm)"
    and "ListPullRequests (pr_github R) ow nm (world s) = (Inr gps, w1)"
    and "ListPullRequests (pr_forgejo R) (rm_ForgejoOwner repo) (rm_ForgejoName repo) w1 = (Inr fps, w2)"
    and "m \<in> set (t_pulls (db s))" and "pm_RepositoryGitHubID m = rm_GitHubID repo"
  shows "pull_conflict E repo m (pulls_byID gps (pm_GitHubID m)) (pulls_byID fps (pm_ForgejoID m)) (db t)"
proof -
  obtain ms u where run: "pulls_sync E R repo ow nm False gps fps ms u = (Inr (), t)"
    and ms: "set ms = {m \<in> set (t_pulls (db s)). pm_RepositoryGitHubID m = rm_GitHubID repo}"
    using pulls_Reconcile_Inr [OF assms(1-4)] by blast
  show ?thesis by (rule pulls_sync_recorded [OF run]) (simp add: ms assms(5,6))
qed

text \<open>C36: what becomes of two GitHub pull requests that share one Forgejo pull request. While the
  database answers, when the Forgejo pull request \<open>f\<close> is held by the mapping of another GitHub
  pull request, pairing \<open>g\<close> with it by equal hashes, after its creation on Forgejo and after its
  creation on GitHub goes on: no mapping changes, and a conflict row names both. Only
  the pass that pairs by index and title fails there: it changes nothing and returns the
  violation of uniqueness, which is an error that the engine records as a mapping collision.\<close>

theorem pulls_pair_collision:
  assumes "\<And>w. fst (e_fault E w) = None"
    and "m \<in> set (t_pulls (db s))" and "pull_pk m \<noteq> (rm_GitHubID repo, p_ID g)" and "pull_uq m = (rm_GitHubID repo, p_ID f)"
    and "0 < rm_GitHubID repo" and "validatePullRequest g = Inr ()" and "validatePullRequest f = Inr ()"
    and "pull_Hash E g \<noteq> []" and "pull_Hash E f \<noteq> []" and "G (p_ID g) = Some g" and "F (p_ID f) = Some f"
  shows "(\<exists>t. pulls_adopt_hash_pair E repo False G F (p_ID g, p_ID f) c s
          = (Inr (insert (p_ID g) (fst c), insert (p_ID f) (snd c)), t)
        \<and> pulls_finish_forgejo E repo g f cg s = (Inr (insert (p_ID g) cg), t)
        \<and> pulls_finish_github E repo g f s = (Inr (), t)
        \<and> t_pulls (db t) = t_pulls (db s)
        \<and> recorded ''pull-request-pairing'' (rm_GitHubFullName repo) (object_key (p_ID g) (p_ID f))
            (pull_Hash E g) (pull_Hash E f) (db t))
    \<and> (\<exists>e t. pulls_adopt_index_pair E repo False G F (p_ID g, p_ID f) c s = (Inl e, t)
        \<and> db t = db s \<and> Contains (Error e) ''UNIQUE constraint failed'')"
proof
  obtain t where "pulls_pair E repo g f s = (Inr False, t)" "t_pulls (db t) = t_pulls (db s)"
    "recorded ''pull-request-pairing'' (rm_GitHubFullName repo) (object_key (p_ID g) (p_ID f)) (pull_Hash E g) (pull_Hash E f) (db t)"
    using taken_slot_recorded [OF assms(1-8)] by blast
  then show "\<exists>t. pulls_adopt_hash_pair E repo False G F (p_ID g, p_ID f) c s
          = (Inr (insert (p_ID g) (fst c), insert (p_ID f) (snd c)), t)
        \<and> pulls_finish_forgejo E repo g f cg s = (Inr (insert (p_ID g) cg), t)
        \<and> pulls_finish_github E repo g f s = (Inr (), t)
        \<and> t_pulls (db t) = t_pulls (db s)
        \<and> recorded ''pull-request-pairing'' (rm_GitHubFullName repo) (object_key (p_ID g) (p_ID f))
            (pull_Hash E g) (pull_Hash E f) (db t)"
    using assms(6,7,10,11)
    by (simp add: pulls_adopt_hash_pair_def pulls_finish_forgejo_def pulls_finish_github_def pulls_of_def
        bnd_app wrapE_app of_sum_app ret_app)
  show "\<exists>e t. pulls_adopt_index_pair E repo False G F (p_ID g, p_ID f) c s = (Inl e, t)
        \<and> db t = db s \<and> Contains (Error e) ''UNIQUE constraint failed''"
    using taken_slot [OF assms(1-7,9)] assms(10,11)
    by (auto simp: pulls_adopt_index_pair_def pulls_of_def Let_def bnd_Inl)
qed

section \<open>Worked examples\<close>

definition sample_pull :: "int \<Rightarrow> string \<Rightarrow> string \<Rightarrow> pull_request" where
  "sample_pull i title head = \<lparr>p_ID = i, p_Index = i, p_Title = title, p_Body = [], p_State = ''open'',
     p_Head = head, p_Base = ''main'', p_Draft = False, p_Merged = False, p_UpdatedAt = 0\<rparr>"

text \<open>A forge that lists the given pull requests, refuses to create with the given error, and
  counts the creations it was asked for.\<close>

definition sample_pull_forge :: "pull_request list \<Rightarrow> go_error \<Rightarrow> (int list) pull_forge" where
  "sample_pull_forge xs e = \<lparr>ListPullRequests = \<lambda>_ _ w. (Inr xs, w), FindPullRequestByHead = \<lambda>_ _ _ w. (Inr None, w),
     CreatePullRequest = \<lambda>_ _ p w. (Inl e, p_ID p # w), UpdatePullRequest = \<lambda>_ _ _ p w. (Inr p, w)\<rparr>"

definition occupied :: go_error where
  "occupied = ForgejoAPI \<lparr>fae_Method = ''POST'', fae_URL = [], fae_StatusCode = 409, fae_RetryAfter = 0\<rparr>"

definition sample_pull_reconciler :: "pull_request list \<Rightarrow> pull_request list \<Rightarrow> (int list) pull_reconciler" where
  "sample_pull_reconciler gps fps =
     \<lparr>pr_github = sample_pull_forge gps ErrNoCommits, pr_forgejo = sample_pull_forge fps occupied\<rparr>"

definition sample_pull_mapping :: pull_request_mapping where
  "sample_pull_mapping = \<lparr>pm_RepositoryGitHubID = 7, pm_GitHubID = 1, pm_ForgejoID = 2,
     pm_GitHubIndex = 1, pm_ForgejoIndex = 2, pm_LastStateHash = ''old'', pm_UpdatedAt = 0\<rparr>"

definition sample_pull_sys :: "pull_request_mapping list \<Rightarrow> (int list) sys" where
  "sample_pull_sys ms = \<lparr>db = empty_store\<lparr>t_repositories := [sample_repository], t_pulls := ms\<rparr>, world = []\<rparr>"

lemma sample_pull_lists [simp]:
  "ListPullRequests (pr_github (sample_pull_reconciler gps fps)) ow nm w = (Inr gps, w)"
  "ListPullRequests (pr_forgejo (sample_pull_reconciler gps fps)) ow nm w = (Inr fps, w)"
  by (simp_all add: sample_pull_reconciler_def sample_pull_forge_def)

abbreviation log_env :: "(int list) env" where "log_env \<equiv> calm_env"

theorem pulls_accounted_witness:
  "pull_accounted sample_repository 5 (db (snd (pulls_Reconcile log_env
     (sample_pull_reconciler [sample_pull 5 ''x'' ''dev''] [sample_pull 6 ''y'' ''other'']) sample_repository False (sample_pull_sys []))))"
proof -
  let ?r = "pulls_Reconcile log_env
     (sample_pull_reconciler [sample_pull 5 ''x'' ''dev''] [sample_pull 6 ''y'' ''other'']) sample_repository False (sample_pull_sys [])"
  have "fst ?r = Inr ()" by code_simp
  then have "?r = (Inr (), snd ?r)" by (rule run_result)
  from pulls_accounted [OF _ this sample_identity sample_pull_lists, of "sample_pull 5 ''x'' ''dev''"]
  show ?thesis by (simp add: sample_pull_def)
qed

theorem pulls_conflicts_recorded_witness:
  "recorded ''pull-request'' ''a/b'' (object_key 1 2) (pull_Hash log_env (sample_pull 1 ''x'' ''dev''))
     (pull_Hash log_env (sample_pull 2 ''y'' ''dev''))
     (db (snd (pulls_Reconcile log_env (sample_pull_reconciler [sample_pull 1 ''x'' ''dev''] [sample_pull 2 ''y'' ''dev''])
        sample_repository False (sample_pull_sys [sample_pull_mapping]))))"
proof -
  let ?g = "sample_pull 1 ''x'' ''dev''" and ?f = "sample_pull 2 ''y'' ''dev''"
  let ?r = "pulls_Reconcile log_env (sample_pull_reconciler [?g] [?f]) sample_repository False (sample_pull_sys [sample_pull_mapping])"
  have "fst ?r = Inr ()" by code_simp
  then have "?r = (Inr (), snd ?r)" by (rule run_result)
  note run = pulls_conflicts_recorded [OF this sample_identity sample_pull_lists, of sample_pull_mapping]
  have "pulls_byID [?g] 1 = Some ?g" "pulls_byID [?f] 2 = Some ?f"
    "three_way (pull_Hash log_env ?g) (pull_Hash log_env ?f) ''old'' = BothChanged"
    by code_simp+
  with run show ?thesis
    by (simp add: pull_conflict_def sample_pull_mapping_def sample_pull_sys_def)
qed

theorem pulls_pair_collision_witness:
  "\<exists>t. pulls_finish_forgejo log_env sample_repository (sample_pull 3 ''x'' ''dev'') (sample_pull 2 ''x'' ''dev'') {}
       (sample_pull_sys [sample_pull_mapping]) = (Inr {3}, t) \<and> t_pulls (db t) = [sample_pull_mapping]"
proof -
  have "pull_Hash log_env (sample_pull 3 ''x'' ''dev'') \<noteq> []" "pull_Hash log_env (sample_pull 2 ''x'' ''dev'') \<noteq> []"
    "validatePullRequest (sample_pull 3 ''x'' ''dev'') = Inr ()"
    "validatePullRequest (sample_pull 2 ''x'' ''dev'') = Inr ()" by code_simp+
  with pulls_pair_collision [of log_env sample_pull_mapping "sample_pull_sys [sample_pull_mapping]" sample_repository
      "sample_pull 3 ''x'' ''dev''" "sample_pull 2 ''x'' ''dev''"
      "\<lambda>_. Some (sample_pull 3 ''x'' ''dev'')" "\<lambda>_. Some (sample_pull 2 ''x'' ''dev'')" _ "{}"]
  show ?thesis by (auto simp: sample_pull_sys_def sample_pull_mapping_def sample_pull_def)
qed

text \<open>An adopted Forgejo pull request is not marked consumed: in the same cycle the second
  creation loop sends it to GitHub again, where only the existing pull request stops it. Here
  GitHub's 5 is adopted onto Forgejo's 6 (same refs, other title and number), and both 5 and 6
  are sent for creation.\<close>

lemma adopted_is_sent_again:
  "world (snd (pulls_Reconcile log_env
     (sample_pull_reconciler [sample_pull 5 ''x'' ''dev''] [sample_pull 6 ''y'' ''dev'']) sample_repository False (sample_pull_sys [])))
   = [6, 5]"
  by code_simp

end
