(* ===== verification/Releases.thy ===== *)
theory Releases
  imports Pairing
begin

text \<open>
  \<open>internal/releases/reconcile.go\<close>: the release reconciler of one mapped repository, with
  the copying of release assets.
\<close>

section \<open>The forge interface and the pure helpers\<close>

record 'w release_forge =
  ListReleases :: "string \<Rightarrow> string \<Rightarrow> ('w, release list) call"
  CreateRelease :: "string \<Rightarrow> string \<Rightarrow> release \<Rightarrow> ('w, release) call"
  UpdateRelease :: "string \<Rightarrow> string \<Rightarrow> int \<Rightarrow> release \<Rightarrow> ('w, release) call"
  DownloadReleaseAsset :: "string \<Rightarrow> string \<Rightarrow> int \<Rightarrow> int \<Rightarrow> ('w, string) call"
  UploadReleaseAsset :: "string \<Rightarrow> string \<Rightarrow> int \<Rightarrow> string \<Rightarrow> string \<Rightarrow> ('w, unit) call"

record 'w release_reconciler =
  lr_github :: "'w release_forge"
  lr_forgejo :: "'w release_forge"
  lr_maxAssetSize :: int

definition zero_release :: release where
  "zero_release = \<lparr>l_ID = 0, l_Tag = [], l_Name = [], l_Body = [], l_Draft = False, l_Prerelease = False,
     l_CreatedAt = time_zero, l_Assets = []\<rparr>"

definition validateRelease :: "release \<Rightarrow> go_error + unit" where
  "validateRelease x =
     (if l_ID x \<le> 0 \<or> l_Tag x = [] then Inl (Err ''release identity or tag is empty'') else Inr ())"

definition validateReleases :: "release list \<Rightarrow> go_error + unit" where
  "validateReleases all = validate_unique validateRelease l_ID ''release'' {} all"

definition releases_byID :: "release list \<Rightarrow> int \<Rightarrow> release option" where
  "releases_byID = index_by l_ID"

definition releases_unconsumed :: "release list \<Rightarrow> int set \<Rightarrow> release list" where
  "releases_unconsumed = unconsumed_by l_ID"

definition releases_uniqueHashPairs :: "'w env \<Rightarrow> release list \<Rightarrow> release list \<Rightarrow> (int \<times> int) list" where
  "releases_uniqueHashPairs E = unique_pairs (release_Hash E) l_ID (\<lambda>_ _. True)"

definition tagPairs :: "release list \<Rightarrow> release list \<Rightarrow> (int \<times> int) list" where
  "tagPairs = unique_pairs l_Tag l_ID (\<lambda>_ _. True)"

definition releaseMapping :: "'w env \<Rightarrow> int \<Rightarrow> release \<Rightarrow> release \<Rightarrow> time \<Rightarrow> release_mapping" where
  "releaseMapping E repositoryID g f t =
     \<lparr>lm_RepositoryGitHubID = repositoryID, lm_GitHubID = l_ID g, lm_ForgejoID = l_ID f,
      lm_Tag = l_Tag g, lm_LastStateHash = release_Hash E g, lm_UpdatedAt = t\<rparr>"

definition releases_stateOrMissing :: "'w env \<Rightarrow> release option \<Rightarrow> string" where
  "releases_stateOrMissing E x =
     (case x of None \<Rightarrow> ''missing'' | Some i \<Rightarrow> release_Hash E i @ '':'' @ FormatInt (l_ID i))"

section \<open>Assets\<close>

definition exceedsAssetLimit ::
  "'w env \<Rightarrow> 'w release_reconciler \<Rightarrow> repository_mapping \<Rightarrow> string \<Rightarrow> release_asset \<Rightarrow> string \<Rightarrow> string \<Rightarrow>
   ('w sys, bool) prog" where
  "exceedsAssetLimit E R repo tag asset source target =
     (if lr_maxAssetSize R \<le> 0 \<or> a_Size asset \<le> lr_maxAssetSize R then ret False
      else tryE (record_conflict E ''release-asset-skipped'' (rm_GitHubFullName repo) (tag @ [slash] @ a_Name asset)
             (source @ '' '' @ FormatInt (a_Size asset) @ '' bytes'')
             (''limit '' @ FormatInt (lr_maxAssetSize R) @ '' bytes'') (target @ ''-copy-skipped'')) (\<lambda>res.
           case res of Inl _ \<Rightarrow> ret False | Inr _ \<Rightarrow> ret True))"

text \<open>One iteration of either loop over the assets; \<open>present\<close> are the names the target has.\<close>

definition copy_asset ::
  "'w env \<Rightarrow> 'w release_reconciler \<Rightarrow> repository_mapping \<Rightarrow> string \<Rightarrow> string \<Rightarrow> string \<Rightarrow> string \<Rightarrow> string \<Rightarrow>
   (int \<Rightarrow> ('w, string) call) \<Rightarrow> (string \<Rightarrow> string \<Rightarrow> ('w, unit) call) \<Rightarrow> string list \<Rightarrow>
   release_asset \<Rightarrow> ('w sys, unit) prog" where
  "copy_asset E R repo tag source target sourceName targetName download upload present asset =
     (if a_Name asset \<in> set present then ret ()
      else bnd (exceedsAssetLimit E R repo tag asset source target) (\<lambda>skip.
        if skip then ret ()
        else bnd (wrapE (''download '' @ sourceName @ '' asset '' @ Quote (a_Name asset))
                (ext (download (a_ID asset)))) (\<lambda>content.
             wrapE (''upload asset '' @ Quote (a_Name asset) @ '' to '' @ targetName)
                (ext (upload (a_Name asset) content)))))"

definition reconcileAssets ::
  "'w env \<Rightarrow> 'w release_reconciler \<Rightarrow> string \<Rightarrow> string \<Rightarrow> repository_mapping \<Rightarrow> release \<Rightarrow> release \<Rightarrow>
   ('w sys, unit) prog" where
  "reconcileAssets E R owner name repo g f =
     (if l_ID g \<le> 0 \<or> l_ID f \<le> 0 then ret ()
      else let forgejoAssets = map a_Name (l_Assets f); githubAssets = map a_Name (l_Assets g)
        in bnd (forE (copy_asset E R repo (l_Tag g) ''github'' ''forgejo'' ''GitHub'' ''Forgejo''
                  (DownloadReleaseAsset (lr_github R) owner name (l_ID g))
                  (UploadReleaseAsset (lr_forgejo R) (rm_ForgejoOwner repo) (rm_ForgejoName repo) (l_ID f))
                  forgejoAssets) (l_Assets g)) (\<lambda>_.
           forE (copy_asset E R repo (l_Tag f) ''forgejo'' ''github'' ''Forgejo'' ''GitHub''
                  (DownloadReleaseAsset (lr_forgejo R) (rm_ForgejoOwner repo) (rm_ForgejoName repo) (l_ID f))
                  (UploadReleaseAsset (lr_github R) owner name (l_ID g))
                  githubAssets) (l_Assets f)))"

section \<open>The phases\<close>

definition releases_advance :: "'w env \<Rightarrow> release_mapping \<Rightarrow> string \<Rightarrow> ('w sys, unit) prog" where
  "releases_advance E m h =
     bnd (now E) (\<lambda>t. UpsertReleaseMapping E (m\<lparr>lm_LastStateHash := h, lm_UpdatedAt := t\<rparr>))"

text \<open>A mapping whose two releases are both listed. The assets are reconciled with the release
  that an update returned; a pair that changed on both sides has its assets reconciled too.\<close>

definition releases_sync_pair ::
  "'w env \<Rightarrow> 'w release_reconciler \<Rightarrow> repository_mapping \<Rightarrow> string \<Rightarrow> string \<Rightarrow> bool \<Rightarrow>
   release_mapping \<Rightarrow> release \<Rightarrow> release \<Rightarrow> ('w sys, unit) prog" where
  "releases_sync_pair E R repo owner name dryRun m g f =
     (if dryRun then ret ()
      else let gh = release_Hash E g; fh = release_Hash E f
        in bnd (case three_way gh fh (lm_LastStateHash m) of
             InSync \<Rightarrow> bnd (whenE (lm_LastStateHash m \<noteq> gh) (releases_advance E m gh)) (\<lambda>_. ret (g, f))
           | CopyToForgejo \<Rightarrow>
               bnd (wrapE (''copy GitHub release '' @ FormatInt (l_ID g) @ '' to Forgejo'')
                 (ext (UpdateRelease (lr_forgejo R) (rm_ForgejoOwner repo) (rm_ForgejoName repo) (l_ID f) g))) (\<lambda>updated.
               bnd (releases_advance E m gh) (\<lambda>_. ret (g, updated)))
           | CopyToGitHub \<Rightarrow>
               bnd (wrapE (''copy Forgejo release '' @ FormatInt (l_ID f) @ '' to GitHub'')
                 (ext (UpdateRelease (lr_github R) owner name (l_ID g) f))) (\<lambda>updated.
               bnd (releases_advance E m fh) (\<lambda>_. ret (updated, f)))
           | BothChanged \<Rightarrow>
               bnd (record_conflict E ''release'' (rm_GitHubFullName repo)
                 (object_key (lm_GitHubID m) (lm_ForgejoID m)) gh fh (lm_LastStateHash m)) (\<lambda>_. ret (g, f)))
           (\<lambda>(g', f'). reconcileAssets E R owner name repo g' f'))"

text \<open>Whatever is listed of a mapped pair is consumed.\<close>

definition releases_consume ::
  "(int \<Rightarrow> release option) \<Rightarrow> (int \<Rightarrow> release option) \<Rightarrow> release_mapping \<Rightarrow> int set \<times> int set \<Rightarrow> int set \<times> int set" where
  "releases_consume githubByID forgejoByID m consumed =
     ((case githubByID (lm_GitHubID m) of None \<Rightarrow> fst consumed | Some g \<Rightarrow> insert (l_ID g) (fst consumed)),
      (case forgejoByID (lm_ForgejoID m) of None \<Rightarrow> snd consumed | Some f \<Rightarrow> insert (l_ID f) (snd consumed)))"

definition releases_reconcile_mapping ::
  "'w env \<Rightarrow> 'w release_reconciler \<Rightarrow> repository_mapping \<Rightarrow> string \<Rightarrow> string \<Rightarrow> bool \<Rightarrow>
   (int \<Rightarrow> release option) \<Rightarrow> (int \<Rightarrow> release option) \<Rightarrow>
   release_mapping \<Rightarrow> int set \<times> int set \<Rightarrow> ('w sys, int set \<times> int set) prog" where
  "releases_reconcile_mapping E R repo owner name dryRun githubByID forgejoByID m consumed =
     bnd (case (githubByID (lm_GitHubID m), forgejoByID (lm_ForgejoID m)) of
            (Some g, Some f) \<Rightarrow> releases_sync_pair E R repo owner name dryRun m g f
          | (x, y) \<Rightarrow> whenE (\<not> dryRun) (record_conflict E ''release-missing'' (rm_GitHubFullName repo)
              (object_key (lm_GitHubID m) (lm_ForgejoID m))
              (releases_stateOrMissing E x) (releases_stateOrMissing E y) (lm_LastStateHash m)))
       (\<lambda>_. ret (releases_consume githubByID forgejoByID m consumed))"

definition releases_of :: "(int \<Rightarrow> release option) \<Rightarrow> int \<Rightarrow> release" where
  "releases_of m i = (case m i of None \<Rightarrow> zero_release | Some x \<Rightarrow> x)"

definition releases_map ::
  "'w env \<Rightarrow> 'w release_reconciler \<Rightarrow> repository_mapping \<Rightarrow> string \<Rightarrow> string \<Rightarrow> release \<Rightarrow> release \<Rightarrow> ('w sys, unit) prog" where
  "releases_map E R repo owner name g f =
     bnd (now E) (\<lambda>t. bnd (UpsertReleaseMapping E (releaseMapping E (rm_GitHubID repo) g f t)) (\<lambda>_.
     reconcileAssets E R owner name repo g f))"

definition releases_adopt_hash_pair ::
  "'w env \<Rightarrow> 'w release_reconciler \<Rightarrow> repository_mapping \<Rightarrow> string \<Rightarrow> string \<Rightarrow> bool \<Rightarrow>
   (int \<Rightarrow> release option) \<Rightarrow> (int \<Rightarrow> release option) \<Rightarrow>
   int \<times> int \<Rightarrow> int set \<times> int set \<Rightarrow> ('w sys, int set \<times> int set) prog" where
  "releases_adopt_hash_pair E R repo owner name dryRun githubByID forgejoByID p consumed =
     bnd (whenE (\<not> dryRun) (releases_map E R repo owner name
            (releases_of githubByID (fst p)) (releases_of forgejoByID (snd p))))
       (\<lambda>_. ret (insert (fst p) (fst consumed), insert (snd p) (snd consumed)))"

definition releases_adopt_tag_pair ::
  "'w env \<Rightarrow> repository_mapping \<Rightarrow> bool \<Rightarrow> (int \<Rightarrow> release option) \<Rightarrow> (int \<Rightarrow> release option) \<Rightarrow>
   int \<times> int \<Rightarrow> int set \<times> int set \<Rightarrow> ('w sys, int set \<times> int set) prog" where
  "releases_adopt_tag_pair E repo dryRun githubByID forgejoByID p consumed =
     (let g = releases_of githubByID (fst p); f = releases_of forgejoByID (snd p)
      in bnd (whenE (\<not> dryRun) (bnd (now E) (\<lambda>t. UpsertReleaseMapping E
              ((releaseMapping E (rm_GitHubID repo) g f t)\<lparr>lm_LastStateHash := release_Hash E f\<rparr>))))
           (\<lambda>_. ret (insert (fst p) (fst consumed), insert (snd p) (snd consumed))))"

definition releases_create_on_forgejo ::
  "'w env \<Rightarrow> 'w release_reconciler \<Rightarrow> repository_mapping \<Rightarrow> string \<Rightarrow> string \<Rightarrow> bool \<Rightarrow> release \<Rightarrow> ('w sys, unit) prog" where
  "releases_create_on_forgejo E R repo owner name dryRun g = whenE (\<not> dryRun)
     (bnd (wrapE (''create Forgejo release from GitHub release '' @ FormatInt (l_ID g))
        (ext (CreateRelease (lr_forgejo R) (rm_ForgejoOwner repo) (rm_ForgejoName repo) g))) (\<lambda>created.
      bnd (wrapE ''invalid created Forgejo release'' (of_sum (validateRelease created))) (\<lambda>_.
      releases_map E R repo owner name g created)))"

definition releases_create_on_github ::
  "'w env \<Rightarrow> 'w release_reconciler \<Rightarrow> repository_mapping \<Rightarrow> string \<Rightarrow> string \<Rightarrow> bool \<Rightarrow> release \<Rightarrow> ('w sys, unit) prog" where
  "releases_create_on_github E R repo owner name dryRun f = whenE (\<not> dryRun)
     (bnd (wrapE (''create GitHub release from Forgejo release '' @ FormatInt (l_ID f))
        (ext (CreateRelease (lr_github R) owner name f))) (\<lambda>created.
      bnd (wrapE ''invalid created GitHub release'' (of_sum (validateRelease created))) (\<lambda>_.
      releases_map E R repo owner name created f)))"

definition releases_sync ::
  "'w env \<Rightarrow> 'w release_reconciler \<Rightarrow> repository_mapping \<Rightarrow> string \<Rightarrow> string \<Rightarrow> bool \<Rightarrow>
   release list \<Rightarrow> release list \<Rightarrow> release_mapping list \<Rightarrow> ('w sys, unit) prog" where
  "releases_sync E R repo owner name dryRun grs frs mappings =
     (let githubByID = releases_byID grs; forgejoByID = releases_byID frs
      in bnd (foldE (releases_reconcile_mapping E R repo owner name dryRun githubByID forgejoByID)
               mappings ({}, {})) (\<lambda>c1.
         bnd (map_range E (releases_uniqueHashPairs E (releases_unconsumed grs (fst c1)) (releases_unconsumed frs (snd c1)))) (\<lambda>paired.
         bnd (foldE (releases_adopt_hash_pair E R repo owner name dryRun githubByID forgejoByID) paired c1) (\<lambda>c2.
         bnd (map_range E (tagPairs (releases_unconsumed grs (fst c2)) (releases_unconsumed frs (snd c2)))) (\<lambda>tagged.
         bnd (foldE (releases_adopt_tag_pair E repo dryRun githubByID forgejoByID) tagged c2) (\<lambda>c3.
         bnd (forE (releases_create_on_forgejo E R repo owner name dryRun) (releases_unconsumed grs (fst c3))) (\<lambda>_.
         forE (releases_create_on_github E R repo owner name dryRun) (releases_unconsumed frs (snd c3)))))))))"

definition releases_Reconcile ::
  "'w env \<Rightarrow> 'w release_reconciler \<Rightarrow> repository_mapping \<Rightarrow> bool \<Rightarrow> ('w sys, unit) prog" where
  "releases_Reconcile E R repo dryRun =
     bnd (of_sum (mapping_identity repo)) (\<lambda>(owner, name).
     bnd (wrapE ''list GitHub releases'' (ext (ListReleases (lr_github R) owner name))) (\<lambda>grs.
     bnd (wrapE ''list Forgejo releases''
       (ext (ListReleases (lr_forgejo R) (rm_ForgejoOwner repo) (rm_ForgejoName repo)))) (\<lambda>frs.
     bnd (wrapE ''invalid GitHub release response'' (of_sum (validateReleases grs))) (\<lambda>_.
     bnd (wrapE ''invalid Forgejo release response'' (of_sum (validateReleases frs))) (\<lambda>_.
     bnd (ListReleaseMappings E (rm_GitHubID repo)) (\<lambda>mappings.
     releases_sync E R repo owner name dryRun grs frs mappings))))))"

section \<open>Frame lemmas\<close>

lemmas releases_defs = exceedsAssetLimit_def copy_asset_def reconcileAssets_def releases_advance_def
  releases_sync_pair_def releases_reconcile_mapping_def releases_map_def releases_adopt_hash_pair_def
  releases_adopt_tag_pair_def releases_create_on_forgejo_def releases_create_on_github_def

lemma releases_steps_honest [guar_intros]:
  "guar (on_db honest) (copy_asset E R repo tag a b sn tn dl ul present asset)"
  "guar (on_db honest) (reconcileAssets E R ow nm repo g f)"
  "guar (on_db honest) (releases_reconcile_mapping E R repo ow nm dry G F m c)"
  "guar (on_db honest) (releases_adopt_hash_pair E R repo ow nm dry G F p c)"
  "guar (on_db honest) (releases_adopt_tag_pair E repo dry G F p c)"
  "guar (on_db honest) (releases_create_on_forgejo E R repo ow nm dry g)"
  "guar (on_db honest) (releases_create_on_github E R repo ow nm dry f)"
  unfolding releases_defs by (intro guar_intros guar_splits guar_decision)+

lemma releases_sync_honest [guar_intros]:
  "guar (on_db honest) (releases_sync E R repo ow nm dry grs frs ms)"
  unfolding releases_sync_def by (intro guar_intros guar_splits)

lemma releases_Reconcile_honest [guar_intros]: "guar (on_db honest) (releases_Reconcile E R repo dry)"
  unfolding releases_Reconcile_def by (intro guar_intros guar_splits)

lemma releases_dry_steps:
  "releases_reconcile_mapping E R repo ow nm True G F m c = ret (releases_consume G F m c)"
  "releases_adopt_hash_pair E R repo ow nm True G F p c = ret (insert (fst p) (fst c), insert (snd p) (snd c))"
  "releases_adopt_tag_pair E repo True G F p c = ret (insert (fst p) (fst c), insert (snd p) (snd c))"
  "releases_create_on_forgejo E R repo ow nm True g = ret ()"
  "releases_create_on_github E R repo ow nm True f = ret ()"
  by (auto simp: releases_reconcile_mapping_def releases_sync_pair_def releases_adopt_hash_pair_def
      releases_adopt_tag_pair_def releases_create_on_forgejo_def releases_create_on_github_def Let_def split: option.split)

lemma releases_sync_dry_unchanged: "guar (on_db unchanged) (releases_sync E R repo ow nm True grs frs ms)"
  unfolding releases_sync_def by (intro guar_intros guar_splits) (simp_all add: releases_dry_steps unchanged.ret_guar)

lemma releases_sync_dry_any:
  "releases_sync E R repo ow nm True grs frs ms = releases_sync E R' repo ow nm True grs frs ms"
proof -
  have "releases_create_on_forgejo E R repo ow nm True = releases_create_on_forgejo E R' repo ow nm True"
    "releases_create_on_github E R repo ow nm True = releases_create_on_github E R' repo ow nm True"
    "releases_adopt_hash_pair E R repo ow nm True = releases_adopt_hash_pair E R' repo ow nm True"
    "releases_reconcile_mapping E R repo ow nm True = releases_reconcile_mapping E R' repo ow nm True"
    by (intro ext; simp add: releases_dry_steps)+
  then show ?thesis unfolding releases_sync_def by simp
qed

section \<open>Which assets are transferred\<close>

definition oversize :: "'w release_reconciler \<Rightarrow> release_asset \<Rightarrow> bool" where
  "oversize R a \<longleftrightarrow> 0 < lr_maxAssetSize R \<and> lr_maxAssetSize R < a_Size a"

text \<open>The assets of one release that the other one lacks and that are not too large.\<close>

definition wanted_assets :: "'w release_reconciler \<Rightarrow> release \<Rightarrow> release \<Rightarrow> release_asset set" where
  "wanted_assets R source target =
     {a \<in> set (l_Assets source). a_Name a \<notin> a_Name ` set (l_Assets target) \<and> \<not> oversize R a}"

definition skip_recorded ::
  "'w release_reconciler \<Rightarrow> repository_mapping \<Rightarrow> string \<Rightarrow> string \<Rightarrow> release_asset \<Rightarrow> store \<Rightarrow> bool" where
  "skip_recorded R repo tag source a d \<longleftrightarrow>
     recorded ''release-asset-skipped'' (rm_GitHubFullName repo) (tag @ [slash] @ a_Name a)
       (source @ '' '' @ FormatInt (a_Size a) @ '' bytes'') (''limit '' @ FormatInt (lr_maxAssetSize R) @ '' bytes'') d"

lemma exceeds_oversize:
  assumes "\<And>w. fst (e_fault E w) = None" and "oversize R a"
  shows "\<exists>t. exceedsAssetLimit E R repo tag a src tgt s = (Inr True, t) \<and> skip_recorded R repo tag src a (db t)"
proof -
  obtain t where t: "record_conflict E ''release-asset-skipped'' (rm_GitHubFullName repo) (tag @ [slash] @ a_Name a)
      (src @ '' '' @ FormatInt (a_Size a) @ '' bytes'') (''limit '' @ FormatInt (lr_maxAssetSize R) @ '' bytes'')
      (tgt @ ''-copy-skipped'') s = (Inr (), t)"
    using record_conflict_succeeds [OF assms(1)] by blast
  with record_conflict_recorded [OF t] assms(2) show ?thesis
    by (auto simp: exceedsAssetLimit_def oversize_def skip_recorded_def tryE_app ret_app)
qed

lemma exceeds_within: "\<not> oversize R a \<Longrightarrow> exceedsAssetLimit E R repo tag a src tgt = ret False"
  by (auto simp: exceedsAssetLimit_def oversize_def)

lemma copy_asset_cong:
  assumes fault: "\<And>w. fst (e_fault E w) = None"
    and "lr_maxAssetSize R' = lr_maxAssetSize R"
    and "a_Name a \<notin> set present \<Longrightarrow> \<not> oversize R a \<Longrightarrow> dl' (a_ID a) = dl (a_ID a) \<and> ul' (a_Name a) = ul (a_Name a)"
  shows "copy_asset E R' repo tag src tgt sn tn dl' ul' present a = copy_asset E R repo tag src tgt sn tn dl ul present a"
proof (rule HOL.ext)
  fix s
  have limit: "exceedsAssetLimit E R' repo tag a src tgt = exceedsAssetLimit E R repo tag a src tgt"
    by (simp add: exceedsAssetLimit_def assms(2))
  show "copy_asset E R' repo tag src tgt sn tn dl' ul' present a s = copy_asset E R repo tag src tgt sn tn dl ul present a s"
  proof (cases "oversize R a")
    case True
    then obtain t where "exceedsAssetLimit E R repo tag a src tgt s = (Inr True, t)"
      using exceeds_oversize [OF fault] by blast
    then show ?thesis by (simp add: copy_asset_def limit bnd_app)
  next
    case False
    with assms(3) show ?thesis by (simp add: copy_asset_def limit exceeds_within bnd_app ret_app)
  qed
qed

lemma reconcileAssets_cong:
  assumes fault: "\<And>w. fst (e_fault E w) = None"
    and "lr_maxAssetSize R' = lr_maxAssetSize R"
    and "\<And>a. a \<in> wanted_assets R g f \<Longrightarrow>
      DownloadReleaseAsset (lr_github R') ow nm (l_ID g) (a_ID a) = DownloadReleaseAsset (lr_github R) ow nm (l_ID g) (a_ID a)
      \<and> UploadReleaseAsset (lr_forgejo R') (rm_ForgejoOwner repo) (rm_ForgejoName repo) (l_ID f) (a_Name a)
        = UploadReleaseAsset (lr_forgejo R) (rm_ForgejoOwner repo) (rm_ForgejoName repo) (l_ID f) (a_Name a)"
    and "\<And>a. a \<in> wanted_assets R f g \<Longrightarrow>
      DownloadReleaseAsset (lr_forgejo R') (rm_ForgejoOwner repo) (rm_ForgejoName repo) (l_ID f) (a_ID a)
        = DownloadReleaseAsset (lr_forgejo R) (rm_ForgejoOwner repo) (rm_ForgejoName repo) (l_ID f) (a_ID a)
      \<and> UploadReleaseAsset (lr_github R') ow nm (l_ID g) (a_Name a) = UploadReleaseAsset (lr_github R) ow nm (l_ID g) (a_Name a)"
  shows "reconcileAssets E R' ow nm repo g f = reconcileAssets E R ow nm repo g f"
  unfolding reconcileAssets_def Let_def
  using assms(3,4)
  by (intro if_cong HOL.refl bnd_cong fun_cong [OF forE_cong] forE_cong copy_asset_cong [OF fault assms(2)])
    (auto simp: wanted_assets_def)

lemma copy_asset_skips:
  assumes fault: "\<And>w. fst (e_fault E w) = None"
    and "copy_asset E R repo tag src tgt sn tn dl ul present a s = (Inr x, t)"
    and "a_Name a \<notin> set present" and "oversize R a"
  shows "skip_recorded R repo tag src a (db t)"
proof -
  obtain u where "exceedsAssetLimit E R repo tag a src tgt s = (Inr True, u)" "skip_recorded R repo tag src a (db u)"
    using exceeds_oversize [OF fault assms(4)] by blast
  with assms(2,3) show ?thesis by (auto simp: copy_asset_def bnd_Inr ret_Inr split: if_splits)
qed

lemma reconcileAssets_skips:
  assumes fault: "\<And>w. fst (e_fault E w) = None"
    and run: "reconcileAssets E R ow nm repo g f s = (Inr (), t)" and "0 < l_ID g" and "0 < l_ID f"
  shows "(\<forall>a \<in> set (l_Assets g). a_Name a \<notin> a_Name ` set (l_Assets f) \<longrightarrow> oversize R a \<longrightarrow>
            skip_recorded R repo (l_Tag g) ''github'' a (db t))
    \<and> (\<forall>a \<in> set (l_Assets f). a_Name a \<notin> a_Name ` set (l_Assets g) \<longrightarrow> oversize R a \<longrightarrow>
            skip_recorded R repo (l_Tag f) ''forgejo'' a (db t))"
proof -
  let ?A = "copy_asset E R repo (l_Tag g) ''github'' ''forgejo'' ''GitHub'' ''Forgejo''
      (DownloadReleaseAsset (lr_github R) ow nm (l_ID g))
      (UploadReleaseAsset (lr_forgejo R) (rm_ForgejoOwner repo) (rm_ForgejoName repo) (l_ID f)) (map a_Name (l_Assets f))"
  let ?B = "copy_asset E R repo (l_Tag f) ''forgejo'' ''github'' ''Forgejo'' ''GitHub''
      (DownloadReleaseAsset (lr_forgejo R) (rm_ForgejoOwner repo) (rm_ForgejoName repo) (l_ID f))
      (UploadReleaseAsset (lr_github R) ow nm (l_ID g)) (map a_Name (l_Assets g))"
  obtain u where a: "forE ?A (l_Assets g) s = (Inr (), u)" and b: "forE ?B (l_Assets f) u = (Inr (), t)"
    using run assms(3,4) by (auto simp: reconcileAssets_def Let_def bnd_Inr)
  have stable: "honest d d' \<Longrightarrow> skip_recorded R repo tag src x d \<Longrightarrow> skip_recorded R repo tag src x d'" for tag src x d d'
    unfolding skip_recorded_def by (rule recorded_honest)
  have "\<forall>a \<in> set (l_Assets g). a_Name a \<notin> a_Name ` set (l_Assets f) \<longrightarrow> oversize R a \<longrightarrow>
            skip_recorded R repo (l_Tag g) ''github'' a (db u)"
    by (rule forE_each [OF a releases_steps_honest(1)]) (auto intro: stable dest: copy_asset_skips [OF fault])
  moreover have "\<forall>a \<in> set (l_Assets f). a_Name a \<notin> a_Name ` set (l_Assets g) \<longrightarrow> oversize R a \<longrightarrow>
            skip_recorded R repo (l_Tag f) ''forgejo'' a (db t)"
    by (rule forE_each [OF b releases_steps_honest(1)]) (auto intro: stable dest: copy_asset_skips [OF fault])
  moreover have "honest (db u) (db t)" by (rule forE_Inr_honest [OF b releases_steps_honest(1)])
  ultimately show ?thesis using stable by blast
qed

section \<open>Survivors of a mapping are pinned\<close>

lemma consume_mono: "fst c \<subseteq> fst (releases_consume G F m c) \<and> snd c \<subseteq> snd (releases_consume G F m c)"
  by (auto simp: releases_consume_def split: option.splits)

lemma consume_fold_mono:
  "fst c \<subseteq> fst (fold (releases_consume G F) ms c) \<and> snd c \<subseteq> snd (fold (releases_consume G F) ms c)"
proof (induction ms arbitrary: c)
  case (Cons m ms)
  from Cons.IH [of "releases_consume G F m c"] consume_mono [of c G F m] show ?case
    unfolding fold_simps by blast
qed simp

lemma consume_adds:
  "G (lm_GitHubID m) = Some g \<Longrightarrow> l_ID g \<in> fst (releases_consume G F m c)"
  "F (lm_ForgejoID m) = Some f \<Longrightarrow> l_ID f \<in> snd (releases_consume G F m c)"
  by (simp_all add: releases_consume_def)

lemma consume_fold:
  assumes "m \<in> set ms"
  shows "(\<forall>g. G (lm_GitHubID m) = Some g \<longrightarrow> l_ID g \<in> fst (fold (releases_consume G F) ms c))
     \<and> (\<forall>f. F (lm_ForgejoID m) = Some f \<longrightarrow> l_ID f \<in> snd (fold (releases_consume G F) ms c))"
  using assms
proof (induction ms arbitrary: c)
  case (Cons x ms)
  show ?case
  proof (cases "m = x")
    case True
    with consume_fold_mono [of "releases_consume G F x c" G F ms] show ?thesis
      unfolding fold_simps by (metis consume_adds subsetD)
  next
    case False
    with Cons show ?thesis unfolding fold_simps by simp
  qed
qed simp

lemma pinned:
  assumes loop: "foldE (releases_reconcile_mapping E R repo ow nm dry (releases_byID grs) (releases_byID frs)) ms ({}, {}) s = (Inr c, t)"
    and m: "m \<in> set ms"
  shows "x \<in> set grs \<Longrightarrow> l_ID x = lm_GitHubID m \<Longrightarrow> l_ID x \<in> fst c"
    and "y \<in> set frs \<Longrightarrow> l_ID y = lm_ForgejoID m \<Longrightarrow> l_ID y \<in> snd c"
proof -
  have c: "c = fold (releases_consume (releases_byID grs) (releases_byID frs)) ms ({}, {})"
    by (rule foldE_acc [OF loop]) (auto simp: releases_reconcile_mapping_def bnd_Inr ret_Inr)
  have listed: "\<exists>y. releases_byID xs (l_ID x) = Some y \<and> l_ID y = l_ID x" if "x \<in> set xs" for x xs
    using that index_by_None [of l_ID xs "l_ID x"]
    by (cases "releases_byID xs (l_ID x)") (auto simp: releases_byID_def dest: index_by_Some)
  show "x \<in> set grs \<Longrightarrow> l_ID x = lm_GitHubID m \<Longrightarrow> l_ID x \<in> fst c"
    using listed [of x grs] consume_fold [OF m] c by metis
  show "y \<in> set frs \<Longrightarrow> l_ID y = lm_ForgejoID m \<Longrightarrow> l_ID y \<in> snd c"
    using listed [of y frs] consume_fold [OF m] c by metis
qed

lemma releases_steps_create:
  assumes "R' = R\<lparr>lr_github := (lr_github R)\<lparr>CreateRelease := c'\<rparr>, lr_forgejo := (lr_forgejo R)\<lparr>CreateRelease := c\<rparr>\<rparr>"
  shows "reconcileAssets E R' ow nm repo = reconcileAssets E R ow nm repo"
    and "releases_map E R' repo ow nm = releases_map E R repo ow nm"
    and "releases_reconcile_mapping E R' repo ow nm dry = releases_reconcile_mapping E R repo ow nm dry"
    and "releases_adopt_hash_pair E R' repo ow nm dry = releases_adopt_hash_pair E R repo ow nm dry"
proof -
  have copy: "copy_asset E R' = copy_asset E R" by (simp add: fun_eq_iff copy_asset_def exceedsAssetLimit_def assms)
  show assets: "reconcileAssets E R' ow nm repo = reconcileAssets E R ow nm repo"
    by (simp add: fun_eq_iff reconcileAssets_def copy) (simp add: assms)
  show map: "releases_map E R' repo ow nm = releases_map E R repo ow nm"
    by (simp add: fun_eq_iff releases_map_def assets)
  show "releases_adopt_hash_pair E R' repo ow nm dry = releases_adopt_hash_pair E R repo ow nm dry"
    unfolding releases_adopt_hash_pair_def map ..
  have pair: "releases_sync_pair E R' repo ow nm dry = releases_sync_pair E R repo ow nm dry"
    unfolding releases_sync_pair_def assets
    by (intro HOL.ext) (simp add: assms cong: decision.case_cong if_cong)
  show "releases_reconcile_mapping E R' repo ow nm dry = releases_reconcile_mapping E R repo ow nm dry"
    unfolding releases_reconcile_mapping_def pair ..
qed

section \<open>Properties\<close>

text \<open>A dry run writes nothing, and depends on nothing of the forges but their listings.\<close>

lemma releases_Reconcile_dry_unchanged [guar_intros]: "guar (on_db unchanged) (releases_Reconcile E R repo True)"
  unfolding releases_Reconcile_def by (intro guar_intros guar_splits releases_sync_dry_unchanged)

lemma releases_Reconcile_dry_reads:
  assumes "ListReleases (lr_github R') = ListReleases (lr_github R)"
    and "ListReleases (lr_forgejo R') = ListReleases (lr_forgejo R)"
  shows "releases_Reconcile E R' repo True = releases_Reconcile E R repo True"
proof -
  have "releases_sync E R' repo ow nm True = releases_sync E R repo ow nm True" for ow nm
    by (intro HOL.ext releases_sync_dry_any)
  then show ?thesis by (simp add: releases_Reconcile_def assms)
qed

text \<open>Adopting pairs only adds to the consumed releases.\<close>

lemma releases_adopt_grows:
  assumes "foldE (releases_adopt_hash_pair E R repo ow nm dry G F) ps C u = (Inr D, v)
    \<or> foldE (releases_adopt_tag_pair E repo dry G F) ps C u = (Inr D, v)"
  shows "fst C \<subseteq> fst D \<and> snd C \<subseteq> snd D"
proof -
  have "D = fold (\<lambda>p c. (insert (fst p) (fst c), insert (snd p) (snd c))) ps C"
    using assms by (elim disjE) (erule foldE_acc, auto simp: releases_adopt_hash_pair_def
      releases_adopt_tag_pair_def Let_def bnd_Inr ret_Inr)+
  then show ?thesis by (auto simp: fold_consume_pairs)
qed

text \<open>C38: a mapped release that vanished from one side is never recreated there: the survivor is
  pinned to its mapping. Whatever the create operations would do with a release whose number a
  mapping of the repository holds, the run is the same.\<close>

theorem releases_never_recreated:
  assumes "\<And>o' n x w. l_ID x \<notin> lm_GitHubID ` set ms \<Longrightarrow> c o' n x w = CreateRelease (lr_forgejo R) o' n x w"
    and "\<And>o' n x w. l_ID x \<notin> lm_ForgejoID ` set ms \<Longrightarrow> c' o' n x w = CreateRelease (lr_github R) o' n x w"
  shows "releases_sync E (R\<lparr>lr_github := (lr_github R)\<lparr>CreateRelease := c'\<rparr>, lr_forgejo := (lr_forgejo R)\<lparr>CreateRelease := c\<rparr>\<rparr>)
      repo ow nm dry grs frs ms s
    = releases_sync E R repo ow nm dry grs frs ms s"
proof -
  let ?R = "R\<lparr>lr_github := (lr_github R)\<lparr>CreateRelease := c'\<rparr>, lr_forgejo := (lr_forgejo R)\<lparr>CreateRelease := c\<rparr>\<rparr>"
  note same = releases_steps_create [where R' = ?R and R = R and c = c and c' = c', OF HOL.refl]
  have a: "c o' n x = CreateRelease (lr_forgejo R) o' n x" if "l_ID x \<notin> lm_GitHubID ` set ms" for o' n x
    by (rule HOL.ext) (rule assms(1) [OF that])
  have b: "c' o' n x = CreateRelease (lr_github R) o' n x" if "l_ID x \<notin> lm_ForgejoID ` set ms" for o' n x
    by (rule HOL.ext) (rule assms(2) [OF that])
  have f: "releases_create_on_forgejo E ?R repo ow nm dry x = releases_create_on_forgejo E R repo ow nm dry x"
    if "l_ID x \<notin> lm_GitHubID ` set ms" for x
    by (simp add: releases_create_on_forgejo_def same a [OF that])
  have g: "releases_create_on_github E ?R repo ow nm dry x = releases_create_on_github E R repo ow nm dry x"
    if "l_ID x \<notin> lm_ForgejoID ` set ms" for x
    by (simp add: releases_create_on_github_def same b [OF that])
  let ?pinned = "\<lambda>C. (\<forall>x \<in> set grs. l_ID x \<in> lm_GitHubID ` set ms \<longrightarrow> l_ID x \<in> fst C)
      \<and> (\<forall>x \<in> set frs. l_ID x \<in> lm_ForgejoID ` set ms \<longrightarrow> l_ID x \<in> snd C)"
  have tail: "forE (releases_create_on_forgejo E ?R repo ow nm dry) (releases_unconsumed grs (fst C))
        = forE (releases_create_on_forgejo E R repo ow nm dry) (releases_unconsumed grs (fst C))
      \<and> forE (releases_create_on_github E ?R repo ow nm dry) (releases_unconsumed frs (snd C))
        = forE (releases_create_on_github E R repo ow nm dry) (releases_unconsumed frs (snd C))"
    if "?pinned C" for C
    by (intro conjI forE_cong f g) (use that in \<open>auto simp: releases_unconsumed_def set_unconsumed_by\<close>)
  have kept: "?pinned c3"
    if "foldE (releases_reconcile_mapping E R repo ow nm dry (releases_byID grs) (releases_byID frs)) ms ({}, {}) s1 = (Inr c1, t1)"
      and "foldE (releases_adopt_hash_pair E R repo ow nm dry (releases_byID grs) (releases_byID frs)) ps c1 s3 = (Inr c2, t3)"
      and "foldE (releases_adopt_tag_pair E repo dry (releases_byID grs) (releases_byID frs)) qs c2 s5 = (Inr c3, t5)"
    for s1 c1 t1 ps s3 c2 t3 qs s5 c3 t5
  proof -
    have "?pinned c1" using pinned [OF that(1)] by fastforce
    moreover have "fst c1 \<subseteq> fst c2 \<and> snd c1 \<subseteq> snd c2" by (rule releases_adopt_grows) (rule disjI1 [OF that(2)])
    moreover have "fst c2 \<subseteq> fst c3 \<and> snd c2 \<subseteq> snd c3" by (rule releases_adopt_grows) (rule disjI2 [OF that(3)])
    ultimately show ?thesis by blast
  qed
  show ?thesis
    unfolding releases_sync_def Let_def same
  proof (intro fun_cong [OF bnd_cong] HOL.refl, goal_cases)
    case 1
    from tail [OF kept [OF 1(1,3,5)]] show ?case by simp
  next
    case 2
    from tail [OF kept [OF 2(1,3,5)]] show ?case by simp
  qed
qed

text \<open>when the database answers, assets are only ever transferred when the other release lacks
  an asset of that name, and never when they are larger than the configured limit: the download
  and upload operations are used for such assets only, and no asset is overwritten.\<close>

theorem assets_transferred_if_wanted:
  assumes "\<And>w. fst (e_fault E w) = None"
    and "lr_maxAssetSize R' = lr_maxAssetSize R"
    and "\<And>a. a \<in> wanted_assets R g f \<Longrightarrow>
      DownloadReleaseAsset (lr_github R') ow nm (l_ID g) (a_ID a) = DownloadReleaseAsset (lr_github R) ow nm (l_ID g) (a_ID a)
      \<and> UploadReleaseAsset (lr_forgejo R') (rm_ForgejoOwner repo) (rm_ForgejoName repo) (l_ID f) (a_Name a)
        = UploadReleaseAsset (lr_forgejo R) (rm_ForgejoOwner repo) (rm_ForgejoName repo) (l_ID f) (a_Name a)"
    and "\<And>a. a \<in> wanted_assets R f g \<Longrightarrow>
      DownloadReleaseAsset (lr_forgejo R') (rm_ForgejoOwner repo) (rm_ForgejoName repo) (l_ID f) (a_ID a)
        = DownloadReleaseAsset (lr_forgejo R) (rm_ForgejoOwner repo) (rm_ForgejoName repo) (l_ID f) (a_ID a)
      \<and> UploadReleaseAsset (lr_github R') ow nm (l_ID g) (a_Name a) = UploadReleaseAsset (lr_github R) ow nm (l_ID g) (a_Name a)"
  shows "reconcileAssets E R' ow nm repo g f s = reconcileAssets E R ow nm repo g f s"
  by (rule fun_cong [OF reconcileAssets_cong [OF assms]])

text \<open>an asset that is not copied because of its size is never skipped silently: when the
  database answers, a reconciliation of the assets that returns no error has recorded every
  oversize asset that the other side lacks, with its size and the limit.\<close>

theorem oversize_assets_recorded:
  assumes "\<And>w. fst (e_fault E w) = None"
    and "reconcileAssets E R ow nm repo g f s = (Inr (), t)" and "0 < l_ID g" and "0 < l_ID f"
  shows "(\<forall>a \<in> set (l_Assets g). a_Name a \<notin> a_Name ` set (l_Assets f) \<longrightarrow> oversize R a \<longrightarrow>
            skip_recorded R repo (l_Tag g) ''github'' a (db t))
    \<and> (\<forall>a \<in> set (l_Assets f). a_Name a \<notin> a_Name ` set (l_Assets g) \<longrightarrow> oversize R a \<longrightarrow>
            skip_recorded R repo (l_Tag f) ''forgejo'' a (db t))"
  by (rule reconcileAssets_skips [OF assms])

section \<open>Worked examples\<close>

definition sample_release :: "int \<Rightarrow> string \<Rightarrow> release_asset list \<Rightarrow> release" where
  "sample_release i tag assets = \<lparr>l_ID = i, l_Tag = tag, l_Name = tag, l_Body = [], l_Draft = False,
     l_Prerelease = False, l_CreatedAt = 0, l_Assets = assets\<rparr>"

definition sample_release_forge :: "release list \<Rightarrow> unit release_forge" where
  "sample_release_forge xs = \<lparr>ListReleases = \<lambda>_ _ w. (Inr xs, w),
     CreateRelease = \<lambda>_ _ x w. (Inr (x\<lparr>l_ID := l_ID x + 50\<rparr>), w),
     UpdateRelease = \<lambda>_ _ _ x w. (Inr x, w), DownloadReleaseAsset = \<lambda>_ _ _ _ w. (Inr ''data'', w),
     UploadReleaseAsset = \<lambda>_ _ _ _ _ w. (Inr (), w)\<rparr>"

definition sample_release_reconciler :: "unit release_reconciler" where
  "sample_release_reconciler = \<lparr>lr_github = sample_release_forge [], lr_forgejo = sample_release_forge [],
     lr_maxAssetSize = 10\<rparr>"

definition sample_release_mapping :: release_mapping where
  "sample_release_mapping = \<lparr>lm_RepositoryGitHubID = 7, lm_GitHubID = 1, lm_ForgejoID = 2, lm_Tag = ''v1'',
     lm_LastStateHash = ''old'', lm_UpdatedAt = 0\<rparr>"

definition sample_assets :: "release_asset list" where
  "sample_assets = [\<lparr>a_ID = 4, a_Name = ''small'', a_Size = 3\<rparr>, \<lparr>a_ID = 5, a_Name = ''big'', a_Size = 99\<rparr>]"

theorem releases_never_recreated_witness:
  "releases_sync unit_env (sample_release_reconciler\<lparr>
        lr_github := (sample_release_forge [])\<lparr>CreateRelease := CreateRelease (sample_release_forge [])\<rparr>,
        lr_forgejo := (sample_release_forge [])\<lparr>CreateRelease :=
          \<lambda>o' n x w. if l_ID x = 1 then (Inl (Err ''recreated''), w) else CreateRelease (sample_release_forge []) o' n x w\<rparr>\<rparr>)
      sample_repository ''a'' ''b'' False [sample_release 1 ''v1'' []] [] [sample_release_mapping] sample_sys
   = releases_sync unit_env sample_release_reconciler
      sample_repository ''a'' ''b'' False [sample_release 1 ''v1'' []] [] [sample_release_mapping] sample_sys"
  using releases_never_recreated [of "[sample_release_mapping]"
      "\<lambda>o' n x w. if l_ID x = 1 then (Inl (Err ''recreated''), w) else CreateRelease (sample_release_forge []) o' n x w"
      sample_release_reconciler "CreateRelease (sample_release_forge [])" unit_env sample_repository "''a''" "''b''" False
      "[sample_release 1 ''v1'' []]" "[]" sample_sys]
  by (simp add: sample_release_mapping_def sample_release_reconciler_def)

theorem assets_transferred_if_wanted_witness:
  "reconcileAssets unit_env (sample_release_reconciler\<lparr>lr_github := (sample_release_forge [])\<lparr>DownloadReleaseAsset :=
        \<lambda>_ _ _ i w. if i = 5 then (Inl (Err ''too large''), w) else (Inr ''data'', w)\<rparr>\<rparr>)
      ''a'' ''b'' sample_repository (sample_release 1 ''v1'' sample_assets) (sample_release 2 ''v1'' []) sample_sys
   = reconcileAssets unit_env sample_release_reconciler
      ''a'' ''b'' sample_repository (sample_release 1 ''v1'' sample_assets) (sample_release 2 ''v1'' []) sample_sys"
proof (rule assets_transferred_if_wanted)
  fix a assume "a \<in> wanted_assets sample_release_reconciler (sample_release 1 ''v1'' sample_assets) (sample_release 2 ''v1'' [])"
  then have "a_ID a = 4"
    by (auto simp: wanted_assets_def sample_release_def sample_assets_def oversize_def sample_release_reconciler_def)
  then show "DownloadReleaseAsset (lr_github (sample_release_reconciler\<lparr>lr_github := (sample_release_forge [])\<lparr>DownloadReleaseAsset :=
        \<lambda>_ _ _ i w. if i = 5 then (Inl (Err ''too large''), w) else (Inr ''data'', w)\<rparr>\<rparr>)) ''a'' ''b''
          (l_ID (sample_release 1 ''v1'' sample_assets)) (a_ID a)
      = DownloadReleaseAsset (lr_github sample_release_reconciler) ''a'' ''b'' (l_ID (sample_release 1 ''v1'' sample_assets)) (a_ID a)
    \<and> UploadReleaseAsset (lr_forgejo (sample_release_reconciler\<lparr>lr_github := (sample_release_forge [])\<lparr>DownloadReleaseAsset :=
        \<lambda>_ _ _ i w. if i = 5 then (Inl (Err ''too large''), w) else (Inr ''data'', w)\<rparr>\<rparr>)) (rm_ForgejoOwner sample_repository)
          (rm_ForgejoName sample_repository) (l_ID (sample_release 2 ''v1'' [])) (a_Name a)
      = UploadReleaseAsset (lr_forgejo sample_release_reconciler) (rm_ForgejoOwner sample_repository)
          (rm_ForgejoName sample_repository) (l_ID (sample_release 2 ''v1'' [])) (a_Name a)"
    by (simp add: sample_release_reconciler_def sample_release_forge_def)
qed (simp_all add: wanted_assets_def sample_release_def)

theorem oversize_assets_recorded_witness:
  "recorded ''release-asset-skipped'' ''a/b'' ''v1/big'' ''github 99 bytes'' ''limit 10 bytes''
     (db (snd (reconcileAssets unit_env sample_release_reconciler ''a'' ''b'' sample_repository
        (sample_release 1 ''v1'' sample_assets) (sample_release 2 ''v1'' []) sample_sys)))"
proof -
  let ?r = "reconcileAssets unit_env sample_release_reconciler ''a'' ''b'' sample_repository
        (sample_release 1 ''v1'' sample_assets) (sample_release 2 ''v1'' []) sample_sys"
  have "fst ?r = Inr ()" by code_simp
  then have "?r = (Inr (), snd ?r)" by (rule run_result)
  note run = oversize_assets_recorded [OF _ this]
  have "FormatInt 99 = ''99''" "FormatInt 10 = ''10''" by code_simp+
  with run show ?thesis
    by (simp add: sample_release_def sample_assets_def oversize_def sample_release_reconciler_def skip_recorded_def)
qed

end
