(* ===== verification/Secrets.thy ===== *)
theory Secrets
  imports Pairing
begin

text \<open>
  \<open>internal/secrets/reconcile.go\<close>: the configured Actions secrets of a repository are set on
  Forgejo. (\<open>sort.Slice\<close> is not stable; the configuration holds a name at most once per
  repository, so the order is determined.)
\<close>

type_synonym 'w secret_forge = "string \<Rightarrow> string \<Rightarrow> string \<Rightarrow> string \<Rightarrow> ('w, unit) call"

definition secrets_byRepo :: "action_secret list \<Rightarrow> string \<Rightarrow> action_secret list" where
  "secrets_byRepo configured repo = sort_key s_Name (filter (\<lambda>s. s_Repository s = repo) configured)"

definition secrets_Reconcile ::
  "'w secret_forge \<Rightarrow> action_secret list \<Rightarrow> repository_mapping \<Rightarrow> bool \<Rightarrow> ('w sys, unit) prog" where
  "secrets_Reconcile setActionSecret configured mapping dryRun =
     (let mine = secrets_byRepo configured (rm_GitHubFullName mapping)
      in if mine = [] \<or> dryRun then ret ()
         else if rm_ForgejoOwner mapping = [] \<or> rm_ForgejoName mapping = []
         then throw (Err (''Forgejo mapping for '' @ rm_GitHubFullName mapping @ '' is incomplete''))
         else forE (\<lambda>s. wrapE (''synchronize Actions secret '' @ Quote (s_Name s) @ '' for '' @ rm_GitHubFullName mapping)
                (ext (setActionSecret (rm_ForgejoOwner mapping) (rm_ForgejoName mapping) (s_Name s) (s_Value s)))) mine)"

lemma secrets_unchanged [guar_intros]: "guar (on_db unchanged) (secrets_Reconcile f cs m dry)"
  unfolding secrets_Reconcile_def by (intro guar_intros guar_splits)

lemma secrets_honest [guar_intros]: "guar (on_db honest) (secrets_Reconcile f cs m dry)"
  by (rule unchanged_guar_honest [OF secrets_unchanged])

lemma set_secrets_byRepo: "set (secrets_byRepo cs r) = {s \<in> set cs. s_Repository s = r}"
  by (simp add: secrets_byRepo_def)

text \<open>C29: a secret never leaves for another repository: the only calls are for secrets that are
  configured for the mapped repository, with the mapping's Forgejo owner and name, and a dry run
  makes none. Stated by exchanging the operation for one that agrees on those calls.\<close>

theorem secrets_stay_home:
  assumes "\<And>s w. s \<in> set configured \<Longrightarrow> s_Repository s = rm_GitHubFullName mapping \<Longrightarrow> \<not> dryRun \<Longrightarrow>
      g (rm_ForgejoOwner mapping) (rm_ForgejoName mapping) (s_Name s) (s_Value s) w
      = f (rm_ForgejoOwner mapping) (rm_ForgejoName mapping) (s_Name s) (s_Value s) w"
  shows "secrets_Reconcile g configured mapping dryRun st = secrets_Reconcile f configured mapping dryRun st"
proof (cases dryRun)
  case False
  let ?call = "\<lambda>h s. wrapE (''synchronize Actions secret '' @ Quote (s_Name s) @ '' for '' @ rm_GitHubFullName mapping)
      (ext (h (rm_ForgejoOwner mapping) (rm_ForgejoName mapping) (s_Name s) (s_Value s)))"
  have "forE (?call g) (secrets_byRepo configured (rm_GitHubFullName mapping))
      = forE (?call f) (secrets_byRepo configured (rm_GitHubFullName mapping))"
  proof (rule forE_cong)
    fix s assume "s \<in> set (secrets_byRepo configured (rm_GitHubFullName mapping))"
    then have "g (rm_ForgejoOwner mapping) (rm_ForgejoName mapping) (s_Name s) (s_Value s)
        = f (rm_ForgejoOwner mapping) (rm_ForgejoName mapping) (s_Name s) (s_Value s)"
      by (intro HOL.ext assms) (simp_all add: set_secrets_byRepo False)
    then show "?call g s = ?call f s" by simp
  qed
  then show ?thesis by (simp add: secrets_Reconcile_def Let_def)
qed (simp add: secrets_Reconcile_def)

theorem secrets_stay_home_witness:
  "secrets_Reconcile (\<lambda>o' n s v w. if n = ''b'' \<and> s = ''K'' then (Inr (), w) else (Inl (Err ''leak''), w))
      [\<lparr>s_Repository = ''a/b'', s_Name = ''K'', s_Value = ''v''\<rparr>, \<lparr>s_Repository = ''a/c'', s_Name = ''L'', s_Value = ''w''\<rparr>]
      sample_repository False sample_sys
   = secrets_Reconcile (\<lambda>o' n s v w. (Inr (), w))
      [\<lparr>s_Repository = ''a/b'', s_Name = ''K'', s_Value = ''v''\<rparr>, \<lparr>s_Repository = ''a/c'', s_Name = ''L'', s_Value = ''w''\<rparr>]
      sample_repository False sample_sys"
  by (rule secrets_stay_home) auto

end
