(* ===== verification/Repositories.thy ===== *)
theory Repositories
  imports Pairing
begin

text \<open>
  \<open>internal/repository/reconcile.go\<close>: discovery of the repositories of the allowed namespaces,
  pairing with Forgejo repositories, migration of the missing ones, and the repository mapping.
  An error drops the partial inventory, which no caller reads.
\<close>

section \<open>Interfaces and configuration\<close>

record 'w discovery_github =
  dg_ListRepositories :: "string \<Rightarrow> ('w, repository list) call"

record 'w discovery_forgejo =
  df_ListRepositories :: "string \<Rightarrow> ('w, repository list) call"
  MigrateRepository :: "repository \<Rightarrow> string \<Rightarrow> ('w, repository) call"
  UpdateRepositoryIdentity :: "string \<Rightarrow> string \<Rightarrow> string \<Rightarrow> string \<Rightarrow> ('w, unit) call"
  UpdateRepositorySettings :: "repository \<Rightarrow> ('w, unit) call"

record 'w repository_reconciler =
  rr_github :: "'w discovery_github"
  rr_forgejo :: "'w discovery_forgejo"
  rr_githubToken :: string
  rr_ownerMap :: "(string \<times> string) list"
  rr_repoMap :: "(string \<times> string) list"

definition forgejoOwner :: "'w repository_reconciler \<Rightarrow> string \<Rightarrow> string" where
  "forgejoOwner R namespace =
     (case map_of (rr_ownerMap R) namespace of
        Some owner \<Rightarrow> if owner \<noteq> [] then owner else namespace | None \<Rightarrow> namespace)"

definition forgejoTarget :: "'w repository_reconciler \<Rightarrow> repository \<Rightarrow> string \<Rightarrow> string \<times> string" where
  "forgejoTarget R source namespaceOwner =
     (case map_of (rr_repoMap R) (r_FullName source) of
        Some target \<Rightarrow> (case Cut slash target of (owner, name, ok) \<Rightarrow>
            if ok \<and> owner \<noteq> [] \<and> name \<noteq> [] then (owner, name) else (namespaceOwner, r_Name source))
      | None \<Rightarrow> (namespaceOwner, r_Name source))"

definition validateRepository :: "repository \<Rightarrow> go_error + unit" where
  "validateRepository r =
     (if r_ID r \<le> 0 \<or> r_Name r = [] \<or> r_FullName r = [] \<or> r_Owner r = []
      then Inl (Err ''GitHub returned an incomplete repository'')
      else if r_FullName r \<noteq> r_Owner r @ [slash] @ r_Name r
      then Inl (Err (''GitHub repository '' @ Quote (r_FullName r) @ '' has a malformed full name''))
      else Inr ())"

definition mappingForPair :: "'w env \<Rightarrow> repository \<Rightarrow> string \<Rightarrow> string \<Rightarrow> time \<Rightarrow> repository_mapping" where
  "mappingForPair E source owner name t =
     \<lparr>rm_GitHubID = r_ID source, rm_GitHubFullName = r_FullName source, rm_ForgejoOwner = owner,
      rm_ForgejoName = name, rm_Visibility = r_Visibility source, rm_Archived = r_Archived source,
      rm_SizeKB = r_SizeKB source, rm_LastStateHash = repositoryHash E source, rm_UpdatedAt = t\<rparr>"

definition mappingFor :: "'w env \<Rightarrow> repository \<Rightarrow> time \<Rightarrow> repository_mapping" where
  "mappingFor E r t =
     \<lparr>rm_GitHubID = r_ID r, rm_GitHubFullName = r_FullName r, rm_ForgejoOwner = r_Owner r,
      rm_ForgejoName = r_Name r, rm_Visibility = r_Visibility r, rm_Archived = r_Archived r,
      rm_SizeKB = r_SizeKB r, rm_LastStateHash = repositoryHash E r, rm_UpdatedAt = t\<rparr>"

section \<open>One repository\<close>

text \<open>The target: the source with the owner and full name of its Forgejo counterpart. The field
  \<open>Name\<close> stays the source's.\<close>

definition discovery_target :: "'w repository_reconciler \<Rightarrow> string \<Rightarrow> repository \<Rightarrow> repository" where
  "discovery_target R nsOwner source =
     (case forgejoTarget R source nsOwner of (owner, name) \<Rightarrow>
        source\<lparr>r_Owner := owner, r_FullName := owner @ [slash] @ name\<rparr>)"

definition store_pair :: "'w env \<Rightarrow> repository \<Rightarrow> string \<Rightarrow> string \<Rightarrow> ('w sys, unit) prog" where
  "store_pair E source owner name =
     bnd (now E) (\<lambda>t. UpsertRepository E (mappingForPair E source owner name t))"

definition discover_mapped ::
  "'w env \<Rightarrow> 'w repository_reconciler \<Rightarrow> bool \<Rightarrow> repository \<Rightarrow> repository \<Rightarrow> repository_mapping \<Rightarrow> ('w sys, unit) prog" where
  "discover_mapped E R dryRun source target m = whenE (\<not> dryRun)
     (bnd (whenE (rm_ForgejoOwner m \<noteq> r_Owner target \<or> rm_ForgejoName m \<noteq> r_Name target)
        (wrapE (''update identity for GitHub repository '' @ FormatInt (r_ID source))
          (ext (UpdateRepositoryIdentity (rr_forgejo R) (rm_ForgejoOwner m) (rm_ForgejoName m)
            (r_Owner target) (r_Name target))))) (\<lambda>_.
      bnd (whenE (rm_Visibility m \<noteq> r_Visibility source \<or> rm_Archived m \<noteq> r_Archived source)
        (wrapE (''update settings for '' @ r_FullName source)
          (ext (UpdateRepositorySettings (rr_forgejo R) target)))) (\<lambda>_.
      store_pair E source (r_Owner target) (r_Name target))))"

definition discover_existing ::
  "'w env \<Rightarrow> 'w repository_reconciler \<Rightarrow> bool \<Rightarrow> repository \<Rightarrow> repository \<Rightarrow> repository \<Rightarrow> ('w sys, unit) prog" where
  "discover_existing E R dryRun source target existing = whenE (\<not> dryRun)
     (bnd (whenE (r_Visibility existing = VisibilityPublic \<and> r_Visibility source \<noteq> VisibilityPublic)
        (wrapE (''fail closed existing repository '' @ r_FullName target)
          (ext (UpdateRepositorySettings (rr_forgejo R) target)))) (\<lambda>_.
      store_pair E source (r_Owner existing) (r_Name existing)))"

definition discover_missing ::
  "'w env \<Rightarrow> 'w repository_reconciler \<Rightarrow> bool \<Rightarrow> repository \<Rightarrow> repository \<Rightarrow> ('w sys, unit) prog" where
  "discover_missing E R dryRun source target = whenE (\<not> dryRun)
     (bnd (ext (MigrateRepository (rr_forgejo R) target (rr_githubToken R))) (\<lambda>migrated.
      bnd (now E) (\<lambda>t. UpsertRepository E ((mappingFor E migrated t)
        \<lparr>rm_GitHubID := r_ID source, rm_GitHubFullName := r_FullName source, rm_ForgejoOwner := r_Owner target,
         rm_ForgejoName := r_Name target, rm_Visibility := r_Visibility source, rm_Archived := r_Archived source\<rparr>))))"

definition discover_source ::
  "'w env \<Rightarrow> 'w repository_reconciler \<Rightarrow> string \<Rightarrow> string \<Rightarrow> bool \<Rightarrow> (string \<Rightarrow> repository option) \<Rightarrow>
   repository \<Rightarrow> inventory \<Rightarrow> ('w sys, inventory) prog" where
  "discover_source E R namespace nsOwner dryRun forgejoByName source v =
     bnd (of_sum (validateRepository source)) (\<lambda>_.
     if r_Owner source \<noteq> namespace then ret v
     else bnd (RepositoryByGitHubID E (r_ID source)) (\<lambda>row.
       let target = discovery_target R nsOwner source
       in case row of
            Some m \<Rightarrow> bnd (discover_mapped E R dryRun source target m) (\<lambda>_. ret (v\<lparr>v_InSync := v_InSync v + 1\<rparr>))
          | None \<Rightarrow> (case forgejoByName (ToLower (r_FullName target)) of
              Some existing \<Rightarrow> bnd (discover_existing E R dryRun source target existing)
                (\<lambda>_. ret (v\<lparr>v_InSync := v_InSync v + 1\<rparr>))
            | None \<Rightarrow> bnd (discover_missing E R dryRun source target) (\<lambda>_. ret (v\<lparr>v_Missing := v_Missing v + 1\<rparr>)))))"

section \<open>Namespaces\<close>

definition index_repositories ::
  "repository list \<Rightarrow> (string \<Rightarrow> repository option) \<Rightarrow> string \<Rightarrow> repository option" where
  "index_repositories rs m = fold (\<lambda>r m. m(ToLower (r_FullName r) \<mapsto> r)) rs m"

text \<open>Listing the further Forgejo owners to which the repository map redirects; the set is
  \<open>countedForgejo\<close>, shared by all namespaces.\<close>

definition discover_extra ::
  "'w repository_reconciler \<Rightarrow> string \<Rightarrow> string \<Rightarrow> repository \<Rightarrow>
   string set \<times> (string \<Rightarrow> repository option) \<Rightarrow> ('w sys, string set \<times> (string \<Rightarrow> repository option)) prog" where
  "discover_extra R namespace nsOwner source acc =
     (if r_Owner source \<noteq> namespace then ret acc
      else let owner = fst (forgejoTarget R source nsOwner)
        in if owner = nsOwner \<or> (''listed:'' @ owner) \<in> fst acc then ret acc
           else bnd (wrapE (''enumerate Forgejo owner '' @ owner)
                  (ext (df_ListRepositories (rr_forgejo R) owner))) (\<lambda>extra.
                ret (insert (''listed:'' @ owner) (fst acc), index_repositories extra (snd acc))))"

definition allowed_namespaces :: "string list" where
  "allowed_namespaces = [''starintel-labs'', ''lost-rob0t'']"

definition discover_namespace ::
  "'w env \<Rightarrow> 'w repository_reconciler \<Rightarrow> bool \<Rightarrow> string \<Rightarrow> inventory \<times> string set \<Rightarrow>
   ('w sys, inventory \<times> string set) prog" where
  "discover_namespace E R dryRun namespace acc =
     (if namespace \<notin> set allowed_namespaces
      then throw (Err (''namespace '' @ Quote namespace @ '' is outside the allowed set''))
      else
        bnd (wrapE (''enumerate GitHub namespace '' @ namespace)
          (ext (dg_ListRepositories (rr_github R) namespace))) (\<lambda>grs.
        let nsOwner = forgejoOwner R namespace
        in bnd (wrapE (''enumerate Forgejo owner '' @ nsOwner)
             (ext (df_ListRepositories (rr_forgejo R) nsOwner))) (\<lambda>frs.
           let v = (fst acc)\<lparr>v_GitHubRepositories := v_GitHubRepositories (fst acc) + int (length grs)\<rparr>;
               v = (if nsOwner \<in> snd acc then v
                    else v\<lparr>v_ForgejoRepositories := v_ForgejoRepositories v + int (length frs)\<rparr>);
               counted = insert nsOwner (snd acc)
           in bnd (foldE (discover_extra R namespace nsOwner) grs (counted, index_repositories frs Map.empty)) (\<lambda>(counted, byName).
              bnd (foldE (discover_source E R namespace nsOwner dryRun byName) grs v) (\<lambda>v.
              ret (v, counted))))))"

definition empty_inventory :: inventory where
  "empty_inventory = \<lparr>v_GitHubRepositories = 0, v_ForgejoRepositories = 0, v_Missing = 0, v_InSync = 0, v_Conflicted = 0\<rparr>"

definition Discover ::
  "'w env \<Rightarrow> 'w repository_reconciler \<Rightarrow> string list \<Rightarrow> bool \<Rightarrow> ('w sys, inventory) prog" where
  "Discover E R namespaces dryRun =
     bnd (foldE (discover_namespace E R dryRun) namespaces (empty_inventory, {})) (\<lambda>(v, _).
     bnd (ListConflicts E) (\<lambda>conflicts.
     ret (v\<lparr>v_Conflicted := int (length conflicts)\<rparr>)))"

text \<open>The inventory that \<open>Discover\<close> returns beside an error: the counts at the point where it
  stopped. Only the summary of a failed run shows it.\<close>

fun sources_reached ::
  "'w env \<Rightarrow> 'w repository_reconciler \<Rightarrow> string \<Rightarrow> string \<Rightarrow> bool \<Rightarrow> (string \<Rightarrow> repository option) \<Rightarrow>
   repository list \<Rightarrow> inventory \<Rightarrow> 'w sys \<Rightarrow> inventory" where
  "sources_reached E R namespace nsOwner dryRun byName [] v s = v"
| "sources_reached E R namespace nsOwner dryRun byName (source # srcs) v s =
     (case discover_source E R namespace nsOwner dryRun byName source v s of
        (Inr v', t) \<Rightarrow> sources_reached E R namespace nsOwner dryRun byName srcs v' t
      | (Inl _, _) \<Rightarrow>
          (if (\<exists>u. validateRepository source = Inr u) \<and> fst (RepositoryByGitHubID E (r_ID source) s) = Inr None
              \<and> byName (ToLower (r_FullName (discovery_target R nsOwner source))) = None
           then v\<lparr>v_Missing := v_Missing v + 1\<rparr> else v))"

definition namespace_reached ::
  "'w env \<Rightarrow> 'w repository_reconciler \<Rightarrow> bool \<Rightarrow> string \<Rightarrow> inventory \<times> string set \<Rightarrow> 'w sys \<Rightarrow> inventory" where
  "namespace_reached E R dryRun namespace acc s =
     (if namespace \<notin> set allowed_namespaces then fst acc
      else case ext (dg_ListRepositories (rr_github R) namespace) s of (Inl _, _) \<Rightarrow> fst acc
      | (Inr grs, t) \<Rightarrow>
          let nsOwner = forgejoOwner R namespace
          in case ext (df_ListRepositories (rr_forgejo R) nsOwner) t of (Inl _, _) \<Rightarrow> fst acc
          | (Inr frs, u) \<Rightarrow>
              let v = (fst acc)\<lparr>v_GitHubRepositories := v_GitHubRepositories (fst acc) + int (length grs)\<rparr>;
                  v = (if nsOwner \<in> snd acc then v
                       else v\<lparr>v_ForgejoRepositories := v_ForgejoRepositories v + int (length frs)\<rparr>)
              in case foldE (discover_extra R namespace nsOwner) grs
                     (insert nsOwner (snd acc), index_repositories frs Map.empty) u of
                   (Inl _, _) \<Rightarrow> v
                 | (Inr (_, byName), x) \<Rightarrow> sources_reached E R namespace nsOwner dryRun byName grs v x)"

fun Discover_reached ::
  "'w env \<Rightarrow> 'w repository_reconciler \<Rightarrow> bool \<Rightarrow> string list \<Rightarrow> inventory \<times> string set \<Rightarrow> 'w sys \<Rightarrow> inventory" where
  "Discover_reached E R dryRun [] acc s = fst acc"
| "Discover_reached E R dryRun (namespace # nss) acc s =
     (case discover_namespace E R dryRun namespace acc s of
        (Inr acc', t) \<Rightarrow> Discover_reached E R dryRun nss acc' t
      | (Inl _, _) \<Rightarrow> namespace_reached E R dryRun namespace acc s)"

section \<open>Frame lemmas\<close>

lemmas discover_defs = store_pair_def discover_mapped_def discover_existing_def discover_missing_def
  discover_source_def discover_extra_def discover_namespace_def Discover_def

lemma Discover_honest [guar_intros]: "guar (on_db honest) (Discover E R nss dry)"
  unfolding discover_defs by (intro guar_intros guar_splits)+

section \<open>A dry run\<close>

lemma discover_dry_steps:
  "discover_mapped E R True source target m = ret ()"
  "discover_existing E R True source target existing = ret ()"
  "discover_missing E R True source target = ret ()"
  by (simp_all add: discover_mapped_def discover_existing_def discover_missing_def)

lemma Discover_dry_unchanged: "guar (on_db unchanged) (Discover E R nss True)"
  unfolding Discover_def discover_namespace_def discover_extra_def discover_source_def discover_dry_steps
  by (intro guar_intros guar_splits)+

definition discovery_alike :: "'w repository_reconciler \<Rightarrow> 'w repository_reconciler \<Rightarrow> bool" where
  "discovery_alike R R' \<longleftrightarrow> rr_github R' = rr_github R \<and> rr_ownerMap R' = rr_ownerMap R \<and> rr_repoMap R' = rr_repoMap R
     \<and> df_ListRepositories (rr_forgejo R') = df_ListRepositories (rr_forgejo R)"

lemma discover_parts_dry:
  assumes "discovery_alike R R'"
  shows "discovery_target R' = discovery_target R" "forgejoOwner R' = forgejoOwner R"
    and "discover_source E R' ns nsOwner True = discover_source E R ns nsOwner True"
    and "discover_extra R' = discover_extra R"
    and "discover_namespace E R' True = discover_namespace E R True"
proof -
  note alike = assms [unfolded discovery_alike_def]
  have target: "forgejoTarget R' = forgejoTarget R" by (simp add: fun_eq_iff forgejoTarget_def alike)
  then show 1: "discovery_target R' = discovery_target R" by (simp add: fun_eq_iff discovery_target_def)
  have 2: "discover_source E R' ns nsOwner True = discover_source E R ns nsOwner True" for ns nsOwner
    unfolding discover_source_def discover_dry_steps by (simp add: 1 cong: if_cong)
  then show "discover_source E R' ns nsOwner True = discover_source E R ns nsOwner True" .
  show 3: "discover_extra R' = discover_extra R"
    by (simp add: fun_eq_iff discover_extra_def target alike cong: if_cong)
  show 4: "forgejoOwner R' = forgejoOwner R" by (simp add: fun_eq_iff forgejoOwner_def alike)
  show "discover_namespace E R' True = discover_namespace E R True"
    by (intro HOL.ext) (simp add: discover_namespace_def alike 2 3 4 cong: if_cong)
qed

lemma Discover_dry_reads: "discovery_alike R R' \<Longrightarrow> Discover E R' nss True = Discover E R nss True"
  by (simp add: Discover_def discover_parts_dry)

lemma Discover_reached_dry_reads:
  assumes "discovery_alike R R'"
  shows "Discover_reached E R' True nss acc s = Discover_reached E R True nss acc s"
proof (induction nss arbitrary: acc s)
  case (Cons n nss)
  note parts = discover_parts_dry [OF assms]
  have alike: "rr_github R' = rr_github R" "df_ListRepositories (rr_forgejo R') = df_ListRepositories (rr_forgejo R)"
    using assms by (simp_all add: discovery_alike_def)
  have sources: "sources_reached E R' n ow True byName srcs v s = sources_reached E R n ow True byName srcs v s" for ow byName srcs v s
    by (induction srcs arbitrary: v s) (simp_all add: parts split: prod.split sum.split)
  have "namespace_reached E R' True n acc s = namespace_reached E R True n acc s"
    unfolding namespace_reached_def parts(2,4) sources alike by (rule HOL.refl)
  then show ?case by (simp add: parts Cons split: prod.split sum.split)
qed simp

section \<open>Only repositories of the allowed namespaces are mapped\<close>

definition allowed_name :: "string \<Rightarrow> bool" where
  "allowed_name full \<longleftrightarrow> (\<exists>ns \<in> set allowed_namespaces. HasPrefix full (ns @ [slash]))"

definition allowed_added :: "store \<Rightarrow> store \<Rightarrow> bool" where
  "allowed_added d d' \<longleftrightarrow>
     (\<forall>m \<in> set (t_repositories d'). m \<in> set (t_repositories d) \<or> allowed_name (rm_GitHubFullName m))"

interpretation allowed: store_guarantee allowed_added
  by unfold_locales (auto simp: allowed_added_def)

lemma unchanged_guar_allowed: "guar (on_db unchanged) m \<Longrightarrow> guar (on_db allowed_added) m"
  by (erule guar_mono) (simp add: on_db_def unchanged_def allowed_added_def)

lemmas read_allowed = read_unchanged [THEN unchanged_guar_allowed]

lemma UpsertRepository_allowed:
  assumes "allowed_name (rm_GitHubFullName m)"
  shows "guar (on_db allowed_added) (UpsertRepository E m)"
proof -
  have exec: "guar (on_db allowed_added) (db_exec E (upsert_repository_row m'))"
    if "rm_GitHubFullName m' = rm_GitHubFullName m" for m'
    by (rule allowed.db_exec_guar)
      (use that assms in \<open>auto simp: allowed_added_def upsert_repository_row_def split: sum.splits dest: sql_upsert_mem\<close>)
  show ?thesis
    unfolding UpsertRepository_def if_distrib [where f = "\<lambda>p. bnd p _"] 
    by (cases "IsZero (rm_UpdatedAt m)")
      (auto simp: bnd_assoc intro!: guar_splits allowed.throw_guar allowed.bnd_guar allowed.now_guar allowed.wrapE_guar exec)
qed

lemma discover_source_allowed:
  assumes "namespace \<in> set allowed_namespaces"
  shows "guar (on_db allowed_added) (discover_source E R namespace nsOwner dry byName source v)"
proof (cases "validateRepository source")
  case (Inl e)
  then show ?thesis by (simp add: discover_source_def guar_def bnd_app of_sum_app on_db_def allowed_added_def)
next
  case (Inr u)
  show ?thesis
  proof (cases "r_Owner source = namespace")
    case True
    have "r_FullName source = r_Owner source @ [slash] @ r_Name source"
      using Inr by (auto simp: validateRepository_def split: if_splits)
    with True assms have "allowed_name (r_FullName source)"
      by (auto simp: allowed_name_def HasPrefix_iff)
    then show ?thesis
      unfolding discover_source_def discover_mapped_def discover_existing_def discover_missing_def store_pair_def
      by (intro guar_intros guar_splits UpsertRepository_allowed read_allowed)
        (simp_all add: mappingForPair_def)
  next
    case False
    then show ?thesis unfolding discover_source_def by (simp add: Inr) (intro guar_intros)
  qed
qed

lemma Discover_allowed: "guar (on_db allowed_added) (Discover E R nss dry)"
  unfolding Discover_def discover_namespace_def discover_extra_def
  by (intro guar_intros guar_splits discover_source_allowed read_allowed) simp_all

section \<open>Properties\<close>

text \<open>whatever GitHub lists and whatever fails, discovery only maps repositories of the two
  allowed namespaces: every mapping that is new or changed afterwards is of a GitHub repository
  under \<open>starintel-labs/\<close> or \<open>lost-rob0t/\<close>.\<close>

theorem discover_only_allowed:
  "\<forall>m \<in> set (t_repositories (db (snd (Discover E R namespaces dryRun s)))).
     m \<in> set (t_repositories (db s)) \<or> HasPrefix (rm_GitHubFullName m) ''starintel-labs/''
     \<or> HasPrefix (rm_GitHubFullName m) ''lost-rob0t/''"
  using Discover_allowed [of E R namespaces dryRun]
  by (fastforce simp: guar_def on_db_def allowed_added_def allowed_name_def allowed_namespaces_def)

text \<open>The settings of the Forgejo repository have to change before the mapping may: a mapped
  repository whose visibility changed, or an unmapped public one for a source that is not public.\<close>

definition must_close :: "'w repository_reconciler \<Rightarrow> string \<Rightarrow> (string \<Rightarrow> repository option) \<Rightarrow> repository \<Rightarrow> store \<Rightarrow> bool" where
  "must_close R nsOwner byName source d =
     (case List.find (\<lambda>m. rm_GitHubID m = r_ID source) (t_repositories d) of
        Some m \<Rightarrow> rm_Visibility m \<noteq> r_Visibility source
      | None \<Rightarrow> (case byName (ToLower (r_FullName (discovery_target R nsOwner source))) of
          Some existing \<Rightarrow> r_Visibility existing = VisibilityPublic \<and> r_Visibility source \<noteq> VisibilityPublic
        | None \<Rightarrow> False))"

text \<open>Forgejo refuses every change of settings.\<close>

definition settings_refused :: "'w repository_reconciler \<Rightarrow> bool" where
  "settings_refused R \<longleftrightarrow> (\<forall>r w. \<exists>e w'. UpdateRepositorySettings (rr_forgejo R) r w = (Inl e, w'))"

lemma settings_refusedD:
  "settings_refused R \<Longrightarrow>
     \<exists>e w. wrapE msg (ext (UpdateRepositorySettings (rr_forgejo R) r)) s = (Inl e, s\<lparr>world := w\<rparr>)"
  unfolding settings_refused_def by (fastforce simp: wrapE_app ext_app dest: spec [of _ r] spec [of _ "world s"])

lemma discover_mapped_refused:
  assumes "settings_refused R" and "rm_Visibility m \<noteq> r_Visibility source"
  shows "\<exists>e u. discover_mapped E R False source target m s = (Inl e, u) \<and> db u = db s"
proof -
  obtain r u where A: "whenE (rm_ForgejoOwner m \<noteq> r_Owner target \<or> rm_ForgejoName m \<noteq> r_Name target)
      (wrapE (''update identity for GitHub repository '' @ FormatInt (r_ID source))
        (ext (UpdateRepositoryIdentity (rr_forgejo R) (rm_ForgejoOwner m) (rm_ForgejoName m)
          (r_Owner target) (r_Name target)))) s = (r, u)" by fastforce
  moreover have u: "db u = db s"
    using guarD [OF unchanged.whenE_guar [OF unchanged.wrapE_guar [OF unchanged.ext_guar]] A]
    by (simp add: on_db_def unchanged_def)
  moreover obtain e u' where "wrapE (''update settings for '' @ r_FullName source)
      (ext (UpdateRepositorySettings (rr_forgejo R) target)) u = (Inl e, u')" "db u' = db s"
    using settings_refusedD [OF assms(1), of "''update settings for '' @ r_FullName source" target u] u by auto
  ultimately show ?thesis using assms(2) by (cases r) (auto simp: discover_mapped_def bnd_app)
qed

lemma discover_existing_refused:
  assumes "settings_refused R" and "r_Visibility existing = VisibilityPublic" "r_Visibility source \<noteq> VisibilityPublic"
  shows "\<exists>e u. discover_existing E R False source target existing s = (Inl e, u) \<and> db u = db s"
  using settings_refusedD [OF assms(1), of "''fail closed existing repository '' @ r_FullName target" target s] assms(2,3)
  by (auto simp: discover_existing_def bnd_app)

text \<open>C20: visibility fails closed. If Forgejo refuses the change of settings, a repository that has to
  be closed (or whose visibility changed) is not mapped or re-mapped: discovery of it ends with
  an error and the database is as before.\<close>

theorem visibility_fails_closed:
  assumes "\<And>r w. \<exists>e w'. UpdateRepositorySettings (rr_forgejo R) r w = (Inl e, w')"
    and "r_Owner source = namespace" and "must_close R nsOwner byName source (db s)"
  shows "(\<exists>e. fst (discover_source E R namespace nsOwner False byName source v s) = Inl e)
    \<and> db (snd (discover_source E R namespace nsOwner False byName source v s)) = db s"
proof (cases "validateRepository source")
  case (Inl e)
  then show ?thesis by (simp add: discover_source_def bnd_app of_sum_app)
next
  case valid: (Inr _)
  let ?target = "discovery_target R nsOwner source"
  let ?row = "List.find (\<lambda>m. rm_GitHubID m = r_ID source) (t_repositories (db s))"
  have refused: "settings_refused R" using assms(1) by (simp add: settings_refused_def)
  obtain f w where fault: "e_fault E (world s) = (f, w)" by fastforce
  note read = RepositoryByGitHubID_def wrapE_app db_query_def db_exec_def fault
  let ?s = "s\<lparr>world := w\<rparr>"
  show ?thesis
  proof (cases f)
    case (Some msg)
    with valid assms(2) show ?thesis by (simp add: discover_source_def bnd_app of_sum_app read)
  next
    case None
    then have row: "RepositoryByGitHubID E (r_ID source) s = (Inr ?row, ?s)" by (simp add: read)
    show ?thesis
    proof (cases ?row)
      case (Some m)
      then have "rm_Visibility m \<noteq> r_Visibility source" using assms(3) by (simp add: must_close_def)
      from discover_mapped_refused [OF refused this, of E ?target ?s] Some row valid assms(2)
      show ?thesis by (auto simp: discover_source_def bnd_app of_sum_app Let_def)
    next
      case None
      then obtain existing where ex: "byName (ToLower (r_FullName ?target)) = Some existing"
        and "r_Visibility existing = VisibilityPublic" "r_Visibility source \<noteq> VisibilityPublic"
        using assms(3) by (auto simp: must_close_def split: option.splits)
      from discover_existing_refused [OF refused this(2,3), of E ?target ?s] None ex row valid assms(2)
      show ?thesis by (auto simp: discover_source_def bnd_app of_sum_app Let_def)
    qed
  qed
qed

section \<open>Worked examples\<close>

definition sample_source :: repository where
  "sample_source = \<lparr>r_ID = 9, r_Owner = ''lost-rob0t'', r_Name = ''x'', r_FullName = ''lost-rob0t/x'',
     r_CloneURL = [], r_DefaultBranch = [], r_Visibility = VisibilityPrivate, r_Archived = False,
     r_SizeKB = 1, r_UpdatedAt = 0\<rparr>"

text \<open>The world is the list of the identity changes that Forgejo was asked for.\<close>

definition sample_discovery :: "repository list \<Rightarrow> (string \<times> string) list \<Rightarrow> (string list) repository_reconciler" where
  "sample_discovery frs repoMap = \<lparr>
     rr_github = \<lparr>dg_ListRepositories = \<lambda>_ w. (Inr [sample_source], w)\<rparr>,
     rr_forgejo = \<lparr>df_ListRepositories = \<lambda>owner w. (Inr (filter (\<lambda>r. r_Owner r = owner) frs), w),
       MigrateRepository = \<lambda>r _ w. (Inr r, w),
       UpdateRepositoryIdentity = \<lambda>a b c d w. (Inr (), w @ [a @ [slash] @ b @ '' to '' @ c @ [slash] @ d]),
       UpdateRepositorySettings = \<lambda>_ w. (Inl (Err ''refused''), w)\<rparr>,
     rr_githubToken = ''t'', rr_ownerMap = [], rr_repoMap = repoMap\<rparr>"

definition sample_discovery_sys :: "(string list) sys" where
  "sample_discovery_sys = \<lparr>db = empty_store, world = []\<rparr>"

abbreviation names_env :: "(string list) env" where "names_env \<equiv> calm_env"

theorem visibility_fails_closed_witness:
  "db (snd (discover_source names_env (sample_discovery [] []) ''lost-rob0t'' ''lost-rob0t'' False
       (\<lambda>_. Some (sample_source\<lparr>r_Visibility := VisibilityPublic\<rparr>)) sample_source empty_inventory sample_discovery_sys))
   = empty_store"
  using visibility_fails_closed [of "sample_discovery [] []" sample_source "''lost-rob0t''" "''lost-rob0t''"
      "\<lambda>_. Some (sample_source\<lparr>r_Visibility := VisibilityPublic\<rparr>)" sample_discovery_sys names_env empty_inventory]
  by (simp add: sample_discovery_def sample_source_def must_close_def sample_discovery_sys_def empty_store_def)

theorem discover_only_allowed_witness:
  "list_all (\<lambda>m. HasPrefix (rm_GitHubFullName m) ''starintel-labs/'' \<or> HasPrefix (rm_GitHubFullName m) ''lost-rob0t/'')
     (t_repositories (db (snd (Discover names_env (sample_discovery [] []) [''lost-rob0t''] False sample_discovery_sys))))"
  using discover_only_allowed [of names_env "sample_discovery [] []" "[''lost-rob0t'']" False sample_discovery_sys]
  by (simp add: list_all_iff sample_discovery_sys_def empty_store_def)

text \<open>A repository map that renames is undone: the target keeps the source's name, so the first
  discovery pairs \<open>lost-rob0t/x\<close> with the existing \<open>team/y\<close>, and the second renames that to
  \<open>team/x\<close> on Forgejo.\<close>

lemma renaming_map_undone:
  "world (snd (bnd (Discover names_env (sample_discovery [sample_source\<lparr>r_Owner := ''team'', r_Name := ''y'', r_FullName := ''team/y''\<rparr>]
        [(''lost-rob0t/x'', ''team/y'')]) [''lost-rob0t''] False) (\<lambda>_.
      Discover names_env (sample_discovery [sample_source\<lparr>r_Owner := ''team'', r_Name := ''y'', r_FullName := ''team/y''\<rparr>]
        [(''lost-rob0t/x'', ''team/y'')]) [''lost-rob0t''] False) sample_discovery_sys))
   = [''team/y to team/x'']"
  by code_simp

text \<open>A migrated repository is recorded with the size that Forgejo answers, which the clients of
  the size limit read as the size of the source.\<close>

lemma migrated_size_is_forgejos:
  "rm_SizeKB (hd (t_repositories (db (snd (discover_missing names_env
     ((sample_discovery [] [])\<lparr>rr_forgejo := (rr_forgejo (sample_discovery [] []))\<lparr>MigrateRepository := \<lambda>r _ w. (Inr (r\<lparr>r_SizeKB := 0\<rparr>), w)\<rparr>\<rparr>)
     False (sample_source\<lparr>r_SizeKB := 500\<rparr>) (sample_source\<lparr>r_SizeKB := 500\<rparr>) sample_discovery_sys))))) = 0"
  by code_simp

end
