(* ===== verification/Webhooks.thy ===== *)
theory Webhooks
  imports Pairing
begin

text \<open>
  \<open>internal/webhooks/server.go\<close>: the HTTP handler of incoming webhooks. The processor that it
  calls for a new delivery is an interface (the locale \<open>webhook_processor\<close>); the engine
  provides it.
\<close>

unbundle bit_operations_syntax

section \<open>Requests and responses\<close>

text \<open>What the handler reads of a request: \<open>rq_header\<close> is \<open>Header.Get\<close>; reading the body gives
  \<open>rq_body\<close>, and then an error if \<open>rq_broken\<close>.\<close>

record http_request =
  rq_Method :: string
  rq_Path :: string
  rq_header :: "string \<Rightarrow> string"
  rq_body :: string
  rq_broken :: bool

record http_response =
  hr_status :: int
  hr_text :: string

definition http_Error :: "string \<Rightarrow> int \<Rightarrow> http_response" where
  "http_Error text status = \<lparr>hr_status = status, hr_text = text @ [newline]\<rparr>"

definition accepted :: http_response where
  "accepted = \<lparr>hr_status = 202, hr_text = []\<rparr>"

text \<open>\<open>io.ReadAll(io.LimitReader(body, n))\<close>: \<open>None\<close> is an error, met before the limit.\<close>

definition read_limited :: "http_request \<Rightarrow> int \<Rightarrow> string option" where
  "read_limited r n = (if rq_broken r \<and> int (length (rq_body r)) < n then None else Some (take (nat n) (rq_body r)))"

section \<open>Signatures\<close>

definition hex_value :: "char \<Rightarrow> nat option" where
  "hex_value c = (let n = byte c in
     if 48 \<le> n \<and> n \<le> 57 then Some (n - 48)
     else if 97 \<le> n \<and> n \<le> 102 then Some (n - 87)
     else if 65 \<le> n \<and> n \<le> 70 then Some (n - 55) else None)"

text \<open>\<open>hex.DecodeString\<close>.\<close>

fun hex_Decode :: "string \<Rightarrow> string option" where
  "hex_Decode [] = Some []"
| "hex_Decode [c] = None"
| "hex_Decode (c # d # cs) =
     (case (hex_value c, hex_value d, hex_Decode cs) of
        (Some a, Some b, Some r) \<Rightarrow> Some (char_of (16 * a + b) # r) | _ \<Rightarrow> None)"

definition raw_sha256 :: "'w env \<Rightarrow> string \<Rightarrow> string" where
  "raw_sha256 E m = (case hex_Decode (e_sha256 E m) of Some r \<Rightarrow> r | None \<Rightarrow> [])"

definition xor_pad :: "nat \<Rightarrow> string \<Rightarrow> string" where
  "xor_pad p k = map (\<lambda>c. char_of (byte c XOR p)) k"

text \<open>HMAC with SHA-256 (block size 64).\<close>

definition hmac_sha256 :: "'w env \<Rightarrow> string \<Rightarrow> string \<Rightarrow> string" where
  "hmac_sha256 E key m =
     (let k = (if length key > 64 then raw_sha256 E key else key);
          k = k @ replicate (64 - length k) (char_of (0::nat))
      in raw_sha256 E (xor_pad 0x5C k @ raw_sha256 E (xor_pad 0x36 k @ m)))"

definition validSignature :: "'w env \<Rightarrow> string \<Rightarrow> string \<Rightarrow> string \<Rightarrow> string \<Rightarrow> bool" where
  "validSignature E forge signature secret body =
     (if forge = ''github'' \<and> \<not> HasPrefix signature ''sha256='' then False
      else let signature = (if forge = ''github'' then TrimPrefix signature ''sha256='' else signature)
        in (case hex_Decode signature of None \<Rightarrow> False | Some provided \<Rightarrow> provided = hmac_sha256 E secret body))"

section \<open>The handler\<close>

record webhook_server =
  ws_githubSecret :: string
  ws_forgejoSecret :: string
  ws_maxBody :: int

definition allowedEvents :: "string \<Rightarrow> string list" where
  "allowedEvents forge =
     (if forge = ''github'' then
        [''ping'', ''repository'', ''push'', ''issues'', ''issue_comment'', ''pull_request'',
         ''pull_request_review'', ''pull_request_review_comment'', ''release'']
      else if forge = ''forgejo'' then
        [''ping'', ''repository'', ''push'', ''issues'', ''issue'', ''issue_comment'', ''pull_request'',
         ''release'', ''create'']
      else [])"

definition first_of :: "string \<Rightarrow> string \<Rightarrow> string" where
  "first_of a b = (if a = [] then b else a)"

definition headers :: "(string \<Rightarrow> string) \<Rightarrow> string \<Rightarrow> string \<times> string \<times> string" where
  "headers get forge =
     (if forge = ''github''
      then (get ''X-GitHub-Delivery'', get ''X-GitHub-Event'', get ''X-Hub-Signature-256'')
      else (first_of (get ''X-Forgejo-Delivery'') (get ''X-Gitea-Delivery''),
            first_of (get ''X-Forgejo-Event'') (get ''X-Gitea-Event''),
            first_of (get ''X-Forgejo-Signature'') (get ''X-Gitea-Signature'')))"

definition route :: "string \<Rightarrow> string option" where
  "route path = (if path = ''/webhooks/github'' then Some ''github''
     else if path = ''/webhooks/forgejo'' then Some ''forgejo'' else None)"

definition server_secret :: "webhook_server \<Rightarrow> string \<Rightarrow> string" where
  "server_secret W forge = (if forge = ''forgejo'' then ws_forgejoSecret W else ws_githubSecret W)"

text \<open>The checks before the database is touched: the refusal, or the delivery.\<close>

definition admit ::
  "'w env \<Rightarrow> webhook_server \<Rightarrow> http_request \<Rightarrow> http_response + string \<times> string \<times> string \<times> string" where
  "admit E W request =
     (if rq_Method request \<noteq> ''POST'' then Inl (http_Error ''method not allowed'' 405)
      else case route (rq_Path request) of
        None \<Rightarrow> Inl (http_Error ''404 page not found'' 404)
      | Some forge \<Rightarrow> (case read_limited request (i64 (ws_maxBody W + 1)) of
          None \<Rightarrow> Inl (http_Error ''read request'' 400)
        | Some body \<Rightarrow>
            if int (length body) > ws_maxBody W then Inl (http_Error ''payload too large'' 413)
            else (case headers (rq_header request) forge of (deliveryID, event, signature) \<Rightarrow>
              if deliveryID = [] \<or> length deliveryID > 200 \<or> event = [] \<or> length event > 100
              then Inl (http_Error ''missing or invalid webhook headers'' 400)
              else if event \<notin> set (allowedEvents forge) then Inl (http_Error ''unsupported webhook event'' 400)
              else if \<not> validSignature E forge signature (server_secret W forge) body
              then Inl (http_Error ''invalid webhook signature'' 401)
              else Inr (forge, deliveryID, event, body))))"

type_synonym 'w processor = "string \<Rightarrow> string \<Rightarrow> string \<Rightarrow> ('w sys, unit) prog"

definition deliver ::
  "'w env \<Rightarrow> 'w processor \<Rightarrow> string \<Rightarrow> string \<Rightarrow> string \<Rightarrow> string \<Rightarrow> ('w sys, http_response) prog" where
  "deliver E processWebhook forge deliveryID event body =
     tryE (ClaimWebhookDelivery E forge deliveryID event (e_sha256 E body)) (\<lambda>claimed.
     case claimed of
       Inl _ \<Rightarrow> ret (http_Error ''record webhook'' 500)
     | Inr False \<Rightarrow> ret accepted
     | Inr True \<Rightarrow>
         tryE (processWebhook forge event body) (\<lambda>processed.
         tryE (MarkWebhookProcessed E forge deliveryID (case processed of Inl e \<Rightarrow> Some e | Inr _ \<Rightarrow> None)) (\<lambda>marked.
         ret (case (processed, marked) of (Inr _, Inr _) \<Rightarrow> accepted
              | _ \<Rightarrow> http_Error ''process webhook'' 500))))"

definition ServeHTTP ::
  "'w env \<Rightarrow> webhook_server \<Rightarrow> 'w processor \<Rightarrow> http_request \<Rightarrow> ('w sys, http_response) prog" where
  "ServeHTTP E W processWebhook request =
     (case admit E W request of
        Inl refusal \<Rightarrow> ret refusal
      | Inr (forge, deliveryID, event, body) \<Rightarrow> deliver E processWebhook forge deliveryID event body)"

section \<open>Claiming\<close>

lemma claim_Inr:
  assumes "ClaimWebhookDelivery E forge i event h s = (Inr b, u)"
  shows "(forge, i) \<in> delivery_key ` set (t_deliveries (db u))"
    and "b \<Longrightarrow> (forge, i) \<notin> delivery_key ` set (t_deliveries (db s))"
proof -
  obtain v where "claim_row forge i event h v (db s) = Inr (b, db u)"
    using assms by (auto simp: ClaimWebhookDelivery_def bnd_Inr wrapE_Inr dest!: db_exec_Inr now_Inr)
  then have row: "claim_row forge i event h v (db s) = Inr (b, db u)" .
  have listed: "list_ex (\<lambda>x. d_Forge x = forge \<and> d_DeliveryID x = i) ds \<longleftrightarrow> (forge, i) \<in> delivery_key ` set ds" for ds
    by (auto simp: list_ex_bex)
  show "(forge, i) \<in> delivery_key ` set (t_deliveries (db u))"
    and "b \<Longrightarrow> (forge, i) \<notin> delivery_key ` set (t_deliveries (db s))"
    using row by (auto simp: claim_row_def listed simp del: image_iff split: if_splits dest!: sym [of _ "db u"])
qed

section \<open>The processor as an interface\<close>

text \<open>What the handler relies on: processing keeps the guarantee that the stored deliveries (and
  every mapping and conflict) survive.\<close>

locale webhook_processor =
  fixes processWebhook :: "'w processor"
  assumes process_honest: "guar (on_db honest) (processWebhook forge event body)"
begin

lemma deliver_honest: "guar (on_db honest) (deliver E processWebhook forge deliveryID event body)"
  unfolding deliver_def
  by (intro guar_intros process_honest) (auto split: sum.split bool.split intro!: guar_intros process_honest)

lemma ServeHTTP_honest: "guar (on_db honest) (ServeHTTP E W processWebhook request)"
  unfolding ServeHTTP_def by (auto split: sum.split intro: guar_intros deliver_honest)

text \<open>A delivery that was answered with 202 is in the table.\<close>

lemma accepted_is_claimed:
  assumes "deliver E processWebhook forge deliveryID event body s = (Inr resp, t)" and "hr_status resp = 202"
  shows "(forge, deliveryID) \<in> delivery_key ` set (t_deliveries (db t))"
proof -
  obtain c u where claim: "ClaimWebhookDelivery E forge deliveryID event (e_sha256 E body) s = (c, u)" by fastforce
  have c: "\<exists>b. c = Inr b" using assms claim
    by (cases c) (auto simp: deliver_def tryE_app ret_app http_Error_def)
  then have "(forge, deliveryID) \<in> delivery_key ` set (t_deliveries (db u))"
    using claim claim_Inr(1) by blast
  moreover have "honest (db u) (db t)"
  proof -
    obtain b where b: "c = Inr b" using c by blast
    let ?k = "(if b then tryE (processWebhook forge event body) (\<lambda>processed.
         tryE (MarkWebhookProcessed E forge deliveryID (case processed of Inl e \<Rightarrow> Some e | Inr _ \<Rightarrow> None)) (\<lambda>marked.
         ret (case (processed, marked) of (Inr _, Inr _) \<Rightarrow> accepted
              | _ \<Rightarrow> http_Error ''process webhook'' 500))) else ret accepted)"
    have "?k u = (Inr resp, t)" using assms(1) claim b by (cases b) (simp_all add: deliver_def tryE_app)
    moreover have "guar (on_db honest) ?k" by (intro guar_intros guar_splits process_honest)
    ultimately show ?thesis by (rule Inr_honest)
  qed
  ultimately show ?thesis using honest_keys(4) by blast
qed

end

text \<open>A stored delivery is not processed again, whatever the processor.\<close>

lemma stored_not_processed:
  assumes "(forge, deliveryID) \<in> delivery_key ` set (t_deliveries (db s))"
  shows "deliver E p forge deliveryID event body s = deliver E p' forge deliveryID event body s"
proof -
  have "fst (ClaimWebhookDelivery E forge deliveryID event (e_sha256 E body) s) \<noteq> Inr True"
    using claim_Inr(2) [OF run_result] assms by blast
  then show ?thesis
    by (cases "ClaimWebhookDelivery E forge deliveryID event (e_sha256 E body) s")
      (auto simp: deliver_def tryE_app split: sum.split bool.split)
qed

section \<open>Properties\<close>

text \<open>An authentic request: a POST to one of the two paths whose whole body was read and is within
  the limit, with delivery and event headers within their bounds, an event the forge may send,
  and a signature of the body under that forge's secret.\<close>

definition authentic :: "'w env \<Rightarrow> webhook_server \<Rightarrow> http_request \<Rightarrow> bool" where
  "authentic E W request \<longleftrightarrow>
     rq_Method request = ''POST'' \<and> \<not> rq_broken request \<and> int (length (rq_body request)) \<le> ws_maxBody W
   \<and> (case route (rq_Path request) of None \<Rightarrow> False
      | Some forge \<Rightarrow> (case headers (rq_header request) forge of (deliveryID, event, signature) \<Rightarrow>
          deliveryID \<noteq> [] \<and> length deliveryID \<le> 200 \<and> length event \<le> 100 \<and> event \<in> set (allowedEvents forge)
          \<and> validSignature E forge signature (server_secret W forge) (rq_body request)))"

lemma admit_authentic:
  assumes "0 < ws_maxBody W" and "ws_maxBody W < 2 ^ 63 - 1"
  shows "(\<exists>x. admit E W request = Inr x) \<longleftrightarrow> authentic E W request"
proof -
  have n: "i64 (ws_maxBody W + 1) = ws_maxBody W + 1" using assms by (intro i64_id) simp_all
  have body: "body = rq_body request" if "read_limited request (ws_maxBody W + 1) = Some body" "int (length body) \<le> ws_maxBody W" for body
    using that assms(1) by (auto simp: read_limited_def min_def split: if_splits)
  have full: "read_limited request (ws_maxBody W + 1) = Some (rq_body request)" if "\<not> rq_broken request" "int (length (rq_body request)) \<le> ws_maxBody W"
    using that by (simp add: read_limited_def)
  have whole: "\<not> rq_broken request" if "read_limited request (ws_maxBody W + 1) = Some body" "int (length body) \<le> ws_maxBody W" for body
    using that assms(1) by (auto simp: read_limited_def min_def split: if_splits)
  have events: "[] \<notin> set (allowedEvents forge)" for forge by (simp add: allowedEvents_def)
  show ?thesis
  proof
    assume "\<exists>x. admit E W request = Inr x"
    then obtain forge body where m: "rq_Method request = ''POST''" and r: "route (rq_Path request) = Some forge"
      and b: "read_limited request (ws_maxBody W + 1) = Some body" "int (length body) \<le> ws_maxBody W"
      and h: "case headers (rq_header request) forge of (deliveryID, event, signature) \<Rightarrow>
          deliveryID \<noteq> [] \<and> length deliveryID \<le> 200 \<and> length event \<le> 100 \<and> event \<in> set (allowedEvents forge)
          \<and> validSignature E forge signature (server_secret W forge) body"
      by (auto simp: admit_def n not_less split: if_splits option.splits prod.splits)
    from m r h body [OF b] whole [OF b] b(2) show "authentic E W request"
      by (simp add: authentic_def)
  next
    assume "authentic E W request"
    then show "\<exists>x. admit E W request = Inr x"
      using full events by (auto simp: authentic_def admit_def n split: option.splits prod.splits)
  qed
qed

lemma admit_refusal: "admit E W request = Inl refusal \<Longrightarrow> hr_status refusal \<in> {400, 401, 404, 405, 413}"
  by (auto simp: admit_def http_Error_def split: if_splits option.splits prod.splits)

text \<open>C30: a request that is not authentic has no effect: whatever the processor and the state, the
  answer is a client error, the state is as before (no delivery is claimed), and the processor
  is not run.\<close>

theorem unauthentic_request_ignored:
  assumes "0 < ws_maxBody W" and "ws_maxBody W < 2 ^ 63 - 1" and "\<not> authentic E W request"
  shows "\<exists>refusal. hr_status refusal \<in> {400, 401, 404, 405, 413}
    \<and> (\<forall>p s. ServeHTTP E W p request s = (Inr refusal, s))"
proof -
  obtain refusal where "admit E W request = Inl refusal"
    using admit_authentic [OF assms(1,2), of E request] assms(3) by (cases "admit E W request") auto
  with admit_refusal show ?thesis by (auto simp: ServeHTTP_def ret_app)
qed

text \<open>C31: a delivery is processed at most once. After a request was answered with 202, the same
  request, arriving any time later in any state that the program has reached since, does not
  run the processor: the answer and the state after do not depend on it.\<close>

theorem replay_suppressed:
  assumes "\<And>forge event body. guar (on_db honest) (p forge event body)"
    and "ServeHTTP E W p request s = (Inr resp, t)" and "hr_status resp = 202"
    and "honest (db t) (db u)"
  shows "ServeHTTP E W p' request u = ServeHTTP E W p'' request u"
proof (cases "admit E W request")
  case (Inl refusal)
  then show ?thesis by (simp add: ServeHTTP_def)
next
  case (Inr x)
  obtain forge i event body where x: "x = (forge, i, event, body)" by (cases x)
  have "(forge, i) \<in> delivery_key ` set (t_deliveries (db t))"
    by (rule webhook_processor.accepted_is_claimed [of p]) (use assms Inr x in \<open>auto simp: webhook_processor_def ServeHTTP_def\<close>)
  then have "(forge, i) \<in> delivery_key ` set (t_deliveries (db u))"
    using honest_keys(4) [OF assms(4)] by blast
  with stored_not_processed Inr x show ?thesis by (simp add: ServeHTTP_def)
qed

section \<open>Worked examples\<close>

text \<open>A hash under which every message has the digest 00.\<close>

definition zero_hash_env :: "unit env" where
  "zero_hash_env = unit_env\<lparr>e_sha256 := \<lambda>_. ''00''\<rparr>"

definition sample_server :: webhook_server where
  "sample_server = \<lparr>ws_githubSecret = ''k'', ws_forgejoSecret = ''l'', ws_maxBody = 100\<rparr>"

definition sample_request :: "string \<Rightarrow> http_request" where
  "sample_request signature = \<lparr>rq_Method = ''POST'', rq_Path = ''/webhooks/github'',
     rq_header = (\<lambda>h. if h = ''X-GitHub-Delivery'' then ''d1'' else if h = ''X-GitHub-Event'' then ''push''
       else if h = ''X-Hub-Signature-256'' then signature else []), rq_body = ''{}'', rq_broken = False\<rparr>"

lemma zero_hmac: "hmac_sha256 zero_hash_env key m = [char_of (0::nat)]"
proof -
  have "hex_Decode ''00'' = Some [char_of (0::nat)]" by code_simp
  then have "raw_sha256 zero_hash_env m = [char_of (0::nat)]" for m
    by (simp add: raw_sha256_def zero_hash_env_def)
  then show ?thesis by (simp add: hmac_sha256_def Let_def)
qed

lemma sample_admit:
  "admit zero_hash_env sample_server (sample_request ''sha256=00'') = Inr (''github'', ''d1'', ''push'', ''{}'')"
  "admit zero_hash_env sample_server (sample_request ''sha256=01'') = Inl (http_Error ''invalid webhook signature'' 401)"
proof -
  have "hex_Decode ''00'' = Some [char_of (0::nat)]" "hex_Decode ''01'' = Some [char_of (1::nat)]"
    "(char_of (1::nat) :: char) \<noteq> char_of (0::nat)" by code_simp+
  then have "validSignature zero_hash_env ''github'' ''sha256=00'' k b" "\<not> validSignature zero_hash_env ''github'' ''sha256=01'' k b" for k b
    by (simp_all add: validSignature_def zero_hmac HasPrefix_def TrimPrefix_def)
  moreover have "i64 101 = 101" by (simp add: i64_id)
  ultimately show
    "admit zero_hash_env sample_server (sample_request ''sha256=00'') = Inr (''github'', ''d1'', ''push'', ''{}'')"
    "admit zero_hash_env sample_server (sample_request ''sha256=01'') = Inl (http_Error ''invalid webhook signature'' 401)"
    by (simp_all add: admit_def sample_server_def sample_request_def route_def read_limited_def headers_def allowedEvents_def)
qed

lemma sample_serve:
  "ServeHTTP zero_hash_env sample_server p (sample_request ''sha256=00'') = deliver zero_hash_env p ''github'' ''d1'' ''push'' ''{}''"
  "ServeHTTP zero_hash_env sample_server p (sample_request ''sha256=01'') = ret (http_Error ''invalid webhook signature'' 401)"
  by (simp_all add: ServeHTTP_def sample_admit)

definition failing :: "unit processor" where
  "failing forge event body = throw (Err ''down'')"

definition idle :: "unit processor" where
  "idle forge event body = ret ()"

theorem unauthentic_request_ignored_witness:
  "ServeHTTP zero_hash_env sample_server idle (sample_request ''sha256=01'') sample_sys
     = (Inr (http_Error ''invalid webhook signature'' 401), sample_sys)"
proof -
  have no: "\<not> authentic zero_hash_env sample_server (sample_request ''sha256=01'')"
    using admit_authentic [of sample_server zero_hash_env "sample_request ''sha256=01''"]
    by (simp add: sample_admit) (simp add: sample_server_def)
  obtain refusal where "\<And>p s. ServeHTTP zero_hash_env sample_server p (sample_request ''sha256=01'') s = (Inr refusal, s)"
    using unauthentic_request_ignored [OF _ _ no] by (auto simp: sample_server_def)
  then show ?thesis by (simp add: sample_serve ret_app)
qed

theorem replay_suppressed_witness:
  "ServeHTTP zero_hash_env sample_server failing (sample_request ''sha256=00'')
      (snd (ServeHTTP zero_hash_env sample_server idle (sample_request ''sha256=00'') sample_sys))
   = ServeHTTP zero_hash_env sample_server idle (sample_request ''sha256=00'')
      (snd (ServeHTTP zero_hash_env sample_server idle (sample_request ''sha256=00'') sample_sys))"
proof (rule replay_suppressed [where p = idle and resp = accepted])
  show "guar (on_db honest) (idle forge event body)" for forge event body
    unfolding idle_def by (rule honest.ret_guar)
  have "fst (ServeHTTP zero_hash_env sample_server idle (sample_request ''sha256=00'') sample_sys) = Inr accepted"
    unfolding sample_serve by code_simp
  then show "ServeHTTP zero_hash_env sample_server idle (sample_request ''sha256=00'') sample_sys
    = (Inr accepted, snd (ServeHTTP zero_hash_env sample_server idle (sample_request ''sha256=00'') sample_sys))"
    by (rule run_result)
qed (simp_all add: accepted_def honest_refl)

text \<open>A delivery whose processing failed stays claimed: the forge's redelivery is answered with 202
  and never processed.\<close>

lemma failed_delivery_not_retried:
  "let first = ServeHTTP zero_hash_env sample_server failing (sample_request ''sha256=00'') sample_sys;
       second = ServeHTTP zero_hash_env sample_server failing (sample_request ''sha256=00'') (snd first)
   in fst first = Inr (http_Error ''process webhook'' 500) \<and> fst second = Inr accepted"
  unfolding sample_serve by code_simp

end
