(* ===== verification/Wiring.thy ===== *)
theory Wiring
  imports Pairing
begin

text \<open>
  \<open>internal/webhooks/wiring.go\<close>: the management of the webhooks on both forges. It does not
  touch the database: its programs run on the world of the forges alone. The report of a wiring
  that fails is dropped.
\<close>

record hook =
  wh_ID :: int
  wh_URL :: string
  wh_Events :: "string list"
  wh_Active :: bool

text \<open>\<open>ListOrgWebhooks\<close> reports \<open>None\<close> when the namespace is not an organization.\<close>

record 'w wire_forge =
  ListOrgWebhooks :: "string \<Rightarrow> ('w, hook list option) call"
  CreateOrgWebhook :: "string \<Rightarrow> hook \<Rightarrow> string \<Rightarrow> ('w, unit) call"
  UpdateOrgWebhook :: "string \<Rightarrow> int \<Rightarrow> hook \<Rightarrow> string \<Rightarrow> ('w, unit) call"
  ListRepoWebhooks :: "string \<Rightarrow> string \<Rightarrow> ('w, hook list) call"
  CreateRepoWebhook :: "string \<Rightarrow> string \<Rightarrow> hook \<Rightarrow> string \<Rightarrow> ('w, unit) call"
  UpdateRepoWebhook :: "string \<Rightarrow> string \<Rightarrow> int \<Rightarrow> hook \<Rightarrow> string \<Rightarrow> ('w, unit) call"
  wf_ListRepositories :: "string \<Rightarrow> ('w, repository list) call"

definition githubHookEvents :: "string list" where
  "githubHookEvents = [''push'', ''repository'', ''issues'', ''issue_comment'', ''pull_request'',
     ''pull_request_review'', ''pull_request_review_comment'', ''release'']"

definition forgejoHookEvents :: "string list" where
  "forgejoHookEvents = [''push'', ''repository'', ''issues'', ''issue_comment'', ''pull_request'', ''release'']"

record report =
  rp_Created :: "string list"
  rp_Updated :: "string list"
  rp_Unchanged :: "string list"
  rp_Skipped :: "string list"

record wiring_target =
  tg_org :: string
  tg_repo :: string

definition sameEvents :: "string list \<Rightarrow> string list \<Rightarrow> bool" where
  "sameEvents left right \<longleftrightarrow> length left = length right \<and> sort_Strings left = sort_Strings right"

definition desired_hook :: "string \<Rightarrow> string list \<Rightarrow> hook" where
  "desired_hook hookURL events = \<lparr>wh_ID = 0, wh_URL = hookURL, wh_Events = events, wh_Active = True\<rparr>"

definition matched_hook :: "string \<Rightarrow> hook list \<Rightarrow> hook option" where
  "matched_hook hookURL existing = List.find (\<lambda>h. EqualFold (wh_URL h) hookURL) existing"

definition create_hook :: "'w wire_forge \<Rightarrow> wiring_target \<Rightarrow> hook \<Rightarrow> string \<Rightarrow> ('w, unit) call" where
  "create_hook forge t desired secret =
     (if tg_repo t = [] then CreateOrgWebhook forge (tg_org t) desired secret
      else CreateRepoWebhook forge (tg_org t) (tg_repo t) desired secret)"

definition update_hook :: "'w wire_forge \<Rightarrow> wiring_target \<Rightarrow> int \<Rightarrow> hook \<Rightarrow> string \<Rightarrow> ('w, unit) call" where
  "update_hook forge t i desired secret =
     (if tg_repo t = [] then UpdateOrgWebhook forge (tg_org t) i desired secret
      else UpdateRepoWebhook forge (tg_org t) (tg_repo t) i desired secret)"

definition ensureHook ::
  "'w wire_forge \<Rightarrow> wiring_target \<Rightarrow> string \<Rightarrow> string \<Rightarrow> string list \<Rightarrow> hook list \<Rightarrow> bool \<Rightarrow> string \<Rightarrow>
   report \<Rightarrow> ('w, report) prog" where
  "ensureHook forge t hookURL secret events existing dryRun label rep =
     (case matched_hook hookURL existing of
        None \<Rightarrow> bnd (whenE (\<not> dryRun) (wrapE (''create '' @ label)
              (create_hook forge t (desired_hook hookURL events) secret)))
            (\<lambda>_. ret (rep\<lparr>rp_Created := rp_Created rep @ [label]\<rparr>))
      | Some h \<Rightarrow>
          if \<not> sameEvents (wh_Events h) events \<or> \<not> wh_Active h
          then bnd (whenE (\<not> dryRun) (wrapE (''update '' @ label)
                 (update_hook forge t (wh_ID h) (desired_hook hookURL events) secret)))
               (\<lambda>_. ret (rep\<lparr>rp_Updated := rp_Updated rep @ [label]\<rparr>))
          else ret (rep\<lparr>rp_Unchanged := rp_Unchanged rep @ [label]\<rparr>))"

definition wire_repository ::
  "'w wire_forge \<Rightarrow> string \<Rightarrow> string \<Rightarrow> string list \<Rightarrow> string \<Rightarrow> bool \<Rightarrow> repository \<Rightarrow> report \<Rightarrow> ('w, report) prog" where
  "wire_repository forge hookURL secret events forgeName dryRun r rep =
     bnd (wrapE (''list '' @ forgeName @ '' webhooks for '' @ r_FullName r)
       (ListRepoWebhooks forge (r_Owner r) (r_Name r))) (\<lambda>hooks.
     ensureHook forge \<lparr>tg_org = r_Owner r, tg_repo = r_Name r\<rparr> hookURL secret events hooks dryRun
       (forgeName @ '':repo/'' @ r_FullName r) rep)"

definition wire_namespace ::
  "'w wire_forge \<Rightarrow> string \<Rightarrow> string \<Rightarrow> string list \<Rightarrow> string \<Rightarrow> bool \<Rightarrow> string \<Rightarrow> report \<Rightarrow> ('w, report) prog" where
  "wire_namespace forge hookURL secret events forgeName dryRun namespace rep =
     bnd (wrapE (''list '' @ forgeName @ '' org webhooks for '' @ namespace) (ListOrgWebhooks forge namespace)) (\<lambda>org.
     case org of
       Some orgHooks \<Rightarrow> ensureHook forge \<lparr>tg_org = namespace, tg_repo = []\<rparr> hookURL secret events orgHooks dryRun
           (forgeName @ '':org/'' @ namespace) rep
     | None \<Rightarrow>
         bnd (wrapE (''list '' @ forgeName @ '' repositories for '' @ namespace) (wf_ListRepositories forge namespace)) (\<lambda>rs.
         foldE (wire_repository forge hookURL secret events forgeName dryRun) rs rep))"

definition wireForge ::
  "string list \<Rightarrow> 'w wire_forge \<Rightarrow> string \<Rightarrow> string \<Rightarrow> string list \<Rightarrow> string \<Rightarrow> bool \<Rightarrow> report \<Rightarrow> ('w, report) prog" where
  "wireForge namespaces forge hookURL secret events forgeName dryRun rep =
     foldE (wire_namespace forge hookURL secret events forgeName dryRun) namespaces rep"

record 'w wiring =
  wg_github :: "'w wire_forge"
  wg_forgejo :: "'w wire_forge"
  wg_namespaces :: "string list"

definition Wire :: "'w wiring \<Rightarrow> string \<Rightarrow> string \<Rightarrow> string \<Rightarrow> string \<Rightarrow> bool \<Rightarrow> ('w, report) prog" where
  "Wire W githubURL forgejoURL githubSecret forgejoSecret dryRun =
     (let rep = \<lparr>rp_Created = [], rp_Updated = [], rp_Unchanged = [], rp_Skipped = []\<rparr>
      in bnd (if githubURL = []
              then ret (rep\<lparr>rp_Skipped := rp_Skipped rep @ [''github: FORGE_SYNC_GITHUB_WEBHOOK_URL is not configured'']\<rparr>)
              else wireForge (wg_namespaces W) (wg_github W) githubURL githubSecret githubHookEvents ''github'' dryRun rep) (\<lambda>rep.
         if forgejoURL = []
         then ret (rep\<lparr>rp_Skipped := rp_Skipped rep @ [''forgejo: FORGE_SYNC_FORGEJO_WEBHOOK_URL is not configured'']\<rparr>)
         else wireForge (wg_namespaces W) (wg_forgejo W) forgejoURL forgejoSecret forgejoHookEvents ''forgejo'' dryRun rep))"

section \<open>Exchanging the writing operations\<close>

definition lists_alike :: "'w wire_forge \<Rightarrow> 'w wire_forge \<Rightarrow> bool" where
  "lists_alike F F' \<longleftrightarrow> ListOrgWebhooks F' = ListOrgWebhooks F \<and> ListRepoWebhooks F' = ListRepoWebhooks F
     \<and> wf_ListRepositories F' = wf_ListRepositories F"

text \<open>The hooks that the forge may list for a target.\<close>

definition listed_hooks :: "'w wire_forge \<Rightarrow> wiring_target \<Rightarrow> hook list \<Rightarrow> bool" where
  "listed_hooks F t hooks \<longleftrightarrow>
     (\<exists>w w'. tg_repo t = [] \<and> ListOrgWebhooks F (tg_org t) w = (Inr (Some hooks), w'))
   \<or> (\<exists>w w'. ListRepoWebhooks F (tg_org t) (tg_repo t) w = (Inr hooks, w'))"

definition drifted :: "string list \<Rightarrow> hook \<Rightarrow> bool" where
  "drifted events h \<longleftrightarrow> mset (wh_Events h) \<noteq> mset events \<or> \<not> wh_Active h"

lemma sameEvents_iff: "sameEvents left right \<longleftrightarrow> mset left = mset right"
  unfolding sameEvents_def sort_Strings_def sort_eq_iff_mset by (auto dest: mset_eq_length)

lemma ensureHook_cong:
  assumes "\<not> dry \<Longrightarrow> matched_hook url hooks = None \<Longrightarrow>
      create_hook F' t (desired_hook url events) secret = create_hook F t (desired_hook url events) secret"
    and "\<And>h. \<not> dry \<Longrightarrow> matched_hook url hooks = Some h \<Longrightarrow> drifted events h \<Longrightarrow>
      update_hook F' t (wh_ID h) (desired_hook url events) secret = update_hook F t (wh_ID h) (desired_hook url events) secret"
  shows "ensureHook F' t url secret events hooks dry label rep = ensureHook F t url secret events hooks dry label rep"
  using assms by (cases dry) (auto simp: ensureHook_def sameEvents_iff drifted_def split: option.split)

lemma wireForge_cong:
  assumes alike: "lists_alike F F'"
    and same: "\<And>t hooks label rep. listed_hooks F t hooks \<Longrightarrow>
      ensureHook F' t url secret events hooks dry label rep = ensureHook F t url secret events hooks dry label rep"
  shows "wireForge nss F' url secret events name dry rep = wireForge nss F url secret events name dry rep"
proof -
  have r: "wire_repository F' url secret events name dry = wire_repository F url secret events name dry"
  proof (rule HOL.ext, rule HOL.ext)
    fix r rep
    show "wire_repository F' url secret events name dry r rep = wire_repository F url secret events name dry r rep"
      unfolding wire_repository_def
    proof (rule bnd_cong)
      fix s hooks u
      assume "wrapE (''list '' @ name @ '' webhooks for '' @ r_FullName r) (ListRepoWebhooks F (r_Owner r) (r_Name r)) s = (Inr hooks, u)"
      then have "listed_hooks F \<lparr>tg_org = r_Owner r, tg_repo = r_Name r\<rparr> hooks"
        by (auto simp: listed_hooks_def wrapE_Inr)
      from same [OF this] show "ensureHook F' \<lparr>tg_org = r_Owner r, tg_repo = r_Name r\<rparr> url secret events hooks dry
          (name @ '':repo/'' @ r_FullName r) rep u
        = ensureHook F \<lparr>tg_org = r_Owner r, tg_repo = r_Name r\<rparr> url secret events hooks dry
          (name @ '':repo/'' @ r_FullName r) rep u" by simp
    qed (use alike in \<open>simp add: lists_alike_def\<close>)
  qed
  have "wire_namespace F' url secret events name dry ns rep = wire_namespace F url secret events name dry ns rep" for ns rep
    unfolding wire_namespace_def
  proof (rule bnd_cong)
    fix s org u
    assume "wrapE (''list '' @ name @ '' org webhooks for '' @ ns) (ListOrgWebhooks F ns) s = (Inr org, u)"
    then have "listed_hooks F \<lparr>tg_org = ns, tg_repo = []\<rparr> hooks" if "org = Some hooks" for hooks
      using that by (auto simp: listed_hooks_def wrapE_Inr)
    then show "(case org of
         Some orgHooks \<Rightarrow> ensureHook F' \<lparr>tg_org = ns, tg_repo = []\<rparr> url secret events orgHooks dry
             (name @ '':org/'' @ ns) rep
       | None \<Rightarrow> bnd (wrapE (''list '' @ name @ '' repositories for '' @ ns) (wf_ListRepositories F' ns)) (\<lambda>rs.
           foldE (wire_repository F' url secret events name dry) rs rep)) u
      = (case org of
         Some orgHooks \<Rightarrow> ensureHook F \<lparr>tg_org = ns, tg_repo = []\<rparr> url secret events orgHooks dry
             (name @ '':org/'' @ ns) rep
       | None \<Rightarrow> bnd (wrapE (''list '' @ name @ '' repositories for '' @ ns) (wf_ListRepositories F ns)) (\<lambda>rs.
           foldE (wire_repository F url secret events name dry) rs rep)) u"
      using alike by (cases org) (simp_all add: same r lists_alike_def)
  qed (use alike in \<open>simp add: lists_alike_def\<close>)
  then show ?thesis unfolding wireForge_def by (intro foldE_cong)
qed

section \<open>Properties\<close>

text \<open>what a wiring writes: nothing in a dry run; in a real run it creates the desired hook on a
  target that has no hook at the configured URL (up to case), and updates the first such hook
  of a target when its events or its active flag drifted. Hooks at other URLs, and hooks that
  are as desired, are left alone. Stated by exchanging the forge for one that lists alike and
  agrees on exactly these calls.\<close>

theorem wiring_writes_only_drift:
  assumes "lists_alike F F'"
    and "\<And>t hooks. listed_hooks F t hooks \<Longrightarrow> \<not> dry \<Longrightarrow> matched_hook url hooks = None \<Longrightarrow>
      create_hook F' t (desired_hook url events) secret = create_hook F t (desired_hook url events) secret"
    and "\<And>t hooks h. listed_hooks F t hooks \<Longrightarrow> \<not> dry \<Longrightarrow> matched_hook url hooks = Some h \<Longrightarrow> drifted events h \<Longrightarrow>
      update_hook F' t (wh_ID h) (desired_hook url events) secret = update_hook F t (wh_ID h) (desired_hook url events) secret"
  shows "wireForge nss F' url secret events name dry rep st = wireForge nss F url secret events name dry rep st"
  by (rule fun_cong [OF wireForge_cong [OF assms(1) ensureHook_cong]]) (use assms(2,3) in auto)

section \<open>Worked examples\<close>

definition sample_hook :: "int \<Rightarrow> string \<Rightarrow> hook" where
  "sample_hook i url = \<lparr>wh_ID = i, wh_URL = url, wh_Events = rev forgejoHookEvents, wh_Active = True\<rparr>"

definition sample_wire_forge :: "(unit, unit) call \<Rightarrow> unit wire_forge" where
  "sample_wire_forge write = \<lparr>ListOrgWebhooks = \<lambda>_ w. (Inr (Some [sample_hook 1 ''other'', sample_hook 2 ''HOOK'']), w),
     CreateOrgWebhook = \<lambda>_ _ _. write, UpdateOrgWebhook = \<lambda>_ _ _ _. write,
     ListRepoWebhooks = \<lambda>_ _ w. (Inl (Err ''none''), w),
     CreateRepoWebhook = \<lambda>_ _ _ _. write, UpdateRepoWebhook = \<lambda>_ _ _ _ _. write,
     wf_ListRepositories = \<lambda>_ w. (Inr [], w)\<rparr>"

theorem wiring_writes_only_drift_witness:
  "wireForge [''o''] (sample_wire_forge (\<lambda>w. (Inl (Err ''written''), w))) ''hook'' ''s'' forgejoHookEvents ''forgejo'' False
      \<lparr>rp_Created = [], rp_Updated = [], rp_Unchanged = [], rp_Skipped = []\<rparr> ()
   = wireForge [''o''] (sample_wire_forge (\<lambda>w. (Inr (), w))) ''hook'' ''s'' forgejoHookEvents ''forgejo'' False
      \<lparr>rp_Created = [], rp_Updated = [], rp_Unchanged = [], rp_Skipped = []\<rparr> ()"
proof (rule wiring_writes_only_drift)
  have "matched_hook ''hook'' [sample_hook 1 ''other'', sample_hook 2 ''HOOK''] = Some (sample_hook 2 ''HOOK'')"
    by code_simp
  moreover have "hooks = [sample_hook 1 ''other'', sample_hook 2 ''HOOK'']"
    if "listed_hooks (sample_wire_forge (\<lambda>w. (Inr (), w))) t hooks" for t hooks
    using that by (auto simp: listed_hooks_def sample_wire_forge_def)
  moreover have "\<not> drifted forgejoHookEvents (sample_hook 2 ''HOOK'')"
    by (simp add: drifted_def sample_hook_def)
  ultimately have one: "matched_hook ''hook'' hooks = Some (sample_hook 2 ''HOOK'') \<and> \<not> drifted forgejoHookEvents (sample_hook 2 ''HOOK'')"
    if "listed_hooks (sample_wire_forge (\<lambda>w. (Inr (), w))) t hooks" for t hooks
    using that by blast
  show
    "create_hook (sample_wire_forge (\<lambda>w. (Inl (Err ''written''), w))) t (desired_hook ''hook'' forgejoHookEvents) ''s''
      = create_hook (sample_wire_forge (\<lambda>w. (Inr (), w))) t (desired_hook ''hook'' forgejoHookEvents) ''s''"
    if "listed_hooks (sample_wire_forge (\<lambda>w. (Inr (), w))) t hooks" "matched_hook ''hook'' hooks = None" for t hooks
    using one [OF that(1)] that(2) by simp
  show "update_hook (sample_wire_forge (\<lambda>w. (Inl (Err ''written''), w))) t (wh_ID h) (desired_hook ''hook'' forgejoHookEvents) ''s''
      = update_hook (sample_wire_forge (\<lambda>w. (Inr (), w))) t (wh_ID h) (desired_hook ''hook'' forgejoHookEvents) ''s''"
    if "listed_hooks (sample_wire_forge (\<lambda>w. (Inr (), w))) t hooks" "matched_hook ''hook'' hooks = Some h"
      "drifted forgejoHookEvents h" for t hooks h
    using one [OF that(1)] that(2,3) by simp
qed (simp add: lists_alike_def sample_wire_forge_def)

end
