(* ===== verification/Configuration.thy ===== *)
theory Configuration
  imports Retry "HOL-Library.AList" "HOL-Library.Multiset"
begin

text \<open>
  \<open>internal/config/config.go\<close>: the configuration read from the environment, and its
  validation. A Go map is an association list with the latest entry first; the order in which
  \<open>Validate\<close> ranges over one only decides which error is reported, and is the parameter
  \<open>ce_order\<close>. \<open>ce_fraction\<close> is the double-precision arithmetic with which
  \<open>time.ParseDuration\<close> scales a fraction.
\<close>

section \<open>The environment\<close>

record environment =
  ce_LookupEnv :: "string \<Rightarrow> string option"
  ce_parse :: "string \<Rightarrow> parsed_url option"
  ce_order :: "(string \<times> string) list \<Rightarrow> (string \<times> string) list"
  ce_fraction :: "int \<Rightarrow> int \<Rightarrow> nat \<Rightarrow> int"

definition Getenv :: "environment \<Rightarrow> string \<Rightarrow> string" where
  "Getenv e key = (case ce_LookupEnv e key of None \<Rightarrow> [] | Some v \<Rightarrow> v)"

definition trimmed :: "environment \<Rightarrow> string \<Rightarrow> string" where
  "trimmed e key = TrimSpace (Getenv e key)"

section \<open>Durations\<close>

text \<open>\<open>time.ParseDuration\<close>, on unsigned 64-bit numbers that never exceed \<open>2 ^ 63\<close>.\<close>

definition is_digit :: "char \<Rightarrow> bool" where
  "is_digit c \<longleftrightarrow> digit_val c \<noteq> None"

fun leadingInt :: "int \<Rightarrow> string \<Rightarrow> (int \<times> string) option" where
  "leadingInt x [] = Some (x, [])"
| "leadingInt x (c # cs) = (case digit_val c of None \<Rightarrow> Some (x, c # cs)
     | Some d \<Rightarrow> if x > 2 ^ 63 div 10 then None
         else let y = x * 10 + int d in if y > 2 ^ 63 then None else leadingInt y cs)"

text \<open>The digits after the point: their value, how many of them count, and the rest.\<close>

fun leadingFraction :: "int \<Rightarrow> nat \<Rightarrow> bool \<Rightarrow> string \<Rightarrow> int \<times> nat \<times> string" where
  "leadingFraction x n overflow [] = (x, n, [])"
| "leadingFraction x n overflow (c # cs) = (case digit_val c of None \<Rightarrow> (x, n, c # cs)
     | Some d \<Rightarrow> if overflow \<or> x > (2 ^ 63 - 1) div 10 then leadingFraction x n True cs
         else let y = x * 10 + int d
           in if y > 2 ^ 63 then leadingFraction x n True cs else leadingFraction y (Suc n) False cs)"

definition unitMap :: "(string \<times> int) list" where
  "unitMap = [(''ns'', 1), (''us'', 1000), ([CHR 0xC2, CHR 0xB5, CHR ''s''], 1000),
     ([CHR 0xCE, CHR 0xBC, CHR ''s''], 1000), (''ms'', 1000000), (''s'', second),
     (''m'', minute), (''h'', 60 * minute)]"

definition is_unit_char :: "char \<Rightarrow> bool" where
  "is_unit_char c \<longleftrightarrow> c \<noteq> CHR ''.'' \<and> \<not> is_digit c"

text \<open>One number with its unit: its value in nanoseconds, and the rest.\<close>

definition duration_part :: "environment \<Rightarrow> string \<Rightarrow> (int \<times> string) option" where
  "duration_part e s =
     (if s = [] \<or> (hd s \<noteq> CHR ''.'' \<and> \<not> is_digit (hd s)) then None
      else case leadingInt 0 s of None \<Rightarrow> None
      | Some (v, s1) \<Rightarrow>
          let pre = length s1 \<noteq> length s;
              dotted = (s1 \<noteq> [] \<and> hd s1 = CHR ''.'');
              (f, n, s2) = (if dotted then leadingFraction 0 0 False (tl s1) else (0, 0, s1));
              post = (dotted \<and> length s2 \<noteq> length (tl s1));
              u = takeWhile is_unit_char s2; rest = dropWhile is_unit_char s2
          in if \<not> pre \<and> \<not> post \<or> u = [] then None
             else case map_of unitMap u of None \<Rightarrow> None
             | Some unit \<Rightarrow>
                 if v > 2 ^ 63 div unit then None
                 else let d = v * unit + (if f > 0 then ce_fraction e f unit n else 0)
                   in if d > 2 ^ 63 then None else Some (d, rest))"

lemma leadingInt_length: "leadingInt x s = Some (v, r) \<Longrightarrow> length r \<le> length s"
  by (induction x s rule: leadingInt.induct) (fastforce simp: Let_def split: option.splits if_splits)+

lemma leadingFraction_length: "leadingFraction x n ov s = (f, k, r) \<Longrightarrow> length r \<le> length s"
  by (induction x n ov s rule: leadingFraction.induct) (fastforce simp: Let_def split: option.splits if_splits)+

lemma duration_part_shorter: "duration_part e s = Some (d, r) \<Longrightarrow> length r < length s"
proof -
  assume part: "duration_part e s = Some (d, r)"
  then obtain v s1 f n s2 where 1: "leadingInt 0 s = Some (v, s1)"
    and 2: "(f, n, s2) = (if s1 \<noteq> [] \<and> hd s1 = CHR ''.'' then leadingFraction 0 0 False (tl s1) else (0, 0, s1))"
    and u: "takeWhile is_unit_char s2 \<noteq> []" and r: "r = dropWhile is_unit_char s2"
    by (auto simp: duration_part_def Let_def split: option.splits if_splits prod.splits)
  have "length s2 \<le> length s1"
    using 2 leadingFraction_length [of 0 0 False "tl s1" f n s2] by (auto split: if_splits)
  moreover have "length s1 \<le> length s" using 1 by (rule leadingInt_length)
  moreover have "length r < length s2"
    using u r by (metis append_eq_conv_conj length_append length_greater_0_conv less_add_same_cancel2 takeWhile_dropWhile_id)
  ultimately show ?thesis by simp
qed

function duration_parts :: "environment \<Rightarrow> int \<Rightarrow> string \<Rightarrow> int option" where
  "duration_parts e d s =
     (if s = [] then Some d
      else case duration_part e s of None \<Rightarrow> None
      | Some (v, rest) \<Rightarrow> if d + v > 2 ^ 63 then None else duration_parts e (d + v) rest)"
  by pat_completeness auto
termination
  by (relation "measure (\<lambda>(e, d, s). length s)") (auto dest: duration_part_shorter)

declare duration_parts.simps [simp del]

definition ParseDuration :: "environment \<Rightarrow> string \<Rightarrow> duration option" where
  "ParseDuration e s =
     (let neg = (s \<noteq> [] \<and> hd s = CHR ''-'');
          s = (if s \<noteq> [] \<and> (hd s = CHR ''-'' \<or> hd s = CHR ''+'') then tl s else s)
      in if s = ''0'' then Some 0 else if s = [] then None
         else case duration_parts e 0 s of None \<Rightarrow> None
         | Some d \<Rightarrow> if neg then Some (i64 (- d)) else if d > 2 ^ 63 - 1 then None else Some d)"

section \<open>Reading values\<close>

definition valueOr :: "environment \<Rightarrow> string \<Rightarrow> string \<Rightarrow> string" where
  "valueOr e key fallback = (if trimmed e key \<noteq> [] then trimmed e key else fallback)"

definition splitList :: "string \<Rightarrow> string list" where
  "splitList value = filter (\<lambda>x. x \<noteq> []) (map TrimSpace (Split comma value))"

definition durationOr :: "environment \<Rightarrow> string \<Rightarrow> duration \<Rightarrow> duration" where
  "durationOr e key fallback =
     (if trimmed e key = [] then fallback
      else case ParseDuration e (trimmed e key) of None \<Rightarrow> - 1 | Some d \<Rightarrow> d)"

definition intOr :: "environment \<Rightarrow> string \<Rightarrow> int \<Rightarrow> int" where
  "intOr e key fallback = (case ParseInt (trimmed e key) of None \<Rightarrow> fallback | Some v \<Rightarrow> v)"

definition int64Or :: "environment \<Rightarrow> string \<Rightarrow> int \<Rightarrow> int" where
  "int64Or e key fallback = (case ParseInt (trimmed e key) of None \<Rightarrow> fallback | Some v \<Rightarrow> v)"

definition validIdentifier :: "string \<Rightarrow> bool" where
  "validIdentifier value \<longleftrightarrow> value \<noteq> [] \<and> list_all (\<lambda>(i, c).
     let n = byte c in 97 \<le> n \<and> n \<le> 122 \<or> 65 \<le> n \<and> n \<le> 90 \<or> c = CHR ''_'' \<or> 0 < i \<and> 48 \<le> n \<and> n \<le> 57)
     (enumerate 0 value)"

definition ownerMapOr :: "environment \<Rightarrow> string \<Rightarrow> (string \<times> string) list" where
  "ownerMapOr e key =
     (if trimmed e key = [] then []
      else fold (\<lambda>pair m. case Cut colon pair of (namespace, owner, ok) \<Rightarrow>
               if ok then AList.update (TrimSpace namespace) (TrimSpace owner) m else m)
             (Split comma (trimmed e key)) [])"

definition repo_map_error :: "string \<Rightarrow> go_error" where
  "repo_map_error item =
     Err (''repo map entry '' @ Quote item @ '' must be github-owner/repository:forgejo-owner/repository'')"

fun repo_map_items :: "string list \<Rightarrow> (string \<times> string) list \<Rightarrow> go_error + (string \<times> string) list" where
  "repo_map_items [] m = Inr m"
| "repo_map_items (raw # items) m =
     (let item = TrimSpace raw
      in case Cut colon item of (repository, target, ok) \<Rightarrow>
         if \<not> ok \<or> colon \<in> set target then Inl (repo_map_error item)
         else if TrimSpace repository = [] \<or> TrimSpace target = [] then Inl (repo_map_error item)
         else repo_map_items items (AList.update (TrimSpace repository) (TrimSpace target) m))"

definition repoMapOr :: "environment \<Rightarrow> string \<Rightarrow> go_error + (string \<times> string) list" where
  "repoMapOr e key =
     (if trimmed e key = [] then Inr [] else repo_map_items (Split comma (trimmed e key)) [])"

definition secret_item_error :: "string \<Rightarrow> go_error" where
  "secret_item_error item =
     Err (''action secret mapping '' @ Quote item @ '' must be repository:secret=environment'')"

definition action_secret_item :: "environment \<Rightarrow> string \<Rightarrow> go_error + action_secret" where
  "action_secret_item e raw =
     (let item = TrimSpace raw
      in case Cut (CHR ''='') item of (binding, environment, ok) \<Rightarrow>
         if \<not> ok \<or> CHR ''='' \<in> set environment then Inl (secret_item_error item)
         else case Cut colon (TrimSpace binding) of (repository, name, ok) \<Rightarrow>
           if \<not> ok \<or> colon \<in> set name then Inl (secret_item_error item)
           else if \<not> validIdentifier (TrimSpace environment)
           then Inl (Err (''action secret mapping '' @ Quote item @ '' references an invalid environment variable''))
           else (case ce_LookupEnv e (TrimSpace environment) of
               Some (v # vs) \<Rightarrow> Inr \<lparr>s_Repository = TrimSpace repository, s_Name = TrimSpace name, s_Value = v # vs\<rparr>
             | _ \<Rightarrow> Inl (Err (''action secret source environment variable '' @ Quote (TrimSpace environment) @ '' is empty''))))"

fun action_secret_items :: "environment \<Rightarrow> string list \<Rightarrow> go_error + action_secret list" where
  "action_secret_items e [] = Inr []"
| "action_secret_items e (raw # items) =
     (case action_secret_item e raw of Inl err \<Rightarrow> Inl err
      | Inr s \<Rightarrow> (case action_secret_items e items of Inl err \<Rightarrow> Inl err | Inr ss \<Rightarrow> Inr (s # ss)))"

definition actionSecretsOr :: "environment \<Rightarrow> string \<Rightarrow> go_error + action_secret list" where
  "actionSecretsOr e key =
     (if trimmed e key = [] then Inr [] else action_secret_items e (Split comma (trimmed e key)))"

section \<open>The configuration\<close>

record 's config =
  GitHubAPI :: string
  GitHubToken :: string
  ForgejoAPI :: string
  ForgejoToken :: string
  GitHubWebhookSecret :: string
  ForgejoWebhookSecret :: string
  GitHubWebhookURL :: string
  ForgejoWebhookURL :: string
  Namespaces :: "string list"
  StatePath :: string
  ListenAddr :: string
  ReconcileInterval :: duration
  RequestTimeout :: duration
  GitTimeout :: duration
  GitHubMinInterval :: duration
  ForgejoMinInterval :: duration
  MaxConcurrency :: int
  MaxWebhookBody :: int
  MaxRefSizeKB :: int
  MaxAssetSizeBytes :: int
  APIRetry :: "'s retry_policy"
  ForgejoOwnerMap :: "(string \<times> string) list"
  ForgejoRepoMap :: "(string \<times> string) list"
  ActionSecrets :: "action_secret list"

text \<open>The first error of a sequence of checks.\<close>

fun first_error :: "(go_error + unit) list \<Rightarrow> go_error + unit" where
  "first_error [] = Inr ()"
| "first_error (Inl e # _) = Inl e"
| "first_error (Inr _ # checks) = first_error checks"

definition reject :: "bool \<Rightarrow> string \<Rightarrow> go_error + unit" where
  "reject bad msg = (if bad then Inl (Err msg) else Inr ())"

definition ContainsAny :: "string \<Rightarrow> bool" where
  "ContainsAny s \<longleftrightarrow> list_ex (\<lambda>c. c = slash \<or> c = CHR '' '' \<or> c = CHR 0x09) s"

definition config_namespaces :: "string list" where
  "config_namespaces = [''starintel-labs'', ''lost-rob0t'']"

definition required :: "'s config \<Rightarrow> (string \<times> string) list" where
  "required c = [(''FORGE_SYNC_GITHUB_TOKEN'', GitHubToken c), (''FORGE_SYNC_FORGEJO_API'', ForgejoAPI c),
     (''FORGE_SYNC_FORGEJO_TOKEN'', ForgejoToken c), (''FORGE_SYNC_GITHUB_WEBHOOK_SECRET'', GitHubWebhookSecret c),
     (''FORGE_SYNC_FORGEJO_WEBHOOK_SECRET'', ForgejoWebhookSecret c)]"

definition validate_hook_url :: "environment \<Rightarrow> string \<times> string \<Rightarrow> go_error + unit" where
  "validate_hook_url e nv =
     reject (snd nv \<noteq> [] \<and> (case ce_parse e (snd nv) of None \<Rightarrow> True
         | Some u \<Rightarrow> u_Scheme u \<noteq> ''http'' \<and> u_Scheme u \<noteq> ''https'' \<or> u_Host u = []))
       (fst nv @ '' must be an absolute http(s) URL'')"

definition validate_owner_entry :: "'s config \<Rightarrow> string \<times> string \<Rightarrow> go_error + unit" where
  "validate_owner_entry c nv = first_error
     [reject (fst nv \<notin> set (Namespaces c)) (''owner map key '' @ Quote (fst nv) @ '' is outside the configured namespaces''),
      reject (snd nv = [] \<or> ContainsAny (snd nv)) (''owner map target for '' @ Quote (fst nv) @ '' is invalid'')]"

definition validate_repo_entry :: "'s config \<Rightarrow> string \<times> string \<Rightarrow> go_error + unit" where
  "validate_repo_entry c nv = first_error
     [(case Cut slash (fst nv) of (owner, name, ok) \<Rightarrow>
        reject (\<not> ok \<or> owner \<notin> set (Namespaces c) \<or> name = [] \<or> ContainsAny name)
          (''repo map key '' @ Quote (fst nv) @ '' is invalid or outside the configured namespaces'')),
      (case Cut slash (snd nv) of (owner, name, ok) \<Rightarrow>
        reject (\<not> ok \<or> owner = [] \<or> name = [] \<or> ContainsAny name)
          (''repo map target for '' @ Quote (fst nv) @ '' must be forgejo-owner/name''))]"

definition secret_key :: "action_secret \<Rightarrow> string" where
  "secret_key s = s_Repository s @ [colon] @ s_Name s"

definition validate_secret :: "'s config \<Rightarrow> action_secret \<Rightarrow> go_error + unit" where
  "validate_secret c s =
     (case Cut slash (s_Repository s) of (owner, name, ok) \<Rightarrow> first_error
       [reject (\<not> ok \<or> owner = [] \<or> name = [] \<or> slash \<in> set name)
          (''action secret repository '' @ Quote (s_Repository s) @ '' is invalid''),
        reject (owner \<notin> set (Namespaces c))
          (''action secret repository '' @ Quote (s_Repository s) @ '' is outside the configured namespaces''),
        reject (\<not> validIdentifier (s_Name s)) (''action secret name '' @ Quote (s_Name s) @ '' is invalid''),
        reject (s_Value s = []) (''action secret '' @ secret_key s @ '' has an empty runtime value'')])"

fun validate_secrets :: "'s config \<Rightarrow> string set \<Rightarrow> action_secret list \<Rightarrow> go_error + unit" where
  "validate_secrets c seen [] = Inr ()"
| "validate_secrets c seen (s # ss) = first_error
     [validate_secret c s,
      reject (secret_key s \<in> seen) (''action secret '' @ secret_key s @ '' is configured more than once''),
      validate_secrets c (insert (secret_key s) seen) ss]"

definition Validate :: "environment \<Rightarrow> 's config \<Rightarrow> go_error + unit" where
  "Validate e c =
     (let missing = map fst (filter (\<lambda>nv. snd nv = []) (ce_order e (required c)))
      in first_error (
        [reject (missing \<noteq> []) (''missing required configuration: '' @ Join missing '', ''),
         reject (Namespaces c = []) ''at least one namespace is required'']
        @ map (\<lambda>n. reject (n \<notin> set config_namespaces) (''namespace '' @ Quote n @ '' is outside the allowed set'')) (Namespaces c)
        @ [reject (MaxConcurrency c < 1 \<or> MaxConcurrency c > 32) ''max concurrency must be between 1 and 32'',
         reject (MaxWebhookBody c < 1024 \<or> MaxWebhookBody c > 16777216) ''max webhook body must be between 1 KiB and 16 MiB'',
         reject (ReconcileInterval c < minute) ''reconcile interval must be at least one minute'',
         reject (RequestTimeout c \<le> 0 \<or> GitTimeout c \<le> 0) ''request and Git timeouts must be positive'',
         reject (GitHubMinInterval c < 0 \<or> ForgejoMinInterval c < 0) ''request intervals must not be negative'']
        @ map (validate_hook_url e) (ce_order e [(''FORGE_SYNC_GITHUB_WEBHOOK_URL'', GitHubWebhookURL c),
             (''FORGE_SYNC_FORGEJO_WEBHOOK_URL'', ForgejoWebhookURL c)])
        @ [(case retry_Validate (APIRetry c) of Inl err \<Rightarrow> Inl (Wrap ''API retry policy'' err) | Inr _ \<Rightarrow> Inr ())]
        @ map (validate_owner_entry c) (ce_order e (ForgejoOwnerMap c))
        @ map (validate_repo_entry c) (ce_order e (ForgejoRepoMap c))
        @ [validate_secrets c {} (ActionSecrets c)]))"

definition read_config ::
  "environment \<Rightarrow> (duration \<Rightarrow> ('s, unit) prog) \<Rightarrow> (string \<times> string) list \<Rightarrow> action_secret list \<Rightarrow> 's config" where
  "read_config e sleep repoMap actionSecrets =
     (let listenAddr = valueOr e ''FORGE_SYNC_LISTEN_ADDR'' ''127.0.0.1:8080''
      in \<lparr>GitHubAPI = valueOr e ''FORGE_SYNC_GITHUB_API'' ''https://api.github.com'',
          GitHubToken = Getenv e ''FORGE_SYNC_GITHUB_TOKEN'',
          ForgejoAPI = TrimRight (Getenv e ''FORGE_SYNC_FORGEJO_API'') slash,
          ForgejoToken = Getenv e ''FORGE_SYNC_FORGEJO_TOKEN'',
          GitHubWebhookSecret = Getenv e ''FORGE_SYNC_GITHUB_WEBHOOK_SECRET'',
          ForgejoWebhookSecret = Getenv e ''FORGE_SYNC_FORGEJO_WEBHOOK_SECRET'',
          GitHubWebhookURL = Getenv e ''FORGE_SYNC_GITHUB_WEBHOOK_URL'',
          ForgejoWebhookURL = valueOr e ''FORGE_SYNC_FORGEJO_WEBHOOK_URL'' (''http://'' @ listenAddr @ ''/webhooks/forgejo''),
          Namespaces = splitList (valueOr e ''FORGE_SYNC_NAMESPACES'' ''starintel-labs,lost-rob0t''),
          StatePath = valueOr e ''FORGE_SYNC_STATE_PATH'' ''/var/lib/forge-sync/forge-sync.db'',
          ListenAddr = listenAddr,
          ReconcileInterval = durationOr e ''FORGE_SYNC_RECONCILE_INTERVAL'' (5 * minute),
          RequestTimeout = durationOr e ''FORGE_SYNC_REQUEST_TIMEOUT'' (30 * second),
          GitTimeout = durationOr e ''FORGE_SYNC_GIT_TIMEOUT'' (5 * minute),
          GitHubMinInterval = durationOr e ''FORGE_SYNC_GITHUB_MIN_INTERVAL'' 0,
          ForgejoMinInterval = durationOr e ''FORGE_SYNC_FORGEJO_MIN_INTERVAL'' 0,
          MaxConcurrency = intOr e ''FORGE_SYNC_MAX_CONCURRENCY'' 4,
          MaxWebhookBody = int64Or e ''FORGE_SYNC_MAX_WEBHOOK_BODY'' (2 ^ 20),
          MaxRefSizeKB = i64 (int64Or e ''FORGE_SYNC_MAX_REF_SIZE_MB'' 8192 * 2 ^ 10),
          MaxAssetSizeBytes = i64 (int64Or e ''FORGE_SYNC_MAX_ASSET_SIZE_MB'' 512 * 2 ^ 20),
          APIRetry = \<lparr>MaxAttempts = intOr e ''FORGE_SYNC_API_MAX_ATTEMPTS'' 4,
            BaseDelay = durationOr e ''FORGE_SYNC_API_RETRY_BASE'' second,
            MaxDelay = durationOr e ''FORGE_SYNC_API_RETRY_MAX'' (30 * second),
            RateLimitMaxDelay = 0, NetworkRetry = False, Sleep = sleep\<rparr>,
          ForgejoOwnerMap = ownerMapOr e ''FORGE_SYNC_FORGEJO_OWNER_MAP'',
          ForgejoRepoMap = repoMap, ActionSecrets = actionSecrets\<rparr>)"

definition FromEnvironment :: "environment \<Rightarrow> (duration \<Rightarrow> ('s, unit) prog) \<Rightarrow> go_error + 's config" where
  "FromEnvironment e sleep =
     (case actionSecretsOr e ''FORGE_SYNC_ACTION_SECRET_MAP'' of Inl err \<Rightarrow> Inl err
      | Inr actionSecrets \<Rightarrow> (case repoMapOr e ''FORGE_SYNC_FORGEJO_REPO_MAP'' of Inl err \<Rightarrow> Inl err
          | Inr repoMap \<Rightarrow>
              let cfg = read_config e sleep repoMap actionSecrets
              in (case Validate e cfg of Inl err \<Rightarrow> Inl err | Inr _ \<Rightarrow> Inr cfg)))"

section \<open>What validation accepts\<close>

definition valid_repo_entry :: "'s config \<Rightarrow> string \<Rightarrow> string \<Rightarrow> bool" where
  "valid_repo_entry c source target \<longleftrightarrow>
     (\<exists>owner name. source = owner @ slash # name \<and> owner \<in> set (Namespaces c)
        \<and> slash \<notin> set owner \<and> name \<noteq> [] \<and> \<not> ContainsAny name)
   \<and> (\<exists>owner name. target = owner @ slash # name \<and> owner \<noteq> []
        \<and> slash \<notin> set owner \<and> name \<noteq> [] \<and> \<not> ContainsAny name)"

definition valid_secret :: "'s config \<Rightarrow> action_secret \<Rightarrow> bool" where
  "valid_secret c s \<longleftrightarrow>
     (\<exists>owner name. s_Repository s = owner @ slash # name \<and> owner \<noteq> [] \<and> owner \<in> set (Namespaces c)
        \<and> name \<noteq> [] \<and> slash \<notin> set owner \<and> slash \<notin> set name)
   \<and> validIdentifier (s_Name s) \<and> s_Value s \<noteq> []"

lemma first_error_Inr: "first_error cs = Inr () \<longleftrightarrow> (\<forall>x\<in>set cs. x = Inr ())"
  by (induction cs rule: first_error.induct) auto

lemma reject_Inr [simp]: "reject bad msg = Inr () \<longleftrightarrow> \<not> bad"
  by (simp add: reject_def)

lemma Cut_found: "Cut c s = (a, b, True) \<longleftrightarrow> s = a @ c # b \<and> c \<notin> set a"
  using Cut_join Cut_append by auto

lemma Cut_cases:
  "(case Cut c s of (a, b, ok) \<Rightarrow> ok \<and> P a b) \<longleftrightarrow> (\<exists>a b. s = a @ c # b \<and> c \<notin> set a \<and> P a b)"
  using Cut_found [of c s] by (cases "Cut c s") (auto simp: Cut_append split: prod.splits)

lemma validate_repo_entry_iff:
  "validate_repo_entry c nv = Inr () \<longleftrightarrow> valid_repo_entry c (fst nv) (snd nv)"
proof -
  have "validate_repo_entry c nv = Inr () \<longleftrightarrow>
     (case Cut slash (fst nv) of (owner, name, ok) \<Rightarrow>
        ok \<and> owner \<in> set (Namespaces c) \<and> name \<noteq> [] \<and> \<not> ContainsAny name)
   \<and> (case Cut slash (snd nv) of (owner, name, ok) \<Rightarrow> ok \<and> owner \<noteq> [] \<and> name \<noteq> [] \<and> \<not> ContainsAny name)"
    by (auto simp: validate_repo_entry_def first_error_Inr split: prod.splits)
  then show ?thesis unfolding Cut_cases valid_repo_entry_def by blast
qed

lemma validate_secret_iff: "validate_secret c s = Inr () \<longleftrightarrow> valid_secret c s"
proof -
  have "validate_secret c s = Inr () \<longleftrightarrow>
     (case Cut slash (s_Repository s) of (owner, name, ok) \<Rightarrow> ok \<and>
        owner \<noteq> [] \<and> owner \<in> set (Namespaces c) \<and> name \<noteq> [] \<and> slash \<notin> set name
        \<and> validIdentifier (s_Name s) \<and> s_Value s \<noteq> [])"
    by (auto simp: validate_secret_def first_error_Inr split: prod.splits)
  then show ?thesis unfolding Cut_cases valid_secret_def by blast
qed

lemma validIdentifier_no_colon: "validIdentifier name \<Longrightarrow> colon \<notin> set name"
proof
  assume valid: "validIdentifier name" and "colon \<in> set name"
  then obtain i where "i < length name" "name ! i = colon" by (auto simp: in_set_conv_nth)
  then have "(i, colon) \<in> set (enumerate 0 name)" by (auto simp: in_set_enumerate_eq)
  with valid show False by (auto simp: validIdentifier_def list_all_iff byte_def)
qed

text \<open>A secret's key names its repository and its name: neither is confused with another.\<close>

lemma valid_entry_code [code]:
  "valid_repo_entry c source target \<longleftrightarrow>
     (case Cut slash source of (owner, name, ok) \<Rightarrow>
        ok \<and> owner \<in> set (Namespaces c) \<and> name \<noteq> [] \<and> \<not> ContainsAny name)
   \<and> (case Cut slash target of (owner, name, ok) \<Rightarrow> ok \<and> owner \<noteq> [] \<and> name \<noteq> [] \<and> \<not> ContainsAny name)"
  "valid_secret c s \<longleftrightarrow> (case Cut slash (s_Repository s) of (owner, name, ok) \<Rightarrow> ok \<and>
        owner \<noteq> [] \<and> owner \<in> set (Namespaces c) \<and> name \<noteq> [] \<and> slash \<notin> set name
        \<and> validIdentifier (s_Name s) \<and> s_Value s \<noteq> [])"
  unfolding Cut_cases valid_repo_entry_def valid_secret_def by blast+

lemma secret_key_inj:
  assumes "valid_secret c s" "valid_secret c t"
  shows "secret_key s = secret_key t \<longleftrightarrow> s_Repository s = s_Repository t \<and> s_Name s = s_Name t"
proof
  assume key: "secret_key s = secret_key t"
  have "colon \<notin> set (s_Name s)" "colon \<notin> set (s_Name t)"
    using assms validIdentifier_no_colon by (auto simp: valid_secret_def)
  moreover have "rev (s_Name s) @ colon # rev (s_Repository s) = rev (s_Name t) @ colon # rev (s_Repository t)"
    using arg_cong [OF key, of rev] by (simp add: secret_key_def)
  ultimately have "rev (s_Name s) = rev (s_Name t) \<and> rev (s_Repository s) = rev (s_Repository t)"
    using Cut_append [of colon "rev (s_Name s)"] Cut_append [of colon "rev (s_Name t)"]
    by (metis Pair_inject set_rev)
  then show "s_Repository s = s_Repository t \<and> s_Name s = s_Name t" by simp
qed (simp add: secret_key_def)

lemma validate_secrets_iff:
  "validate_secrets c seen ss = Inr () \<longleftrightarrow>
     list_all (valid_secret c) ss \<and> distinct (map secret_key ss) \<and> seen \<inter> secret_key ` set ss = {}"
  by (induction c seen ss rule: validate_secrets.induct)
    (auto simp: first_error_Inr validate_secret_iff)

lemma distinct_secret_keys:
  "list_all (valid_secret c) ss \<Longrightarrow>
     distinct (map secret_key ss) \<longleftrightarrow> distinct (map (\<lambda>s. (s_Repository s, s_Name s)) ss)"
proof (induction ss)
  case (Cons s ss)
  then have "secret_key s \<in> secret_key ` set ss
      \<longleftrightarrow> (s_Repository s, s_Name s) \<in> (\<lambda>s. (s_Repository s, s_Name s)) ` set ss"
    using secret_key_inj [of c s] by (auto simp: image_iff list_all_iff)
  with Cons show ?case by simp
qed simp

definition absolute_http :: "environment \<Rightarrow> string \<Rightarrow> bool" where
  "absolute_http e url \<longleftrightarrow> (case ce_parse e url of None \<Rightarrow> False
     | Some u \<Rightarrow> (u_Scheme u = ''http'' \<or> u_Scheme u = ''https'') \<and> u_Host u \<noteq> [])"

definition acceptable :: "environment \<Rightarrow> 's config \<Rightarrow> bool" where
  "acceptable e c \<longleftrightarrow>
     GitHubToken c \<noteq> [] \<and> ForgejoAPI c \<noteq> [] \<and> ForgejoToken c \<noteq> []
   \<and> GitHubWebhookSecret c \<noteq> [] \<and> ForgejoWebhookSecret c \<noteq> []
   \<and> Namespaces c \<noteq> [] \<and> set (Namespaces c) \<subseteq> set config_namespaces
   \<and> 1 \<le> MaxConcurrency c \<and> MaxConcurrency c \<le> 32 \<and> 1024 \<le> MaxWebhookBody c \<and> MaxWebhookBody c \<le> 16777216
   \<and> minute \<le> ReconcileInterval c \<and> 0 < RequestTimeout c \<and> 0 < GitTimeout c
   \<and> 0 \<le> GitHubMinInterval c \<and> 0 \<le> ForgejoMinInterval c
   \<and> (\<forall>url \<in> {GitHubWebhookURL c, ForgejoWebhookURL c}. url = [] \<or> absolute_http e url)
   \<and> 1 \<le> MaxAttempts (APIRetry c) \<and> 0 \<le> BaseDelay (APIRetry c) \<and> 0 \<le> MaxDelay (APIRetry c)
   \<and> (0 < MaxDelay (APIRetry c) \<longrightarrow> BaseDelay (APIRetry c) \<le> MaxDelay (APIRetry c))
   \<and> (\<forall>(namespace, owner) \<in> set (ForgejoOwnerMap c).
        namespace \<in> set (Namespaces c) \<and> owner \<noteq> [] \<and> \<not> ContainsAny owner)
   \<and> (\<forall>(source, target) \<in> set (ForgejoRepoMap c). valid_repo_entry c source target)
   \<and> list_all (valid_secret c) (ActionSecrets c)
   \<and> distinct (map (\<lambda>s. (s_Repository s, s_Name s)) (ActionSecrets c))"

lemma list_all_first_error: "first_error (xs @ ys) = Inr () \<longleftrightarrow> first_error xs = Inr () \<and> first_error ys = Inr ()"
  by (auto simp: first_error_Inr)

lemma validate_owner_entry_iff:
  "validate_owner_entry c nv = Inr () \<longleftrightarrow>
     fst nv \<in> set (Namespaces c) \<and> snd nv \<noteq> [] \<and> \<not> ContainsAny (snd nv)"
  by (auto simp: validate_owner_entry_def first_error_Inr)

lemma validate_hook_url_iff:
  "validate_hook_url e nv = Inr () \<longleftrightarrow> snd nv = [] \<or> absolute_http e (snd nv)"
  by (auto simp: validate_hook_url_def absolute_http_def split: option.splits)

lemma unit_Inr: "(case r of Inl err \<Rightarrow> Inl (Wrap m err) | Inr u \<Rightarrow> Inr ()) = Inr () \<longleftrightarrow> r = Inr ()"
  by (cases r) auto

text \<open>C39: validation accepts exactly the acceptable configurations, whatever order Go ranges
  over its maps in: all five credentials are present, every namespace is one of the two allowed
  ones, the bounds on concurrency, body size, intervals and retries hold, the webhook URLs are
  absolute, both maps stay inside the namespaces, and every Actions secret is named once, for
  a repository of a configured namespace, with a value.\<close>

theorem Validate_exact:
  assumes order: "\<And>m. mset (ce_order e m) = mset m"
  shows "Validate e c = Inr () \<longleftrightarrow> acceptable e c"
proof -
  have set_order: "set (ce_order e m) = set m" for m by (metis order mset_eq_setD)
  have missing: "filter (\<lambda>nv. snd nv = []) (ce_order e (required c)) = [] \<longleftrightarrow>
      GitHubToken c \<noteq> [] \<and> ForgejoAPI c \<noteq> [] \<and> ForgejoToken c \<noteq> []
      \<and> GitHubWebhookSecret c \<noteq> [] \<and> ForgejoWebhookSecret c \<noteq> []"
    unfolding filter_empty_conv set_order by (auto simp: required_def)
  show ?thesis
    unfolding Validate_def Let_def list_all_first_error
    by (simp add: first_error_Inr missing set_order validate_hook_url_iff unit_Inr retry_Validate_iff
        validate_owner_entry_iff validate_repo_entry_iff validate_secrets_iff
        acceptable_def case_prod_beta subset_eq not_less not_le conj_assoc conj_comms)
      (use distinct_secret_keys [of c "ActionSecrets c"] in blast)
qed

text \<open>The retry policy read from the environment leaves \<open>RateLimitMaxDelay\<close> zero: an exhausted
  rate limit is waited for no longer than \<open>FORGE_SYNC_API_RETRY_MAX\<close>, 30 seconds by default,
  whatever time the server names.\<close>

lemma rate_limit_wait_capped:
  "FromEnvironment e sleep = Inr cfg \<Longrightarrow> 0 < MaxDelay (APIRetry cfg) \<Longrightarrow>
     delay (APIRetry cfg) i server True \<le> MaxDelay (APIRetry cfg)"
  by (auto simp: FromEnvironment_def read_config_def Let_def delay_def split: sum.splits)

section \<open>Worked example\<close>

definition sample_environment :: environment where
  "sample_environment = \<lparr>ce_LookupEnv = (\<lambda>key. None),
     ce_parse = (\<lambda>url. Some \<lparr>u_Scheme = ''http'', u_Host = url, u_User = False\<rparr>),
     ce_order = rev, ce_fraction = (\<lambda>f unit n. f)\<rparr>"

definition sample_config :: "unit config" where
  "sample_config = \<lparr>GitHubAPI = ''https://api.github.com'', GitHubToken = ''g'', ForgejoAPI = ''http://f'',
     ForgejoToken = ''t'', GitHubWebhookSecret = ''a'', ForgejoWebhookSecret = ''b'', GitHubWebhookURL = [],
     ForgejoWebhookURL = ''http://h/webhooks/forgejo'', Namespaces = [''lost-rob0t''], StatePath = ''db'',
     ListenAddr = '':8080'', ReconcileInterval = minute, RequestTimeout = 1, GitTimeout = 1,
     GitHubMinInterval = 0, ForgejoMinInterval = 0, MaxConcurrency = 4, MaxWebhookBody = 1024,
     MaxRefSizeKB = 1024, MaxAssetSizeBytes = 1024,
     APIRetry = \<lparr>MaxAttempts = 4, BaseDelay = 1, MaxDelay = 2, RateLimitMaxDelay = 0, NetworkRetry = False,
       Sleep = (\<lambda>d. ret ())\<rparr>,
     ForgejoOwnerMap = [(''lost-rob0t'', ''nix'')], ForgejoRepoMap = [(''lost-rob0t/a'', ''nix/b'')],
     ActionSecrets = [\<lparr>s_Repository = ''lost-rob0t/a'', s_Name = ''TOKEN'', s_Value = ''v''\<rparr>]\<rparr>"

theorem Validate_exact_witness: "Validate sample_environment sample_config = Inr ()"
proof -
  have "acceptable sample_environment sample_config" by code_simp
  then show ?thesis using Validate_exact [of sample_environment sample_config] by (simp add: sample_environment_def)
qed
end
