(* ===== verification/Pool.thy ===== *)
theory Pool
  imports Program "HOL-Library.Multiset"
begin

text \<open>
  The worker pool of \<open>Engine.reconcileMappings\<close> (\<open>internal/reconcile/engine.go\<close>): a feeder
  goroutine, a buffered channel of jobs, \<open>maxConcurrency\<close> workers, a channel of results, a
  channel that holds the first error, and a derived context that the first error cancels.
  Every interleaving of the goroutines is a sequence of events; \<open>pool_run\<close> follows a given
  schedule. A job is one atomic event: jobs belong to different repositories and touch
  different rows and different objects. A job that runs after the cancellation has no effect:
  all its calls fail with the context's error, which finds the error channel full.
\<close>

section \<open>State and events\<close>

datatype ('m, 'r) worker = Idle | Busy 'm | Holding 'r | Gone

record ('m, 'r) pool =
  p_feed :: "'m list"
  p_closed :: bool
  p_jobs :: "'m list"
  p_workers :: "('m, 'r) worker list"
  p_results :: "'r list"
  p_error :: "go_error option"

text \<open>The derived context is cancelled exactly when an error was put in its channel.\<close>

definition p_cancelled :: "('m, 'r) pool \<Rightarrow> bool" where
  "p_cancelled p \<longleftrightarrow> p_error p \<noteq> None"

datatype event = Feed | Close | Take nat | Leave nat | Finish nat | Deliver nat | Drop nat

definition new_pool :: "nat \<Rightarrow> 'm list \<Rightarrow> ('m, 'r) pool" where
  "new_pool cap ms = \<lparr>p_feed = ms, p_closed = False, p_jobs = [],
     p_workers = replicate (min cap (length ms)) Idle, p_results = [], p_error = None\<rparr>"

definition set_worker :: "nat \<Rightarrow> ('m, 'r) worker \<Rightarrow> ('m, 'r) pool \<Rightarrow> ('m, 'r) pool" where
  "set_worker i w p = p\<lparr>p_workers := (p_workers p)[i := w]\<rparr>"

definition worker_at :: "('m, 'r) pool \<Rightarrow> nat \<Rightarrow> ('m, 'r) worker" where
  "worker_at p i = (if i < length (p_workers p) then p_workers p ! i else Gone)"

text \<open>The event's effect, if it can happen. \<open>stop\<close> tells whether the caller's context has ended.\<close>

fun fire ::
  "nat \<Rightarrow> ('s \<Rightarrow> bool) \<Rightarrow> ('m \<Rightarrow> ('s, 'r) prog) \<Rightarrow> event \<Rightarrow> ('m, 'r) pool \<times> 's \<Rightarrow> (('m, 'r) pool \<times> 's) option" where
  "fire cap stop job Feed (p, s) = (case p_feed p of
       m # ms \<Rightarrow> if \<not> p_closed p \<and> length (p_jobs p) < cap
         then Some (p\<lparr>p_feed := ms, p_jobs := p_jobs p @ [m]\<rparr>, s) else None
     | [] \<Rightarrow> None)"
| "fire cap stop job Close (p, s) =
     (if \<not> p_closed p \<and> (p_feed p = [] \<or> p_cancelled p \<or> stop s) then Some (p\<lparr>p_closed := True\<rparr>, s) else None)"
| "fire cap stop job (Take i) (p, s) = (case (worker_at p i, p_jobs p) of
       (Idle, m # ms) \<Rightarrow> Some (set_worker i (Busy m) (p\<lparr>p_jobs := ms\<rparr>), s) | _ \<Rightarrow> None)"
| "fire cap stop job (Leave i) (p, s) = (case (worker_at p i, p_jobs p) of
       (Idle, []) \<Rightarrow> if p_closed p then Some (set_worker i Gone p, s) else None | _ \<Rightarrow> None)"
| "fire cap stop job (Finish i) (p, s) = (case worker_at p i of
       Busy m \<Rightarrow> if p_cancelled p then Some (set_worker i Gone p, s)
         else (case job m s of
             (Inl e, t) \<Rightarrow> Some (set_worker i Gone (p\<lparr>p_error := Some e\<rparr>), t)
           | (Inr r, t) \<Rightarrow> Some (set_worker i (Holding r) p, t))
     | _ \<Rightarrow> None)"
| "fire cap stop job (Deliver i) (p, s) = (case worker_at p i of
       Holding r \<Rightarrow> Some (set_worker i Idle (p\<lparr>p_results := p_results p @ [r]\<rparr>), s) | _ \<Rightarrow> None)"
| "fire cap stop job (Drop i) (p, s) = (case worker_at p i of
       Holding r \<Rightarrow> if p_cancelled p \<or> stop s then Some (set_worker i Gone p, s) else None | _ \<Rightarrow> None)"

inductive pool_step ::
  "nat \<Rightarrow> ('s \<Rightarrow> bool) \<Rightarrow> ('m \<Rightarrow> ('s, 'r) prog) \<Rightarrow> ('m, 'r) pool \<times> 's \<Rightarrow> ('m, 'r) pool \<times> 's \<Rightarrow> bool"
  for cap stop job where
  "fire cap stop job e c = Some c' \<Longrightarrow> pool_step cap stop job c c'"

inductive_cases pool_stepE: "pool_step cap stop job c c'"

text \<open>\<open>wait.Wait()\<close> returns when every worker has.\<close>

definition finished :: "('m, 'r) pool \<Rightarrow> bool" where
  "finished p \<longleftrightarrow> list_all (\<lambda>w. case w of Gone \<Rightarrow> True | _ \<Rightarrow> False) (p_workers p)"

section \<open>Every event uses up a part of the work\<close>

fun load :: "('m, 'r) worker \<Rightarrow> nat" where
  "load Gone = 0"
| "load Idle = 1"
| "load (Holding r) = 2"
| "load (Busy m) = 3"

definition work :: "('m, 'r) pool \<Rightarrow> nat" where
  "work p = 5 * length (p_feed p) + 4 * length (p_jobs p) + sum_list (map load (p_workers p))
     + (if p_closed p then 0 else 1)"

lemma sum_list_worker:
  "i < length ws \<Longrightarrow> sum_list (map load (ws[i := w])) + load (ws ! i) = sum_list (map load ws) + load w"
proof (induction ws arbitrary: i)
  case (Cons a ws)
  then show ?case by (cases i) auto
qed simp

lemma work_worker:
  assumes "worker_at p i = v" and "v \<noteq> Gone"
  shows "work (set_worker i w p) + load v = work p + load w"
proof -
  have "i < length (p_workers p)" "p_workers p ! i = v"
    using assms by (auto simp: worker_at_def split: if_splits)
  with sum_list_worker [of i "p_workers p" w] show ?thesis by (simp add: work_def set_worker_def)
qed

lemma work_less: "worker_at p i = v \<Longrightarrow> load w < load v \<Longrightarrow> work (set_worker i w p) < work p"
  using work_worker [of p i v w] by (cases v) auto

lemma worker_at_update [simp]:
  "worker_at (p\<lparr>p_jobs := js\<rparr>) i = worker_at p i"
  "worker_at (p\<lparr>p_error := e\<rparr>) i = worker_at p i"
  "worker_at (p\<lparr>p_results := rs\<rparr>) i = worker_at p i"
  by (simp_all add: worker_at_def)

lemma work_update [simp]:
  "work (p\<lparr>p_error := e\<rparr>) = work p"
  "work (p\<lparr>p_results := rs\<rparr>) = work p"
  "work (p\<lparr>p_jobs := js\<rparr>) + 4 * length (p_jobs p) = work p + 4 * length js"
  by (simp_all add: work_def)

lemma fire_work: "fire cap stop job e (p, s) = Some (p', t) \<Longrightarrow> work p' < work p"
proof (cases e)
  case (Take i)
  assume "fire cap stop job e (p, s) = Some (p', t)"
  with Take obtain m ms where w: "worker_at p i = Idle" and j: "p_jobs p = m # ms"
    and p': "p' = set_worker i (Busy m) (p\<lparr>p_jobs := ms\<rparr>)"
    by (auto split: worker.splits list.splits)
  have "work p' + 1 = work (p\<lparr>p_jobs := ms\<rparr>) + 3"
    unfolding p' using work_worker [of "p\<lparr>p_jobs := ms\<rparr>" i Idle "Busy m"] w by simp
  then show ?thesis using work_update(3) [where p = p and js = ms] j by simp
next
  case (Finish i)
  assume fired: "fire cap stop job e (p, s) = Some (p', t)"
  show ?thesis
  proof (cases "worker_at p i")
    case (Busy m)
    then have less: "load w < 3 \<Longrightarrow> work (set_worker i w q) < work q" if "worker_at q i = Busy m" for w q
      using work_less [OF that] by simp
    show ?thesis
      using fired Finish Busy less [of p] less [of "p\<lparr>p_error := x\<rparr>" for x]
      by (auto split: if_splits prod.splits sum.splits simp: less)
  qed (use fired Finish in simp_all)
next
  case (Deliver i)
  assume "fire cap stop job e (p, s) = Some (p', t)"
  with Deliver obtain r where b: "worker_at p i = Holding r" and p': "p' = set_worker i Idle (p\<lparr>p_results := p_results p @ [r]\<rparr>)"
    by (auto split: worker.splits)
  with work_worker [of "p\<lparr>p_results := p_results p @ [r]\<rparr>" i "Holding r" Idle] show ?thesis by simp
next
  case (Drop i)
  assume "fire cap stop job e (p, s) = Some (p', t)"
  with Drop work_worker [of p i _ Gone] show ?thesis by (auto split: worker.splits if_splits)
next
  case (Leave i)
  assume "fire cap stop job e (p, s) = Some (p', t)"
  with Leave work_worker [of p i Idle Gone] show ?thesis by (auto split: worker.splits if_splits list.splits)
qed (auto simp: work_def split: list.splits if_splits)

section \<open>Running a schedule\<close>

definition all_events :: "('m, 'r) pool \<Rightarrow> event list" where
  "all_events p = [Feed, Close] @ concat (map (\<lambda>i. [Take i, Leave i, Finish i, Deliver i, Drop i]) [0..<length (p_workers p)])"

definition enabled ::
  "nat \<Rightarrow> ('s \<Rightarrow> bool) \<Rightarrow> ('m \<Rightarrow> ('s, 'r) prog) \<Rightarrow> ('m, 'r) pool \<times> 's \<Rightarrow> event list" where
  "enabled cap stop job c = filter (\<lambda>e. fire cap stop job e c \<noteq> None) (all_events (fst c))"

text \<open>\<open>choice k\<close> decides which of the possible events is the \<open>k\<close>-th.\<close>

function pool_run ::
  "nat \<Rightarrow> ('s \<Rightarrow> bool) \<Rightarrow> ('m \<Rightarrow> ('s, 'r) prog) \<Rightarrow> (nat \<Rightarrow> nat) \<Rightarrow> nat \<Rightarrow> ('m, 'r) pool \<times> 's \<Rightarrow> ('m, 'r) pool \<times> 's" where
  "pool_run cap stop job choice k c =
     (let es = enabled cap stop job c
      in if finished (fst c) \<or> es = [] then c
         else (case fire cap stop job (es ! (choice k mod length es)) c of
             None \<Rightarrow> c | Some c' \<Rightarrow> pool_run cap stop job choice (Suc k) c'))"
  by pat_completeness auto
termination
  by (relation "measure (\<lambda>(cap, stop, job, choice, k, c). work (fst c))") (auto dest: fire_work)

declare pool_run.simps [simp del]

section \<open>No deadlock\<close>

lemma all_events_complete: "fire cap stop job e c \<noteq> None \<Longrightarrow> e \<in> set (all_events (fst c))"
proof (cases c)
  fix p s assume "fire cap stop job e c \<noteq> None" and c: "c = (p, s)"
  then have "e = Feed \<or> e = Close \<or> (\<exists>i < length (p_workers p). e \<in> {Take i, Leave i, Finish i, Deliver i, Drop i})"
    by (cases e) (auto simp: worker_at_def split: if_splits)
  then show ?thesis by (auto simp: all_events_def c)
qed

lemma enabled_iff: "e \<in> set (enabled cap stop job c) \<longleftrightarrow> fire cap stop job e c \<noteq> None"
  using all_events_complete [of cap stop job e c] by (auto simp: enabled_def)

lemma no_deadlock:
  assumes "0 < cap" and "\<not> finished p"
  shows "\<exists>e. fire cap stop job e (p, s) \<noteq> None"
proof -
  obtain w where w: "w \<in> set (p_workers p)" "w \<noteq> Gone"
    using assms(2) by (auto simp: finished_def list_all_iff split: worker.splits)
  then obtain i where "i < length (p_workers p)" "p_workers p ! i = w" by (auto simp: in_set_conv_nth)
  then have i: "worker_at p i = w" by (simp add: worker_at_def)
  show ?thesis
  proof (cases w)
    case Idle
    show ?thesis
    proof (cases "p_jobs p")
      case Nil
      then consider "p_closed p" | "\<not> p_closed p" "p_feed p = []" | m ms where "\<not> p_closed p" "p_feed p = m # ms"
        by (cases "p_feed p") auto
      then show ?thesis
      proof cases
        case 1
        with i Idle Nil have "fire cap stop job (Leave i) (p, s) \<noteq> None" by simp
        then show ?thesis by (rule exI)
      next
        case 2
        then have "fire cap stop job Close (p, s) \<noteq> None" by simp
        then show ?thesis by (rule exI)
      next
        case 3
        with Nil assms(1) have "fire cap stop job Feed (p, s) \<noteq> None" by simp
        then show ?thesis by (rule exI)
      qed
    next
      case (Cons m ms)
      with i Idle have "fire cap stop job (Take i) (p, s) \<noteq> None" by simp
      then show ?thesis by (rule exI)
    qed
  next
    case (Busy m)
    with i have "fire cap stop job (Finish i) (p, s) \<noteq> None" by (simp split: prod.splits sum.splits)
    then show ?thesis by (rule exI)
  next
    case (Holding r)
    with i have "fire cap stop job (Deliver i) (p, s) \<noteq> None" by simp
    then show ?thesis by (rule exI)
  qed (use w in simp)
qed

lemma pool_run_steps: "(pool_step cap stop job)\<^sup>*\<^sup>* c (pool_run cap stop job choice k c)"
proof (induction cap stop job choice k c rule: pool_run.induct)
  case (1 cap stop job choice k c)
  let ?es = "enabled cap stop job c"
  show ?case
  proof (cases "finished (fst c) \<or> ?es = []")
    case True
    then show ?thesis by (simp add: pool_run.simps [of cap stop job choice k c] Let_def)
  next
    case False
    then have "?es ! (choice k mod length ?es) \<in> set ?es" by simp
    then obtain c' where c': "fire cap stop job (?es ! (choice k mod length ?es)) c = Some c'"
      unfolding enabled_iff by blast
    with False 1 [OF HOL.refl False c'] have "(pool_step cap stop job)\<^sup>*\<^sup>* c' (pool_run cap stop job choice (Suc k) c')" by simp
    with c' False show ?thesis
      by (simp add: pool_run.simps [of cap stop job choice k c] Let_def)
        (meson converse_rtranclp_into_rtranclp pool_step.intros)
  qed
qed

lemma pool_run_finishes: "0 < cap \<Longrightarrow> finished (fst (pool_run cap stop job choice k c))"
proof (induction cap stop job choice k c rule: pool_run.induct)
  case (1 cap stop job choice k c)
  let ?es = "enabled cap stop job c"
  show ?case
  proof (cases "finished (fst c)")
    case True
    then show ?thesis by (simp add: pool_run.simps [of cap stop job choice k c] Let_def)
  next
    case False
    then have "\<exists>e. fire cap stop job e c \<noteq> None" using no_deadlock [OF 1(2)] by (cases c) simp
    then have es: "?es \<noteq> []" using enabled_iff [of _ cap stop job c] by fastforce
    then have "?es ! (choice k mod length ?es) \<in> set ?es" by simp
    then obtain c' where c': "fire cap stop job (?es ! (choice k mod length ?es)) c = Some c'"
      unfolding enabled_iff by blast
    with False es 1(1) [OF HOL.refl _ c'] 1(2) show ?thesis
      by (simp add: pool_run.simps [of cap stop job choice k c] Let_def)
  qed
qed

section \<open>Nothing is lost, nothing is done twice\<close>

fun busy_of :: "('m, 'r) worker \<Rightarrow> 'm list" where
  "busy_of (Busy m) = [m]"
| "busy_of w = []"

fun held_of :: "('m, 'r) worker \<Rightarrow> 'r list" where
  "held_of (Holding r) = [r]"
| "held_of w = []"

definition of_workers :: "(('m, 'r) worker \<Rightarrow> 'x list) \<Rightarrow> ('m, 'r) worker list \<Rightarrow> 'x multiset" where
  "of_workers f ws = mset (concat (map f ws))"

lemma of_workers_update:
  "i < length ws \<Longrightarrow> of_workers f (ws[i := w]) + mset (f (ws ! i)) = of_workers f ws + mset (f w)"
proof (induction ws arbitrary: i)
  case (Cons a ws)
  show ?case
  proof (cases i)
    case (Suc j)
    with Cons show ?thesis by (simp add: of_workers_def union_assoc)
  qed (simp add: of_workers_def union_commute)
qed simp

text \<open>\<open>V\<close> are the states the run passes through. \<open>r\<close> is what a run of the job for \<open>m\<close> returned that
  was started in one of them.\<close>

definition outcome :: "('s \<Rightarrow> bool) \<Rightarrow> ('m \<Rightarrow> ('s, 'r) prog) \<Rightarrow> 'm \<Rightarrow> 'r \<Rightarrow> bool" where
  "outcome V job m r \<longleftrightarrow> (\<exists>s t. V s \<and> job m s = (Inr r, t))"

text \<open>The mappings are those still in the feed, in the channel or with a worker, those done, whose
  results are delivered or held, and those dropped because of an error or the end of the
  caller's context.\<close>

definition ledger ::
  "('s \<Rightarrow> bool) \<Rightarrow> ('s \<Rightarrow> bool) \<Rightarrow> ('m \<Rightarrow> ('s, 'r) prog) \<Rightarrow> 'm list \<Rightarrow> ('m, 'r) pool \<Rightarrow> 'm multiset \<Rightarrow> 'm multiset \<Rightarrow> bool" where
  "ledger V stop job ms p D L \<longleftrightarrow>
     mset ms = mset (p_feed p) + mset (p_jobs p) + of_workers busy_of (p_workers p) + D + L
   \<and> rel_mset (outcome V job) D (mset (p_results p) + of_workers held_of (p_workers p))
   \<and> (L \<noteq> {#} \<longrightarrow> p_error p \<noteq> None \<or> (\<exists>s. V s \<and> stop s))
   \<and> (p_closed p \<longrightarrow> p_feed p = [] \<or> p_error p \<noteq> None \<or> (\<exists>s. V s \<and> stop s))
   \<and> (Gone \<in> set (p_workers p) \<longrightarrow> p_closed p \<and> p_jobs p = [] \<or> p_error p \<noteq> None \<or> (\<exists>s. V s \<and> stop s))
   \<and> (case p_error p of None \<Rightarrow> True | Some e \<Rightarrow> \<exists>m \<in> set ms. \<exists>s t. V s \<and> job m s = (Inl e, t))"

definition accounted :: "('s \<Rightarrow> bool) \<Rightarrow> ('s \<Rightarrow> bool) \<Rightarrow> ('m \<Rightarrow> ('s, 'r) prog) \<Rightarrow> 'm list \<Rightarrow> ('m, 'r) pool \<Rightarrow> bool" where
  "accounted V stop job ms p \<longleftrightarrow> (\<exists>D L. ledger V stop job ms p D L)"

lemma of_workers_idle: "of_workers f (replicate n Idle) = {#}" if "f Idle = []"
  using that by (induction n) (simp_all add: of_workers_def)

lemma accounted_new: "accounted V stop job ms (new_pool cap ms)"
  unfolding accounted_def ledger_def
  by (intro exI [of _ "{#}"]) (auto simp: new_pool_def of_workers_idle rel_mset_def)

lemma worker_parts:
  assumes "worker_at p i = v" and "v \<noteq> Gone"
  shows "of_workers f (p_workers (set_worker i w p)) + mset (f v) = of_workers f (p_workers p) + mset (f w)"
    and "w \<noteq> Gone \<Longrightarrow> Gone \<in> set (p_workers (set_worker i w p)) \<Longrightarrow> Gone \<in> set (p_workers p)"
proof -
  have i: "i < length (p_workers p)" "p_workers p ! i = v"
    using assms by (auto simp: worker_at_def split: if_splits)
  show "of_workers f (p_workers (set_worker i w p)) + mset (f v) = of_workers f (p_workers p) + mset (f w)"
    using of_workers_update [OF i(1), of f w] i(2) by (simp add: set_worker_def)
  show "w \<noteq> Gone \<Longrightarrow> Gone \<in> set (p_workers (set_worker i w p)) \<Longrightarrow> Gone \<in> set (p_workers p)"
    using set_update_subset_insert [of "p_workers p" i w] by (auto simp: set_worker_def)
qed

lemma set_worker_fields [simp]:
  "p_feed (set_worker i w p) = p_feed p" "p_closed (set_worker i w p) = p_closed p"
  "p_jobs (set_worker i w p) = p_jobs p" "p_results (set_worker i w p) = p_results p"
  "p_error (set_worker i w p) = p_error p"
  by (simp_all add: set_worker_def)

text \<open>What each event does to the account: \<open>D\<close> are the mappings done, \<open>L\<close> those dropped.\<close>

lemma ledger_feed:
  "ledger V stop job ms p D L \<Longrightarrow> p_feed p = m # fs \<Longrightarrow> \<not> p_closed p \<Longrightarrow>
     ledger V stop job ms (p\<lparr>p_feed := fs, p_jobs := p_jobs p @ [m]\<rparr>) D L"
  unfolding ledger_def by auto

lemma ledger_close:
  "ledger V stop job ms p D L \<Longrightarrow> p_feed p = [] \<or> p_error p \<noteq> None \<or> (\<exists>s. V s \<and> stop s) \<Longrightarrow>
     ledger V stop job ms (p\<lparr>p_closed := True\<rparr>) D L"
  unfolding ledger_def by auto

lemma ledger_take:
  assumes "ledger V stop job ms p D L" "worker_at p i = Idle" "p_jobs p = m # js"
  shows "ledger V stop job ms (set_worker i (Busy m) (p\<lparr>p_jobs := js\<rparr>)) D L"
proof -
  note parts = worker_parts [of "p\<lparr>p_jobs := js\<rparr>" i Idle, where w = "Busy m"]
  show ?thesis
    using assms parts(1) [where f = busy_of] parts(1) [where f = held_of] parts(2) unfolding ledger_def by auto
qed

lemma ledger_leave:
  assumes "ledger V stop job ms p D L" "worker_at p i = Idle" "p_jobs p = []" "p_closed p"
  shows "ledger V stop job ms (set_worker i Gone p) D L"
proof -
  note parts = worker_parts(1) [of p i Idle, where w = Gone]
  show ?thesis using assms parts [where f = busy_of] parts [where f = held_of] unfolding ledger_def by auto
qed

lemma ledger_abandon:
  assumes "ledger V stop job ms p D L" "worker_at p i = Busy m" "p_error p \<noteq> None"
  shows "ledger V stop job ms (set_worker i Gone p) D (add_mset m L)"
proof -
  note parts = worker_parts(1) [of p i "Busy m", where w = Gone]
  show ?thesis using assms parts [where f = busy_of] parts [where f = held_of] unfolding ledger_def by auto
qed

lemma ledger_busy:
  assumes "ledger V stop job ms p D L" "worker_at p i = Busy m"
  shows "m \<in> set ms"
proof -
  have "of_workers busy_of (p_workers p) = add_mset m (of_workers busy_of (p_workers (set_worker i Gone p)))"
    using assms(2) worker_parts(1) [of p i "Busy m", where w = Gone and f = busy_of] by simp
  then have "m \<in># mset ms" using assms(1) unfolding ledger_def by simp
  then show ?thesis by simp
qed

lemma ledger_fail:
  assumes "V s" "ledger V stop job ms p D L" "worker_at p i = Busy m" "job m s = (Inl x, t)"
  shows "ledger V stop job ms (set_worker i Gone (p\<lparr>p_error := Some x\<rparr>)) D (add_mset m L)"
proof -
  note parts = worker_parts(1) [of "p\<lparr>p_error := Some x\<rparr>" i "Busy m", where w = Gone]
  show ?thesis
    using assms ledger_busy [OF assms(2,3)] parts [where f = busy_of] parts [where f = held_of]
    unfolding ledger_def by auto
qed

lemma ledger_finish:
  assumes "V s" "ledger V stop job ms p D L" "worker_at p i = Busy m" "job m s = (Inr r, t)"
  shows "ledger V stop job ms (set_worker i (Holding r) p) (add_mset m D) L"
proof -
  have o: "outcome V job m r" using assms(1,4) unfolding outcome_def by blast
  note parts = worker_parts [of p i "Busy m", where w = "Holding r"]
  show ?thesis
    using assms rel_mset_Plus [where R = "outcome V job", OF o] parts(1) [where f = busy_of] parts(1) [where f = held_of] parts(2)
    unfolding ledger_def by auto
qed

lemma ledger_deliver:
  assumes "ledger V stop job ms p D L" "worker_at p i = Holding r"
  shows "ledger V stop job ms (set_worker i Idle (p\<lparr>p_results := p_results p @ [r]\<rparr>)) D L"
proof -
  let ?p = "set_worker i Idle (p\<lparr>p_results := p_results p @ [r]\<rparr>)"
  note parts = worker_parts [of "p\<lparr>p_results := p_results p @ [r]\<rparr>" i "Holding r", where w = Idle]
  have "mset (p_results p) + of_workers held_of (p_workers p)
      = mset (p_results ?p) + of_workers held_of (p_workers ?p)"
    using parts(1) [where f = held_of, symmetric] assms(2) by (simp add: union_ac)
  then show ?thesis
    using assms parts(1) [where f = busy_of] parts(2) unfolding ledger_def by auto
qed

lemma ledger_drop:
  assumes "ledger V stop job ms p D L" "worker_at p i = Holding r" "p_error p \<noteq> None \<or> (\<exists>s. V s \<and> stop s)"
  shows "\<exists>D' m. ledger V stop job ms (set_worker i Gone p) D' (add_mset m L)"
proof -
  let ?p = "set_worker i Gone p"
  note parts = worker_parts(1) [of p i "Holding r", where w = Gone]
  have "of_workers held_of (p_workers p) = add_mset r (of_workers held_of (p_workers ?p))"
    using parts [where f = held_of] assms(2) by simp
  then obtain D' m where "D = add_mset m D'"
    and "rel_mset (outcome V job) D' (mset (p_results p) + of_workers held_of (p_workers ?p))"
    using msed_rel_invR [of "outcome V job" D r "mset (p_results p) + of_workers held_of (p_workers ?p)"] assms(1)
    unfolding ledger_def by auto
  then have "ledger V stop job ms ?p D' (add_mset m L)"
    using assms parts [where f = busy_of] unfolding ledger_def by auto
  then show ?thesis by blast
qed

lemma fire_accounted:
  assumes acc: "accounted V stop job ms p" and here: "V s" and fired: "fire cap stop job e (p, s) = Some (p', t)"
  shows "accounted V stop job ms p'"
proof -
  obtain D L where led: "ledger V stop job ms p D L" using acc unfolding accounted_def by blast
  note over = p_cancelled_def
  have "\<exists>D L. ledger V stop job ms p' D L"
  proof (cases e)
    case Feed
    with fired led show ?thesis by (auto intro: ledger_feed split: list.splits if_splits)
  next
    case Close
    with fired here have "p' = p\<lparr>p_closed := True\<rparr>" "p_feed p = [] \<or> p_error p \<noteq> None \<or> (\<exists>s. V s \<and> stop s)"
      by (auto simp: over split: if_splits)
    with ledger_close [OF led] show ?thesis by blast
  next
    case (Take i)
    with fired led show ?thesis by (auto intro: ledger_take split: worker.splits list.splits)
  next
    case (Leave i)
    with fired led show ?thesis by (auto intro: ledger_leave split: worker.splits list.splits if_splits)
  next
    case (Finish i)
    with fired led show ?thesis
      by (auto simp: over intro: ledger_abandon ledger_fail [of V, OF here] ledger_finish [of V, OF here]
          split: worker.splits if_splits prod.splits sum.splits)
  next
    case (Deliver i)
    with fired led show ?thesis by (auto intro: ledger_deliver split: worker.splits)
  next
    case (Drop i)
    with fired here have "\<exists>r. worker_at p i = Holding r" "p_error p \<noteq> None \<or> (\<exists>s. V s \<and> stop s)" "p' = set_worker i Gone p"
      by (auto simp: over split: worker.splits if_splits)
    with ledger_drop [OF led] show ?thesis by blast
  qed
  then show ?thesis unfolding accounted_def .
qed

text \<open>What the pool returns when every worker has: the first error, or the results, of which
  there must be one per mapping.\<close>

definition settle :: "'m list \<Rightarrow> ('m, 'r) pool \<Rightarrow> go_error + 'r list" where
  "settle ms p = (case p_error p of Some e \<Rightarrow> Inl e
     | None \<Rightarrow> if length (p_results p) \<noteq> length ms
         then Inl (Err ''reconciliation stopped before all repositories completed'')
         else Inr (p_results p))"

text \<open>The configurations that a run of the pool passes through.\<close>

inductive passes ::
  "nat \<Rightarrow> ('s \<Rightarrow> bool) \<Rightarrow> ('m \<Rightarrow> ('s, 'r) prog) \<Rightarrow> (nat \<Rightarrow> nat) \<Rightarrow> nat \<Rightarrow>
   ('m, 'r) pool \<times> 's \<Rightarrow> ('m, 'r) pool \<times> 's \<Rightarrow> bool"
  for cap stop job choice where
  here: "passes cap stop job choice k c c"
| on: "\<not> finished (fst c) \<Longrightarrow> enabled cap stop job c \<noteq> [] \<Longrightarrow>
     fire cap stop job (enabled cap stop job c ! (choice k mod length (enabled cap stop job c))) c = Some c' \<Longrightarrow>
     passes cap stop job choice (Suc k) c' d \<Longrightarrow> passes cap stop job choice k c d"

lemma pool_run_accounted:
  assumes "accounted V stop job ms (fst c)" and "\<And>d. passes cap stop job choice k c d \<Longrightarrow> V (snd d)"
  shows "accounted V stop job ms (fst (pool_run cap stop job choice k c))"
  using assms
proof (induction cap stop job choice k c rule: pool_run.induct)
  case (1 cap stop job choice k c)
  let ?es = "enabled cap stop job c"
  show ?case
  proof (cases "finished (fst c) \<or> ?es = []")
    case True
    with 1(2) show ?thesis by (simp add: pool_run.simps [of cap stop job choice k c] Let_def)
  next
    case False
    then have "?es ! (choice k mod length ?es) \<in> set ?es" by simp
    then obtain c' where c': "fire cap stop job (?es ! (choice k mod length ?es)) c = Some c'"
      unfolding enabled_iff by blast
    have "V (snd c)" by (rule 1(3)) (rule passes.here)
    with c' 1(2) have "accounted V stop job ms (fst c')" by (cases c; cases c') (auto dest: fire_accounted)
    moreover have "V (snd d)" if "passes cap stop job choice (Suc k) c' d" for d
      by (rule 1(3)) (rule passes.on [OF _ _ c' that], use False in simp_all)
    ultimately have "accounted V stop job ms (fst (pool_run cap stop job choice (Suc k) c'))"
      by (rule 1(1) [OF HOL.refl False c'])
    with c' False show ?thesis by (simp add: pool_run.simps [of cap stop job choice k c] Let_def)
  qed
qed

lemma finished_workers:
  assumes "finished p"
  shows "of_workers busy_of (p_workers p) = {#} \<and> of_workers held_of (p_workers p) = {#}"
proof -
  have "busy_of w = [] \<and> held_of w = []" if "w \<in> set (p_workers p)" for w
    using assms that by (cases w) (auto simp: finished_def list_all_iff)
  then show ?thesis by (auto simp: of_workers_def)
qed

text \<open>Results were returned: one per mapping, each the outcome of its mapping's job.\<close>

lemma settled_results:
  assumes "accounted V stop job ms p" and "finished p" and "settle ms p = Inr rs"
  shows "rel_mset (outcome V job) (mset ms) (mset rs)"
proof -
  obtain D L where sum: "mset ms = mset (p_feed p) + mset (p_jobs p) + of_workers busy_of (p_workers p) + D + L"
    and rel: "rel_mset (outcome V job) D (mset (p_results p) + of_workers held_of (p_workers p))"
    using assms(1) unfolding accounted_def ledger_def by blast
  have rs: "p_results p = rs" "length rs = length ms"
    using assms(3) by (auto simp: settle_def split: option.splits if_splits)
  have "size D = length ms" using rel_mset_size [OF rel] finished_workers [OF assms(2)] rs by simp
  moreover have "length ms = length (p_feed p) + length (p_jobs p) + size (of_workers busy_of (p_workers p)) + size D + size L"
    using arg_cong [OF sum, of size] by simp
  ultimately have "D = mset ms" using sum by simp
  with rel rs finished_workers [OF assms(2)] show ?thesis by simp
qed

text \<open>An error was returned: it is the error of the job of some mapping, started in a state of the
  run, or the pool's own error, after the caller's context has ended in a state of the run.\<close>

lemma settled_error:
  assumes "accounted V stop job ms p" and "finished p" and "p_workers p \<noteq> []" and "settle ms p = Inl e"
  shows "(\<exists>m \<in> set ms. \<exists>s t. V s \<and> job m s = (Inl e, t))
    \<or> e = Err ''reconciliation stopped before all repositories completed'' \<and> (\<exists>s. V s \<and> stop s)"
proof (cases "p_error p")
  case None
  obtain D L where sum: "mset ms = mset (p_feed p) + mset (p_jobs p) + of_workers busy_of (p_workers p) + D + L"
    and rel: "rel_mset (outcome V job) D (mset (p_results p) + of_workers held_of (p_workers p))"
    and lost: "L \<noteq> {#} \<longrightarrow> (\<exists>s. V s \<and> stop s)" and closed: "p_closed p \<longrightarrow> p_feed p = [] \<or> (\<exists>s. V s \<and> stop s)"
    and gone: "Gone \<in> set (p_workers p) \<longrightarrow> p_closed p \<and> p_jobs p = [] \<or> (\<exists>s. V s \<and> stop s)"
    using assms(1) unfolding accounted_def ledger_def None by auto
  have "Gone \<in> set (p_workers p)"
    using assms(2,3) by (cases "p_workers p") (auto simp: finished_def split: worker.splits)
  moreover have less: "length (p_results p) \<noteq> length ms"
    and e: "e = Err ''reconciliation stopped before all repositories completed''"
    using assms(4) None by (auto simp: settle_def split: if_splits)
  moreover have "size D = length (p_results p)"
    using rel_mset_size [OF rel] finished_workers [OF assms(2)] by simp
  ultimately have "\<exists>s. V s \<and> stop s"
    using sum lost closed gone finished_workers [OF assms(2)] by (metis add.left_neutral add.right_neutral mset.simps(1) size_mset)
  with e show ?thesis by blast
next
  case (Some x)
  then have "x = e" using assms(4) by (simp add: settle_def)
  with assms(1) Some show ?thesis by (auto simp: accounted_def ledger_def)
qed

text \<open>No worker is ever added or removed.\<close>

lemma pool_workers:
  "(pool_step cap stop job)\<^sup>*\<^sup>* (p, s) (q, t) \<Longrightarrow> length (p_workers q) = length (p_workers p)"
proof (induction "(q, t)" arbitrary: q t rule: rtranclp_induct)
  case (step c)
  obtain p' s' where c: "c = (p', s')" by (cases c)
  obtain e where "fire cap stop job e (p', s') = Some (q, t)"
    using step.hyps(2) c by (auto elim: pool_stepE)
  then have "length (p_workers q) = length (p_workers p')"
    by (cases e) (auto simp: set_worker_def split: list.splits worker.splits if_splits prod.splits sum.splits)
  with step.hyps(3) [OF c] show ?case by simp
qed simp

text \<open>What every job guarantees, the pool guarantees.\<close>

context guarantee
begin

lemma pool_steps_guar:
  assumes "(pool_step cap stop job)\<^sup>*\<^sup>* (p, s) (q, t)" and "\<And>m. guar R (job m)"
  shows "R s t"
  using assms(1)
proof (induction "(q, t)" arbitrary: q t rule: rtranclp_induct)
  case (step c)
  obtain p' s' where c: "c = (p', s')" by (cases c)
  obtain e where "fire cap stop job e (p', s') = Some (q, t)"
    using step.hyps(2) c by (auto elim: pool_stepE)
  then have "R s' t"
    using assms(2) [THEN guarD] refl
    by (cases e) (auto split: list.splits worker.splits if_splits prod.splits sum.splits)
  with step.hyps(3) [OF c] show ?case by (blast intro: trans)
qed (rule refl)

end
end
