(* ===== verification/Engine.thy ===== *)
theory Engine
  imports StoreProperties Issues Comments PullRequests Releases Secrets Repositories RefSync Webhooks Pool
begin

text \<open>
  \<open>internal/reconcile/engine.go\<close>: one repository's synchronization, the worker pool over all
  mapped repositories, the run that is recorded around it, the processing of a webhook and the
  scheduler. The order in which the Go runtime schedules the workers is \<open>en_schedule\<close>; reading
  \<open>repository.full_name\<close> out of a webhook payload (\<open>json.Unmarshal\<close>) is \<open>en_decode\<close>.
\<close>

section \<open>The engine\<close>

record repository_result =
  res_Repository :: string
  res_Actions :: "action list"
  res_Conflicts :: nat

record sync_report =
  rep_Inventory :: inventory
  rep_Repositories :: "repository_result list"

record 'w engine =
  en_repositories :: "'w repository_reconciler"
  en_issues :: "'w issue_reconciler"
  en_comments :: "'w comment_reconciler"
  en_pulls :: "'w pull_reconciler"
  en_releases :: "'w release_reconciler"
  en_setSecret :: "'w secret_forge"
  en_secrets :: "action_secret list"
  en_git :: "'w host"
  en_namespaces :: "string list"
  en_githubToken :: string
  en_forgejoToken :: string
  en_cloneBase :: string
  en_maxConcurrency :: int
  en_maxRefSizeKB :: int
  en_schedule :: "nat \<Rightarrow> nat"
  en_decode :: "string \<Rightarrow> go_error + string"

definition defaultMaxRefSizeKB :: int where "defaultMaxRefSizeKB = 8388608"

text \<open>\<open>New\<close>: the settings it derives, or \<open>None\<close> where it panics. The reconcilers are those of the
  given engine.\<close>

definition new_engine ::
  "'w engine \<Rightarrow> string list \<Rightarrow> string \<Rightarrow> string \<Rightarrow> string \<Rightarrow> int \<Rightarrow> int \<Rightarrow> 'w engine option" where
  "new_engine N namespaces githubToken forgejoToken forgejoAPI maxConcurrency maxRefSizeKB =
     (if namespaces = [] \<or> githubToken = [] \<or> forgejoToken = [] \<or> maxConcurrency < 1 then None
      else Some (N\<lparr>en_namespaces := namespaces, en_githubToken := githubToken, en_forgejoToken := forgejoToken,
        en_cloneBase := TrimSuffix (TrimRight forgejoAPI slash) ''/api/v1'', en_maxConcurrency := maxConcurrency,
        en_maxRefSizeKB := (if maxRefSizeKB \<le> 0 then defaultMaxRefSizeKB else maxRefSizeKB)\<rparr>))"

section \<open>The report as JSON\<close>

definition json_array :: "string list \<Rightarrow> string" where
  "json_array xs = ''['' @ Join xs '','' @ '']''"

definition action_json :: "action \<Rightarrow> string" where
  "action_json a = json_object [(''Ref'', json_string (act_Ref a)), (''SHA'', json_string (act_SHA a)),
     (''From'', json_string (forge_name (act_From a))), (''To'', json_string (forge_name (act_To a)))]"

definition result_json :: "repository_result \<Rightarrow> string" where
  "result_json r = json_object ([(''repository'', json_string (res_Repository r))]
     @ (if res_Actions r = [] then [] else [(''actions'', json_array (map action_json (res_Actions r)))])
     @ [(''conflicts'', FormatInt (int (res_Conflicts r)))])"

definition inventory_json :: "inventory \<Rightarrow> string" where
  "inventory_json v = json_object [(''github_repositories'', FormatInt (v_GitHubRepositories v)),
     (''forgejo_repositories'', FormatInt (v_ForgejoRepositories v)), (''missing'', FormatInt (v_Missing v)),
     (''in_sync'', FormatInt (v_InSync v)), (''conflicted'', FormatInt (v_Conflicted v))]"

definition report_json :: "sync_report \<Rightarrow> string" where
  "report_json r = json_object ([(''inventory'', inventory_json (rep_Inventory r))]
     @ (if rep_Repositories r = [] then []
        else [(''repositories'', json_array (map result_json (rep_Repositories r)))]))"

section \<open>One repository\<close>

definition conflict_result :: "repository_mapping \<Rightarrow> repository_result" where
  "conflict_result m = \<lparr>res_Repository = rm_GitHubFullName m, res_Actions = [], res_Conflicts = 1\<rparr>"

text \<open>\<open>recordMappingCollision\<close>: \<open>None\<close> is "not handled".\<close>

definition recordMappingCollision ::
  "'w env \<Rightarrow> repository_mapping \<Rightarrow> bool \<Rightarrow> string \<Rightarrow> go_error \<Rightarrow> ('w sys, repository_result option) prog" where
  "recordMappingCollision E m dryRun kind err =
     (if dryRun \<or> \<not> Contains (Error err) ''UNIQUE constraint failed'' then ret None
      else tryE (record_conflict E ''mapping-collision'' (rm_GitHubFullName m) kind ''duplicate-pairing'' ''occupied'' (Error err))
        (\<lambda>r. case r of Inl _ \<Rightarrow> ret None | Inr _ \<Rightarrow> ret (Some (conflict_result m))))"

text \<open>A reconciler's step: a collision ends the repository with a recorded conflict, another error
  ends it with that error, and otherwise the rest follows.\<close>

definition contained ::
  "'w env \<Rightarrow> repository_mapping \<Rightarrow> bool \<Rightarrow> string \<Rightarrow> ('w sys, unit) prog \<Rightarrow>
   ('w sys, repository_result) prog \<Rightarrow> ('w sys, repository_result) prog" where
  "contained E m dryRun kind step rest =
     tryE step (\<lambda>r. case r of
       Inr _ \<Rightarrow> rest
     | Inl err \<Rightarrow> bnd (recordMappingCollision E m dryRun kind err) (\<lambda>handled. case handled of
           Some result \<Rightarrow> ret result
         | None \<Rightarrow> throw (Wrap (''synchronize '' @ kind @ '' for '' @ rm_GitHubFullName m) err)))"

definition github_remote :: "'w engine \<Rightarrow> repository_mapping \<Rightarrow> remote" where
  "github_remote N m = \<lparr>re_URL = ''https://github.com/'' @ rm_GitHubFullName m @ ''.git'',
     re_Username = ''x-access-token'', re_Token = en_githubToken N\<rparr>"

definition forgejo_remote :: "'w engine \<Rightarrow> repository_mapping \<Rightarrow> remote" where
  "forgejo_remote N m = \<lparr>re_URL = en_cloneBase N @ ''/'' @ rm_ForgejoOwner m @ ''/'' @ rm_ForgejoName m @ ''.git'',
     re_Username = ''oauth2'', re_Token = en_forgejoToken N\<rparr>"

text \<open>The objects, after the refs.\<close>

definition reconcile_objects ::
  "'w env \<Rightarrow> 'w engine \<Rightarrow> repository_mapping \<Rightarrow> bool \<Rightarrow> sync_result \<Rightarrow> ('w sys, repository_result) prog" where
  "reconcile_objects E N m dryRun gitResult =
     contained E m dryRun ''issues'' (issues_Reconcile E (en_issues N) m dryRun)
     (bnd (ListIssueMappings E (rm_GitHubID m)) (\<lambda>issueMappings.
      contained E m dryRun ''comments'' (comments_Reconcile E (en_comments N) m issueMappings dryRun)
      (contained E m dryRun ''pull requests'' (pulls_Reconcile E (en_pulls N) m dryRun)
       (bnd (ListPullRequestMappings E (rm_GitHubID m)) (\<lambda>pullRequestMappings.
        contained E m dryRun ''pull request comments'' (ReconcilePullRequests E (en_comments N) m pullRequestMappings dryRun)
        (tryE (releases_Reconcile E (en_releases N) m dryRun) (\<lambda>r. case r of
            Inr _ \<Rightarrow> ret \<lparr>res_Repository = rm_GitHubFullName m, res_Actions = sr_Actions gitResult,
                res_Conflicts = length (sr_Conflicts gitResult)\<rparr>
          | Inl err \<Rightarrow>
              if dryRun then throw (Wrap (''synchronize releases for '' @ rm_GitHubFullName m) err)
              else bnd (wrapE (''record release failure for '' @ rm_GitHubFullName m)
                  (record_conflict E ''release-error'' (rm_GitHubFullName m) ''releases'' ''sync-failed'' ''sync-failed'' (Error err)))
                (\<lambda>_. ret (conflict_result m)))))))))"

definition reconcileOne ::
  "'w env \<Rightarrow> 'w engine \<Rightarrow> bool \<Rightarrow> repository_mapping \<Rightarrow> ('w sys, repository_result) prog" where
  "reconcileOne E N dryRun m =
     bnd (wrapE (''synchronize Actions secrets for '' @ rm_GitHubFullName m)
       (secrets_Reconcile (en_setSecret N) (en_secrets N) m dryRun)) (\<lambda>_.
     if rm_SizeKB m > en_maxRefSizeKB N then
       bnd (whenE (\<not> dryRun) (record_conflict E ''ref-sync-skipped'' (rm_GitHubFullName m) ''git-refs''
           (FormatInt (rm_SizeKB m) @ '' KiB'') (''limit '' @ FormatInt (en_maxRefSizeKB N) @ '' KiB'') ''workspace-bound''))
         (\<lambda>_. ret (conflict_result m))
     else
       tryE (Sync E (en_git N) (rm_GitHubFullName m) (github_remote N m) (forgejo_remote N m) dryRun) (\<lambda>r. case r of
           Inr gitResult \<Rightarrow> reconcile_objects E N m dryRun gitResult
         | Inl err \<Rightarrow>
             if dryRun then throw (Wrap (''synchronize refs for '' @ rm_GitHubFullName m) err)
             else bnd (wrapE (''record git-ref failure for '' @ rm_GitHubFullName m)
                 (record_conflict E ''git-ref-error'' (rm_GitHubFullName m) ''git-refs'' ''sync-failed'' ''sync-failed'' (Error err)))
               (\<lambda>_. ret (conflict_result m))))"

section \<open>All repositories\<close>

definition stopped :: "'w engine \<Rightarrow> 'w sys \<Rightarrow> bool" where
  "stopped N s \<longleftrightarrow> h_ctx (en_git N) (world s) \<noteq> None"

definition reconcileMappings ::
  "'w env \<Rightarrow> 'w engine \<Rightarrow> repository_mapping list \<Rightarrow> bool \<Rightarrow> ('w sys, repository_result list) prog" where
  "reconcileMappings E N ms dryRun =
     (if ms = [] then ret []
      else (\<lambda>s. let cap = nat (en_maxConcurrency N)
          in case pool_run cap (stopped N) (reconcileOne E N dryRun) (en_schedule N) 0 (new_pool cap ms, s) of
               (p, t) \<Rightarrow> (settle ms p, t)))"

text \<open>A program that looks at the state it starts in.\<close>

definition with_state :: "('s \<Rightarrow> ('s, 'a) prog) \<Rightarrow> ('s, 'a) prog" where
  "with_state m = (\<lambda>s. m s s)"

text \<open>The body of \<open>Reconcile\<close>: the named results \<open>report\<close> and \<open>finalErr\<close>.\<close>

definition selected :: "string \<Rightarrow> repository_mapping list \<Rightarrow> repository_mapping list" where
  "selected scope ms = (if scope = ''all'' then ms
     else filter (\<lambda>m. ToLower (rm_GitHubFullName m) = ToLower scope) ms)"

definition reconcile_body ::
  "'w env \<Rightarrow> 'w engine \<Rightarrow> string \<Rightarrow> bool \<Rightarrow> ('w sys, sync_report \<times> go_error option) prog" where
  "reconcile_body E N scope dryRun = with_state (\<lambda>s.
     tryE (Discover E (en_repositories N) (en_namespaces N) dryRun) (\<lambda>r. case r of
       Inl err \<Rightarrow> ret (\<lparr>rep_Inventory = Discover_reached E (en_repositories N) dryRun (en_namespaces N) (empty_inventory, {}) s,
           rep_Repositories = []\<rparr>, Some err)
     | Inr v \<Rightarrow> (let report = \<lparr>rep_Inventory = v, rep_Repositories = []\<rparr>
         in tryE (ListRepositories E) (\<lambda>r. case r of
           Inl err \<Rightarrow> ret (report, Some err)
         | Inr ms \<Rightarrow>
             if scope \<noteq> ''all'' \<and> selected scope ms = []
             then ret (report, Some (Err (''repository '' @ Quote scope @ '' is not mapped'')))
             else tryE (reconcileMappings E N (selected scope ms) dryRun) (\<lambda>r. case r of
               Inl err \<Rightarrow> ret (report, Some err)
             | Inr results \<Rightarrow> (let report = report\<lparr>rep_Repositories := sort_key res_Repository results\<rparr>
                 in tryE (ListConflicts E) (\<lambda>r. case r of
                   Inl err \<Rightarrow> ret (report, Some err)
                 | Inr conflicts \<Rightarrow> ret (report\<lparr>rep_Inventory := v\<lparr>v_Conflicted := int (length conflicts)\<rparr>\<rparr>, None))))))))"

definition Reconcile :: "'w env \<Rightarrow> 'w engine \<Rightarrow> string \<Rightarrow> bool \<Rightarrow> ('w sys, sync_report) prog" where
  "Reconcile E N scope dryRun =
     (let scope = (if scope = [] then ''all'' else scope)
      in bnd (BeginRun E scope dryRun) (\<lambda>runID.
         bnd (reconcile_body E N scope dryRun) (\<lambda>(report, finalErr).
         tryE (CompleteRun E runID (report_json report) finalErr) (\<lambda>completed.
         case finalErr of
           Some err \<Rightarrow> throw err
         | None \<Rightarrow> (case completed of Inl err \<Rightarrow> throw err | Inr _ \<Rightarrow> ret report)))))"

section \<open>Webhooks and the scheduler\<close>

definition ProcessWebhook :: "'w env \<Rightarrow> 'w engine \<Rightarrow> 'w processor" where
  "ProcessWebhook E N forge event payload =
     (case en_decode N payload of
        Inl err \<Rightarrow> throw (Wrap ''decode webhook payload'' err)
      | Inr fullName \<Rightarrow>
          if fullName = [] then bnd (Reconcile E N ''all'' False) (\<lambda>_. ret ())
          else (case Cut slash fullName of (owner, name, ok) \<Rightarrow>
            if \<not> ok \<or> name = [] then throw (Err ''webhook repository full name is malformed'')
            else if owner \<in> set (en_namespaces N) then bnd (Reconcile E N fullName False) (\<lambda>_. ret ())
            else bnd (RepositoriesByForgejoPath E owner name) (\<lambda>matches.
              if matches = []
              then throw (Err (''webhook repository '' @ Quote fullName @ '' is outside configured namespaces''))
              else forE (\<lambda>m. bnd (Reconcile E N (rm_GitHubFullName m) False) (\<lambda>_. ret ())) matches)))"

text \<open>\<open>Scheduler.Run\<close> over a number of ticks, after which the context ends: the errors it reports.\<close>

fun Scheduler_Run :: "'w env \<Rightarrow> 'w engine \<Rightarrow> nat \<Rightarrow> ('w sys, go_error list) prog" where
  "Scheduler_Run E N 0 = ret []"
| "Scheduler_Run E N (Suc ticks) = (\<lambda>s. if stopped N s then (Inr [], s)
     else tryE (Reconcile E N ''all'' False) (\<lambda>r t.
       (bnd (Scheduler_Run E N ticks) (\<lambda>errs.
         ret ((case r of Inl err \<Rightarrow> if stopped N t then [] else [err] | Inr _ \<Rightarrow> []) @ errs))) t) s)"

section \<open>What one repository's synchronization keeps\<close>

lemmas engine_defs = recordMappingCollision_def contained_def reconcile_objects_def reconcileOne_def

lemma reconcileOne_honest [guar_intros]: "guar (on_db honest) (reconcileOne E N dryRun m)"
  unfolding engine_defs by (intro guar_intros guar_splits)+

lemma dry_collision: "recordMappingCollision E m True kind err = ret None"
  by (simp add: recordMappingCollision_def)

lemma reconcileOne_dry_unchanged: "guar (on_db unchanged) (reconcileOne E N True m)"
  unfolding contained_def reconcile_objects_def reconcileOne_def dry_collision
  by (intro guar_intros guar_splits) simp_all

context store_guarantee
begin

lemma reconcileMappings_guar:
  fixes N :: "'w engine"
  assumes "\<And>m. guar (on_db P) (reconcileOne E N dryRun m)"
  shows "guar (on_db P) (reconcileMappings E N ms dryRun)"
proof (cases "ms = []")
  case False
  have "on_db P s t" if "pool_run cap stop (reconcileOne E N dryRun) ch k (p, s) = (q, t)"
    for cap stop ch k p q and s t :: "'w sys"
    using pool_steps_guar [of cap stop "reconcileOne E N dryRun" p s q t] pool_run_steps [of cap stop "reconcileOne E N dryRun" "(p, s)" ch k]
      that assms by simp
  then show ?thesis using False by (auto simp: guar_def reconcileMappings_def Let_def split: prod.splits)
qed (simp add: reconcileMappings_def ret_guar)

end

lemma with_state_guar: "(\<And>s. guar R (m s)) \<Longrightarrow> guar R (with_state m)"
  by (simp add: guar_def with_state_def)

lemma reconcile_body_honest [guar_intros]: "guar (on_db honest) (reconcile_body E N scope dryRun)"
  unfolding reconcile_body_def
  by (intro with_state_guar guar_intros guar_splits honest.reconcileMappings_guar)

lemma Reconcile_honest [guar_intros]: "guar (on_db honest) (Reconcile E N scope dryRun)"
  unfolding Reconcile_def by (intro guar_intros guar_splits)

lemma ProcessWebhook_honest [guar_intros]: "guar (on_db honest) (ProcessWebhook E N forge event payload)"
  unfolding ProcessWebhook_def by (intro guar_intros guar_splits)

text \<open>The engine is the processor of the webhook handler.\<close>

interpretation engine: webhook_processor "ProcessWebhook E N"
  by unfold_locales (rule ProcessWebhook_honest)

section \<open>A dry run\<close>

text \<open>Two engines that read alike: the same settings, listings and reading git commands, whatever
  their writing operations do.\<close>

definition reads_alike :: "'w engine \<Rightarrow> 'w engine \<Rightarrow> bool" where
  "reads_alike N N' \<longleftrightarrow>
     discovery_alike (en_repositories N) (en_repositories N')
   \<and> ListIssues (ir_github (en_issues N')) = ListIssues (ir_github (en_issues N))
   \<and> ListIssues (ir_forgejo (en_issues N')) = ListIssues (ir_forgejo (en_issues N))
   \<and> ListComments (cr_github (en_comments N')) = ListComments (cr_github (en_comments N))
   \<and> ListComments (cr_forgejo (en_comments N')) = ListComments (cr_forgejo (en_comments N))
   \<and> ListPullRequests (pr_github (en_pulls N')) = ListPullRequests (pr_github (en_pulls N))
   \<and> ListPullRequests (pr_forgejo (en_pulls N')) = ListPullRequests (pr_forgejo (en_pulls N))
   \<and> ListReleases (lr_github (en_releases N')) = ListReleases (lr_github (en_releases N))
   \<and> ListReleases (lr_forgejo (en_releases N')) = ListReleases (lr_forgejo (en_releases N))
   \<and> agree_on reading (en_git N) (en_git N')
   \<and> en_secrets N' = en_secrets N \<and> en_namespaces N' = en_namespaces N
   \<and> en_githubToken N' = en_githubToken N \<and> en_forgejoToken N' = en_forgejoToken N
   \<and> en_cloneBase N' = en_cloneBase N \<and> en_maxConcurrency N' = en_maxConcurrency N
   \<and> en_maxRefSizeKB N' = en_maxRefSizeKB N \<and> en_schedule N' = en_schedule N"

lemma secrets_dry: "secrets_Reconcile f cs m True = ret ()"
  by (simp add: secrets_Reconcile_def Let_def)

lemma reconcileOne_dry_reads: "reads_alike N N' \<Longrightarrow> reconcileOne E N' True = reconcileOne E N True"
proof
  fix m
  assume a: "reads_alike N N'"
  have remotes: "github_remote N' m = github_remote N m" "forgejo_remote N' m = forgejo_remote N m"
    and limit: "en_maxRefSizeKB N' = en_maxRefSizeKB N"
    using a by (simp_all add: reads_alike_def github_remote_def forgejo_remote_def)
  have issues: "issues_Reconcile E (en_issues N') m True = issues_Reconcile E (en_issues N) m True"
    by (rule issues_Reconcile_dry_reads) (use a in \<open>simp_all add: reads_alike_def\<close>)
  have comments: "comments_Reconcile E (en_comments N') m ims True = comments_Reconcile E (en_comments N) m ims True"
    "ReconcilePullRequests E (en_comments N') m pms True = ReconcilePullRequests E (en_comments N) m pms True" for ims pms
    by (rule comments_dry_reads; use a in \<open>simp add: reads_alike_def\<close>)+
  have pulls: "pulls_Reconcile E (en_pulls N') m True = pulls_Reconcile E (en_pulls N) m True"
    by (rule pulls_Reconcile_dry_reads) (use a in \<open>simp_all add: reads_alike_def\<close>)
  have releases: "releases_Reconcile E (en_releases N') m True = releases_Reconcile E (en_releases N) m True"
    by (rule releases_Reconcile_dry_reads) (use a in \<open>simp_all add: reads_alike_def\<close>)
  have git: "Sync E (en_git N') r g f True = Sync E (en_git N) r g f True" for r g f
    by (rule Sync_dry_reads) (use a in \<open>simp add: reads_alike_def\<close>)
  have objects: "reconcile_objects E N' m True res = reconcile_objects E N m True res" for res
    unfolding reconcile_objects_def issues comments pulls releases by (rule HOL.refl)
  show "reconcileOne E N' True m = reconcileOne E N True m"
    unfolding reconcileOne_def secrets_dry git objects remotes limit by (rule HOL.refl)
qed

lemma reconcileMappings_dry_reads:
  assumes "reads_alike N N'"
  shows "reconcileMappings E N' ms True = reconcileMappings E N ms True"
proof -
  have "h_ctx (en_git N') = h_ctx (en_git N)"
    using assms unfolding reads_alike_def agree_on_def by (metis host.select_convs(6) host.surjective host.update_convs(5))
  then have "stopped N' = stopped N" by (simp add: fun_eq_iff stopped_def)
  with assms show ?thesis
    by (simp add: reconcileMappings_def reconcileOne_dry_reads [OF assms]) (simp add: reads_alike_def)
qed

text \<open>The tables of the store but the runs.\<close>

definition only_runs :: "store \<Rightarrow> store \<Rightarrow> bool" where
  "only_runs d d' \<longleftrightarrow> d' = d\<lparr>t_runs := t_runs d', t_run_seq := t_run_seq d'\<rparr>"

interpretation only_runs: store_guarantee only_runs
proof
  fix d e f :: store
  assume "only_runs d e" "only_runs e f"
  then show "only_runs d f" unfolding only_runs_def by (cases d; cases e; cases f) simp
qed (simp add: only_runs_def)

lemma unchanged_only_runs: "guar (on_db unchanged) m \<Longrightarrow> guar (on_db only_runs) m"
  by (erule guar_mono) (simp add: on_db_def unchanged_def only_runs.P_refl)

lemma run_rows_only_runs [guar_intros]:
  "guar (on_db only_runs) (BeginRun E scope dryRun)"
  "guar (on_db only_runs) (CompleteRun E i sm re)"
  unfolding BeginRun_def CompleteRun_def
  by (intro guar_intros guar_splits only_runs.db_exec_guar;
      auto simp: begin_run_row_def complete_run_row_def only_runs_def Let_def)+

lemma Reconcile_dry_only_runs: "guar (on_db only_runs) (Reconcile E N scope True)"
  unfolding Reconcile_def reconcile_body_def
  by (intro guar_intros guar_splits with_state_guar only_runs.reconcileMappings_guar
      unchanged_only_runs [OF reconcileOne_dry_unchanged] unchanged_only_runs [OF Discover_dry_unchanged]
      read_unchanged [THEN unchanged_only_runs])

lemma reconcile_body_dry_reads:
  "reads_alike N N' \<Longrightarrow> reconcile_body E N' scope True = reconcile_body E N scope True"
proof -
  assume a: "reads_alike N N'"
  then have d: "discovery_alike (en_repositories N) (en_repositories N')" and n: "en_namespaces N' = en_namespaces N"
    by (simp_all add: reads_alike_def)
  show ?thesis
    unfolding reconcile_body_def n Discover_dry_reads [OF d] Discover_reached_dry_reads [OF d]
      reconcileMappings_dry_reads [OF a] by (rule HOL.refl)
qed

section \<open>Every run is recorded\<close>

text \<open>Between the beginning and the completion of a run the table of runs does not change.\<close>

definition runs_kept :: "store \<Rightarrow> store \<Rightarrow> bool" where
  "runs_kept d d' \<longleftrightarrow> t_runs d' = t_runs d \<and> t_run_seq d' = t_run_seq d"

interpretation runs_kept: store_guarantee runs_kept
  by unfold_locales (simp_all add: runs_kept_def)

lemma unchanged_runs_kept: "guar (on_db unchanged) m \<Longrightarrow> guar (on_db runs_kept) m"
  by (erule guar_mono) (simp add: on_db_def unchanged_def runs_kept.P_refl)

lemmas read_runs_kept [guar_intros] = read_unchanged [THEN unchanged_runs_kept]

lemma write_runs_kept [guar_intros]:
  "guar (on_db runs_kept) (UpsertRepository E rm)"
  "guar (on_db runs_kept) (UpsertIssueMapping E im)"
  "guar (on_db runs_kept) (UpsertPullRequestMapping E pm)"
  "guar (on_db runs_kept) (UpsertCommentMapping E cm)"
  "guar (on_db runs_kept) (UpsertReleaseMapping E lm)"
  "guar (on_db runs_kept) (AddConflict E k)"
  unfolding UpsertRepository_def UpsertIssueMapping_def UpsertPullRequestMapping_def
    UpsertCommentMapping_def UpsertReleaseMapping_def AddConflict_def
  by (intro guar_intros guar_splits runs_kept.db_exec_guar;
      auto simp: upsert_repository_row_def upsert_issue_row_def upsert_pull_row_def upsert_comment_row_def
        upsert_release_row_def add_conflict_row_def runs_kept_def Let_def split: sum.splits if_splits)+

lemma record_conflict_runs_kept [guar_intros]:
  "guar (on_db runs_kept) (record_conflict E kind repo key gs fs lk)"
  unfolding record_conflict_def by (intro guar_intros)

lemma issues_runs_kept [guar_intros]: "guar (on_db runs_kept) (issues_Reconcile E R repo dry)"
  unfolding issues_Reconcile_def issues_sync_def issues_defs
  by (intro guar_intros guar_splits guar_decision)+

lemma comments_runs_kept [guar_intros]:
  "guar (on_db runs_kept) (comments_Reconcile E R repo ims dry)"
  "guar (on_db runs_kept) (ReconcilePullRequests E R repo pms dry)"
  unfolding comments_Reconcile_def ReconcilePullRequests_def comments_thread_def reconcileThread_def
    comments_sync_def comments_defs
  by (intro guar_intros guar_splits guar_decision)+

lemma pulls_runs_kept [guar_intros]: "guar (on_db runs_kept) (pulls_Reconcile E R repo dry)"
  unfolding pulls_Reconcile_def pulls_sync_def pulls_defs
  by (intro guar_intros guar_splits guar_decision)+

lemma releases_runs_kept [guar_intros]: "guar (on_db runs_kept) (releases_Reconcile E R repo dry)"
  unfolding releases_Reconcile_def releases_sync_def releases_defs
  by (intro guar_intros guar_splits guar_decision)+

lemma Discover_runs_kept [guar_intros]: "guar (on_db runs_kept) (Discover E R nss dry)"
  unfolding discover_defs by (intro guar_intros guar_splits)+

lemma Sync_runs_kept [guar_intros]: "guar (on_db runs_kept) (Sync E H repository g f dry)"
  unfolding Sync_def sync_workspace_def fetchWithRetry_def Let_def
  by (intro guar_intros guar_splits runs_kept.deferE_guar runs_kept.fetch_loop_guar runs_kept.Plan_guar
      runs_kept.push_guar runs_kept.localRefs_guar)
    (simp add: on_db_def runs_kept.P_refl)

lemma reconcileOne_runs_kept [guar_intros]: "guar (on_db runs_kept) (reconcileOne E N dry m)"
  unfolding engine_defs by (intro guar_intros guar_splits unchanged_runs_kept [OF secrets_unchanged])+

lemma reconcile_body_runs_kept: "guar (on_db runs_kept) (reconcile_body E N scope dryRun)"
  unfolding reconcile_body_def
  by (intro with_state_guar guar_intros guar_splits runs_kept.reconcileMappings_guar)
lemma now_total: "\<exists>tm u. now E s = (Inr tm, u) \<and> db u = db s"
  by (cases "e_now E (world s)") (simp add: now_app)

lemma db_exec_calm:
  assumes "\<And>w. fst (e_fault E w) = None" and "f (db s) = Inr (x, d)"
  shows "\<exists>u. db_exec E f s = (Inr x, u) \<and> db u = d"
  using assms(1) [of "world s"] assms(2) by (cases "e_fault E (world s)") (simp add: db_exec_def)

lemma bnd_at: "p s = (Inr y, u) \<Longrightarrow> bnd p k s = k y u"
  by (simp add: bnd_app)

lemma BeginRun_cases:
  assumes "BeginRun E scope dryRun s = (i, u)"
  shows "case i of Inl e \<Rightarrow> db u = db s | Inr n \<Rightarrow> \<exists>tm. begin_run_row scope dryRun tm (db s) = Inr (n, db u)"
proof -
  obtain tm v where n: "now E s = (Inr tm, v)" "db v = db s" using now_total by blast
  obtain x w where "db_exec E (begin_run_row scope dryRun tm) v = (x, w)" by fastforce
  with n assms show ?thesis
    by (cases x) (auto simp: BeginRun_def bnd_app wrapE_app dest!: db_exec_Inr db_exec_Inl)
qed

lemma BeginRun_calm:
  assumes "\<And>w. fst (e_fault E w) = None"
  shows "\<exists>i u. BeginRun E scope dryRun s = (Inr i, u)"
proof -
  obtain tm v where n: "now E s = (Inr tm, v)" "db v = db s" using now_total by blast
  obtain i d where d: "begin_run_row scope dryRun tm (db v) = Inr (i, d)" by (simp add: begin_run_row_def Let_def)
  obtain u where "db_exec E (begin_run_row scope dryRun tm) v = (Inr i, u)"
    using db_exec_calm [where f = "begin_run_row scope dryRun tm", OF assms d] by blast
  with n show ?thesis by (simp add: BeginRun_def bnd_app wrapE_app)
qed

text \<open>The completion of a run whose row is there and running: it fails and changes nothing, or completes
  that row. When the database answers it does not fail.\<close>

lemma CompleteRun_cases:
  assumes "CompleteRun E i sm re s = (c, x)"
    and hit: "length (filter (\<lambda>n. n_ID n = i \<and> n_Status n = Running) (t_runs (db s))) = 1"
  shows "case c of Inl e \<Rightarrow> db x = db s | Inr _ \<Rightarrow> \<exists>tm. complete_run_row i sm re tm (db s) = Inr (1, db x)"
    and "(\<And>w. fst (e_fault E w) = None) \<Longrightarrow> c = Inr ()"
proof -
  obtain tm v where n: "now E s = (Inr tm, v)" "db v = db s" using now_total by blast
  obtain d where d: "complete_run_row i sm re tm (db v) = Inr (1, d)"
    using hit n(2) by (simp add: complete_run_row_def Let_def)
  obtain y w where y: "db_exec E (complete_run_row i sm re tm) v = (y, w)" by fastforce
  show "case c of Inl e \<Rightarrow> db x = db s | Inr _ \<Rightarrow> \<exists>tm. complete_run_row i sm re tm (db s) = Inr (1, db x)"
  proof (cases y)
    case (Inl e)
    with y n assms(1) show ?thesis by (auto simp: CompleteRun_def bnd_app wrapE_app dest!: db_exec_Inl)
  next
    case (Inr count)
    with y have "complete_run_row i sm re tm (db v) = Inr (count, db w)" by (auto dest: db_exec_Inr)
    moreover from this d have "count = 1" by simp
    ultimately show ?thesis
      using y n assms(1) Inr by (auto simp: CompleteRun_def bnd_app wrapE_app ret_app)
  qed
  assume "\<And>w. fst (e_fault E w) = None"
  then obtain u where "db_exec E (complete_run_row i sm re tm) v = (Inr 1, u)"
    using db_exec_calm [where f = "complete_run_row i sm re tm", OF _ d] by blast
  with n assms(1) show "c = Inr ()" by (simp add: CompleteRun_def bnd_app wrapE_app ret_app)
qed

lemma reconcile_body_returns: "\<exists>rep err t. reconcile_body E N scope dryRun s = (Inr (rep, err), t)"
  by (auto simp: reconcile_body_def with_state_def tryE_app ret_app Let_def split: prod.splits sum.splits)

text \<open>A run that has begun: its row is running until it is completed, and its completion changes that
  row only.\<close>

lemma begun_row:
  assumes "store_wf (db s)" and "BeginRun E scope dryRun s = (Inr i, u)"
    and "reconcile_body E N scope dryRun u = (Inr (rep, err), v)"
  shows "\<exists>n. t_runs (db v) = t_runs (db s) @ [n] \<and> n_ID n = i \<and> n_Scope n = scope \<and> n_DryRun n = dryRun
      \<and> n_CompletedAt n = None \<and> n_Status n = Running \<and> n_Summary n = None \<and> n_Error n = None"
    and "n \<in> set (t_runs (db s)) \<Longrightarrow> n_ID n \<noteq> i"
proof -
  obtain tm where row: "begin_run_row scope dryRun tm (db s) = Inr (i, db u)"
    using BeginRun_cases [OF assms(2)] by auto
  have "runs_kept (db u) (db v)" using guarD [OF reconcile_body_runs_kept assms(3)] by (simp add: on_db_def)
  with row show "\<exists>n. t_runs (db v) = t_runs (db s) @ [n] \<and> n_ID n = i \<and> n_Scope n = scope \<and> n_DryRun n = dryRun
      \<and> n_CompletedAt n = None \<and> n_Status n = Running \<and> n_Summary n = None \<and> n_Error n = None"
    by (auto simp: runs_kept_def begin_run_row_def Let_def dest!: sym [of _ "db u"])
  show "n \<in> set (t_runs (db s)) \<Longrightarrow> n_ID n \<noteq> i"
    using assms(1) row by (fastforce simp: store_wf_def runs_wf_def numbered_def begin_run_row_def Let_def)
qed

lemma Reconcile_runs:
  assumes wf: "store_wf (db s)" and begun: "BeginRun E scope dryRun s = (Inr i, u)"
    and body: "reconcile_body E N scope dryRun u = (Inr (rep, err), v)"
    and completed: "CompleteRun E i (report_json rep) err v = (c, x)"
  shows "\<exists>n. t_runs (db x) = t_runs (db s) @ [n] \<and> n_ID n = i \<and> n_Scope n = scope \<and> n_DryRun n = dryRun
    \<and> (case c of
         Inl _ \<Rightarrow> n_CompletedAt n = None \<and> n_Status n = Running \<and> n_Summary n = None \<and> n_Error n = None
       | Inr _ \<Rightarrow> n_CompletedAt n \<noteq> None \<and> n_Status n = (case err of None \<Rightarrow> Succeeded | Some _ \<Rightarrow> Failed)
           \<and> n_Error n = map_option Error err \<and> n_Summary n = Some (report_json rep))"
    and "(\<And>w. fst (e_fault E w) = None) \<Longrightarrow> c = Inr ()"
proof -
  obtain n where n: "t_runs (db v) = t_runs (db s) @ [n]" "n_ID n = i" "n_Scope n = scope" "n_DryRun n = dryRun"
    "n_CompletedAt n = None" "n_Status n = Running" "n_Summary n = None" "n_Error n = None"
    using begun_row(1) [OF wf begun body] by blast
  have old: "n_ID n \<noteq> i" if "n \<in> set (t_runs (db s))" for n by (rule begun_row(2) [OF wf begun body that])
  then have "filter (\<lambda>n. n_ID n = i \<and> n_Status n = Running) (t_runs (db s)) = []" by (auto simp: filter_empty_conv)
  then have hit: "length (filter (\<lambda>n. n_ID n = i \<and> n_Status n = Running) (t_runs (db v))) = 1" by (simp add: n)
  have same: "map (\<lambda>n. if n_ID n = i \<and> n_Status n = Running then f n else n) (t_runs (db s)) = t_runs (db s)" for f
    using old by (simp add: map_idI)
  show "\<exists>n. t_runs (db x) = t_runs (db s) @ [n] \<and> n_ID n = i \<and> n_Scope n = scope \<and> n_DryRun n = dryRun
    \<and> (case c of
         Inl _ \<Rightarrow> n_CompletedAt n = None \<and> n_Status n = Running \<and> n_Summary n = None \<and> n_Error n = None
       | Inr _ \<Rightarrow> n_CompletedAt n \<noteq> None \<and> n_Status n = (case err of None \<Rightarrow> Succeeded | Some _ \<Rightarrow> Failed)
           \<and> n_Error n = map_option Error err \<and> n_Summary n = Some (report_json rep))"
  proof (cases c)
    case (Inl e)
    with CompleteRun_cases(1) [OF completed hit] n show ?thesis by simp
  next
    case (Inr a)
    with CompleteRun_cases(1) [OF completed hit] obtain tm
      where "complete_run_row i (report_json rep) err tm (db v) = Inr (1, db x)" by auto
    then have "t_runs (db x) = t_runs (db s) @ [n\<lparr>n_CompletedAt := Some tm,
        n_Status := (case err of None \<Rightarrow> Succeeded | Some _ \<Rightarrow> Failed),
        n_Summary := Some (report_json rep), n_Error := map_option Error err\<rparr>]"
      by (auto simp: complete_run_row_def Let_def n same dest!: sym [of _ "db x"])
    with n Inr show ?thesis by simp
  qed
  show "(\<And>w. fst (e_fault E w) = None) \<Longrightarrow> c = Inr ()" by (rule CompleteRun_cases(2) [OF completed hit])
qed

lemma Reconcile_parts:
  assumes "BeginRun E (if scope = [] then ''all'' else scope) dryRun s = (Inr i, u)"
    and "reconcile_body E N (if scope = [] then ''all'' else scope) dryRun u = (Inr (rep, err), v)"
    and "CompleteRun E i (report_json rep) err v = (c, x)"
  shows "Reconcile E N scope dryRun s
    = (case err of Some e \<Rightarrow> Inl e | None \<Rightarrow> (case c of Inl e \<Rightarrow> Inl e | Inr _ \<Rightarrow> Inr rep), x)"
  using assms unfolding Reconcile_def
  by (auto simp: bnd_app tryE_app throw_app ret_app Let_def split: option.splits sum.splits)

text \<open>C7: every call of \<open>Reconcile\<close> is recorded, whatever happens in it. If the run cannot be begun, the
  call returns that error and the table of runs is as before. Otherwise the table has exactly
  one row more, the row that was begun, with the scope and the mode, and no earlier row
  changes. When the completion of the run fails, the row is still running and the call returns
  an error: that of the run, or else that of the completion. In every other case the row is
  completed: a call that returns a report has succeeded and has that report as its summary, a
  call that returns an error has failed with that error's text. When the database answers, the
  row is there and completed.\<close>

theorem run_is_recorded:
  fixes E :: "'w env"
  assumes "store_wf (db s)" and run: "Reconcile E N scope dryRun s = (r, t)"
  shows "(case BeginRun E (if scope = [] then ''all'' else scope) dryRun s of
      (Inl e, u) \<Rightarrow> r = Inl e \<and> t_runs (db t) = t_runs (db s)
    | (Inr i, u) \<Rightarrow> \<exists>n. t_runs (db t) = t_runs (db s) @ [n] \<and> n_ID n = i
        \<and> n_Scope n = (if scope = [] then ''all'' else scope) \<and> n_DryRun n = dryRun
        \<and> (if n_CompletedAt n = None
           then n_Status n = Running \<and> n_Summary n = None \<and> n_Error n = None
             \<and> (\<exists>rep err v e. CompleteRun E i (report_json rep) err v = (Inl e, t)
                  \<and> r = Inl (case err of Some x \<Rightarrow> x | None \<Rightarrow> e))
           else (case r of
               Inr rep \<Rightarrow> n_Status n = Succeeded \<and> n_Error n = None \<and> n_Summary n = Some (report_json rep)
             | Inl e \<Rightarrow> n_Status n = Failed \<and> n_Error n = Some (Error e))))
    \<and> ((\<forall>w. fst (e_fault E w) = None) \<longrightarrow> (\<exists>n. t_runs (db t) = t_runs (db s) @ [n] \<and> n_CompletedAt n \<noteq> None))"
proof -
  let ?name = "if scope = [] then ''all'' else scope"
  obtain b u where b: "BeginRun E ?name dryRun s = (b, u)" by fastforce
  show ?thesis
  proof (cases b)
    case (Inl e)
    then have "r = Inl e" "t = u" using run b by (auto simp: Reconcile_def bnd_app Let_def)
    moreover have "\<not> (\<forall>w. fst (e_fault E w) = None)"
    proof
      assume "\<forall>w. fst (e_fault E w) = None"
      then have "\<And>w. fst (e_fault E w) = None" by blast
      from BeginRun_calm [OF this, of ?name dryRun s] b Inl show False by auto
    qed
    ultimately show ?thesis using b Inl BeginRun_cases [OF b] by simp
  next
    case (Inr i)
    note begun = b [unfolded Inr]
    obtain rep err v where body: "reconcile_body E N ?name dryRun u = (Inr (rep, err), v)"
      using reconcile_body_returns by blast
    obtain c x where c: "CompleteRun E i (report_json rep) err v = (c, x)" by fastforce
    have r: "r = (case err of Some e \<Rightarrow> Inl e | None \<Rightarrow> (case c of Inl e \<Rightarrow> Inl e | Inr _ \<Rightarrow> Inr rep))" and t: "t = x"
      using run Reconcile_parts [OF begun body c] by simp_all
    have calm: "(\<forall>w. fst (e_fault E w) = None) \<longrightarrow> c = Inr ()"
      using Reconcile_runs(2) [OF assms(1) begun body c] by blast
    note row = Reconcile_runs(1) [OF assms(1) begun body c]
    show ?thesis
    proof (cases c)
      case (Inl e)
      have "r = Inl (case err of Some x \<Rightarrow> x | None \<Rightarrow> e)" using r Inl by (simp split: option.splits)
      moreover have "\<exists>rep err v e. CompleteRun E i (report_json rep) err v = (Inl e, t) \<and> r = Inl (case err of Some x \<Rightarrow> x | None \<Rightarrow> e)"
        using c Inl t calculation by blast
      ultimately show ?thesis using row calm begun Inl t by auto
    next
      case (Inr a)
      with row calm begun r t show ?thesis by (cases err) auto
    qed
  qed
qed

section \<open>Every repository is reported\<close>

definition names :: "repository_mapping \<Rightarrow> ('s, repository_result) prog \<Rightarrow> bool" where
  "names m p \<longleftrightarrow> (\<forall>s r t. p s = (Inr r, t) \<longrightarrow> res_Repository r = rm_GitHubFullName m)"

lemma names_rules:
  "(\<And>x. names m (k x)) \<Longrightarrow> names m (bnd p k)"
  "(\<And>x. names m (h x)) \<Longrightarrow> names m (tryE q h)"
  "names m (throw e)"
  "res_Repository r = rm_GitHubFullName m \<Longrightarrow> names m (ret r)"
  "(b \<Longrightarrow> names m y) \<Longrightarrow> (\<not> b \<Longrightarrow> names m z) \<Longrightarrow> names m (if b then y else z)"
  by (auto simp: names_def bnd_Inr tryE_Inr throw_app ret_app)

lemma names_sum: "(\<And>e. names m (f e)) \<Longrightarrow> (\<And>x. names m (g x)) \<Longrightarrow> names m (case r of Inl e \<Rightarrow> f e | Inr x \<Rightarrow> g x)"
  by (cases r) auto

lemma collision_cases:
  "fst (recordMappingCollision E m dryRun kind err s) \<in> {Inr None, Inr (Some (conflict_result m))}"
  by (auto simp: recordMappingCollision_def tryE_app ret_app split: prod.split sum.split)

lemma collision_names:
  "names m (bnd (recordMappingCollision E m dryRun kind err) (\<lambda>handled. case handled of
     Some result \<Rightarrow> ret result | None \<Rightarrow> throw e))"
  unfolding names_def
proof (intro allI impI)
  fix s r t
  assume "bnd (recordMappingCollision E m dryRun kind err) (\<lambda>handled. case handled of
     Some result \<Rightarrow> ret result | None \<Rightarrow> throw e) s = (Inr r, t)"
  with collision_cases [of E m dryRun kind err s] show "res_Repository r = rm_GitHubFullName m"
    by (cases "recordMappingCollision E m dryRun kind err s") (auto simp: bnd_app throw_app ret_app conflict_result_def)
qed

lemma contained_names: "names m rest \<Longrightarrow> names m (contained E m dryRun kind step rest)"
  unfolding contained_def by (intro names_rules(2) names_sum collision_names)

lemma reconcileOne_names: "outcome V (reconcileOne E N dryRun) m r \<Longrightarrow> res_Repository r = rm_GitHubFullName m"
proof -
  have "names m (reconcileOne E N dryRun m)"
    unfolding reconcileOne_def reconcile_objects_def
    by (intro names_rules names_sum contained_names) (simp_all add: conflict_result_def)
  then show "outcome V (reconcileOne E N dryRun) m r \<Longrightarrow> ?thesis" by (auto simp: outcome_def names_def)
qed

lemma rel_mset_image:
  assumes "rel_mset R X Y" and "\<And>x y. R x y \<Longrightarrow> g y = f x"
  shows "image_mset g Y = image_mset f X"
proof -
  obtain xs ys where "mset xs = X" "mset ys = Y" "list_all2 R xs ys"
    using assms(1) by (auto simp: rel_mset_def)
  moreover from this(3) have "map g ys = map f xs"
    by (induction rule: list_all2_induct) (simp_all add: assms(2))
  ultimately show ?thesis by (metis mset_map)
qed

text \<open>The states that the run of the pool passes through.\<close>

definition pool_visits ::
  "'w env \<Rightarrow> 'w engine \<Rightarrow> repository_mapping list \<Rightarrow> bool \<Rightarrow> 'w sys \<Rightarrow> 'w sys \<Rightarrow> bool" where
  "pool_visits E N ms dryRun s u \<longleftrightarrow>
     (\<exists>q. passes (nat (en_maxConcurrency N)) (stopped N) (reconcileOne E N dryRun) (en_schedule N) 0
       (new_pool (nat (en_maxConcurrency N)) ms, s) (q, u))"

text \<open>The pool, called with at least one worker, ends with every worker stopped.\<close>

lemma reconcileMappings_settles:
  assumes "0 < en_maxConcurrency N" and "reconcileMappings E N ms dryRun s = (r, t)"
  shows "case r of
      Inr rs \<Rightarrow> rel_mset (outcome (pool_visits E N ms dryRun s) (reconcileOne E N dryRun)) (mset ms) (mset rs)
    | Inl e \<Rightarrow> (\<exists>m \<in> set ms. \<exists>u v. pool_visits E N ms dryRun s u \<and> reconcileOne E N dryRun m u = (Inl e, v))
        \<or> e = Err ''reconciliation stopped before all repositories completed''
          \<and> (\<exists>u. pool_visits E N ms dryRun s u \<and> stopped N u)"
proof (cases "ms = []")
  case False
  let ?job = "reconcileOne E N dryRun" and ?cap = "nat (en_maxConcurrency N)"
  obtain p where p: "pool_run ?cap (stopped N) ?job (en_schedule N) 0 (new_pool ?cap ms, s) = (p, t)" and r: "r = settle ms p"
    using assms(2) False by (auto simp: reconcileMappings_def Let_def split: prod.splits)
  have fin: "finished p"
    using pool_run_finishes [of ?cap "stopped N" ?job "en_schedule N" 0 "(new_pool ?cap ms, s)"] assms(1) p by simp
  have steps: "(pool_step ?cap (stopped N) ?job)\<^sup>*\<^sup>* (new_pool ?cap ms, s) (p, t)"
    using pool_run_steps [of ?cap "stopped N" ?job "(new_pool ?cap ms, s)"] p by metis
  have acc: "accounted (pool_visits E N ms dryRun s) (stopped N) ?job ms p"
  proof -
    have "accounted (pool_visits E N ms dryRun s) (stopped N) ?job ms
        (fst (pool_run ?cap (stopped N) ?job (en_schedule N) 0 (new_pool ?cap ms, s)))"
    proof (rule pool_run_accounted)
      show "pool_visits E N ms dryRun s (snd d)"
        if "passes ?cap (stopped N) ?job (en_schedule N) 0 (new_pool ?cap ms, s) d" for d
        using that unfolding pool_visits_def by (cases d) auto
    qed (simp add: accounted_new)
    then show ?thesis by (simp add: p)
  qed
  have "p_workers p \<noteq> []"
    using pool_workers [OF steps] False assms(1) by (cases ms; cases "p_workers p") (simp_all add: new_pool_def)
  with settled_results [OF acc fin] settled_error [OF acc fin] r show ?thesis by (simp split: sum.splits)
qed (use assms(2) in \<open>auto simp: reconcileMappings_def ret_app rel_mset_def\<close>)
text \<open>C8: the report is complete. A run over all repositories that returns a report names in it exactly
  the repositories that are mapped when the discovery of that run has ended, each once, sorted
  by name; the run up to there and the rest of it only add to the store.\<close>

theorem report_complete:
  assumes "0 < en_maxConcurrency N" and run: "Reconcile E N ''all'' dryRun s = (Inr rep, t)"
  shows "\<exists>i u inv w. BeginRun E ''all'' dryRun s = (Inr i, u)
    \<and> Discover E (en_repositories N) (en_namespaces N) dryRun u = (Inr inv, w)
    \<and> map res_Repository (rep_Repositories rep) = sort (map rm_GitHubFullName (t_repositories (db w)))
    \<and> honest (db s) (db w) \<and> honest (db w) (db t)"
proof -
  obtain i u where b: "BeginRun E ''all'' dryRun s = (Inr i, u)"
    using run by (auto simp: Reconcile_def bnd_app Let_def split: prod.splits sum.splits)
  obtain rep' err v where body: "reconcile_body E N ''all'' dryRun u = (Inr (rep', err), v)"
    using reconcile_body_returns by blast
  obtain c x where c: "CompleteRun E i (report_json rep') err v = (c, x)" by fastforce
  have rep': "rep' = rep" "err = None" and x: "x = t"
    using run b body c by (auto simp: Reconcile_def bnd_app tryE_app throw_app ret_app Let_def split: option.splits sum.splits)
  obtain inv w ms z rs y ks where d: "Discover E (en_repositories N) (en_namespaces N) dryRun u = (Inr inv, w)"
    and l: "ListRepositories E w = (Inr ms, z)"
    and m: "reconcileMappings E N ms dryRun z = (Inr rs, y)"
    and rep: "rep_Repositories rep = sort_key res_Repository rs" and k: "ListConflicts E y = (Inr ks, v)"
    using body unfolding rep'
    by (auto simp: reconcile_body_def with_state_def tryE_app ret_app selected_def Let_def
        split: prod.splits sum.splits if_splits)
  have kept: "honest (db s) (db w)" "honest (db y) (db t)"
  proof -
    have "honest (db s) (db u)" "honest (db u) (db w)" "honest (db y) (db v)" "honest (db v) (db t)"
      using guarD [OF write_honest(9) b] guarD [OF Discover_honest d]
        guarD [OF read_honest(8) k] guarD [OF write_honest(10) c] x by (simp_all add: on_db_def)
    then show "honest (db s) (db w)" "honest (db y) (db t)" by (blast intro: honest_trans)+
  qed
  have "ms = sort_key rm_GitHubFullName (t_repositories (db w))" "db z = db w"
    using l by (auto simp: ListRepositories_def wrapE_Inr db_query_def dest!: db_exec_Inr)
  then have ms: "mset ms = mset (t_repositories (db w))" and zw: "db z = db w" by simp_all
  have "rel_mset (outcome (pool_visits E N ms dryRun z) (reconcileOne E N dryRun)) (mset ms) (mset rs)"
    using reconcileMappings_settles [OF assms(1) m] by simp
  then have "image_mset res_Repository (mset rs) = image_mset rm_GitHubFullName (mset ms)"
    by (rule rel_mset_image) (rule reconcileOne_names)
  moreover have later: "honest (db z) (db y)"
    using guarD [OF honest.reconcileMappings_guar [OF reconcileOne_honest] m] by (simp add: on_db_def)
  ultimately have "mset (map res_Repository (rep_Repositories rep)) = mset (map rm_GitHubFullName (t_repositories (db w)))"
    unfolding rep by (simp add: ms)
  then have "sort (map rm_GitHubFullName (t_repositories (db w))) = map res_Repository (rep_Repositories rep)"
    by (rule properties_for_sort) (simp add: rep)
  moreover have "honest (db w) (db t)" using kept(2) zw later by (auto intro: honest_trans)
  ultimately show ?thesis using b d kept(1) by metis
qed

section \<open>Webhooks\<close>

text \<open>A webhook for a repository that is neither under a configured namespace nor mapped is
  refused without any synchronization: the answer is an error, the store is as before, and no
  part of the engine but its namespaces and its decoder matters.\<close>

theorem foreign_webhook_refused:
  fixes N :: "'w engine"
  assumes "en_decode N payload = Inr fullName" and "fullName \<noteq> []"
    and "Cut slash fullName = (owner, name, ok)" and "owner \<notin> set (en_namespaces N)"
    and "\<not> (\<exists>m \<in> set (t_repositories (db s)). ToLower (rm_ForgejoOwner m) = ToLower owner \<and> ToLower (rm_ForgejoName m) = ToLower name)"
  shows "(\<exists>e t. ProcessWebhook E N forge event payload s = (Inl e, t) \<and> db t = db s)
    \<and> (\<forall>N' :: 'w engine. en_decode N' payload = en_decode N payload \<and> en_namespaces N' = en_namespaces N \<longrightarrow>
        ProcessWebhook E N' forge event payload s = ProcessWebhook E N forge event payload s)"
proof -
  have empty: "matches = []" "db u = db s" if "RepositoriesByForgejoPath E owner name s = (Inr matches, u)" for matches u
    using that assms(5) by (auto simp: RepositoriesByForgejoPath_def wrapE_Inr db_query_def filter_empty_conv dest!: db_exec_Inr)
  have failed: "db u = db s" if "RepositoriesByForgejoPath E owner name s = (Inl e, u)" for e u
    using that by (auto simp: RepositoriesByForgejoPath_def wrapE_Inl db_query_def db_exec_def split: prod.splits option.splits)
  have "ProcessWebhook E N' forge event payload s
     = (if \<not> ok \<or> name = [] then throw (Err ''webhook repository full name is malformed'') s
        else case RepositoriesByForgejoPath E owner name s of (Inl e, u) \<Rightarrow> (Inl e, u)
          | (Inr _, u) \<Rightarrow> throw (Err (''webhook repository '' @ Quote fullName @ '' is outside configured namespaces'')) u)"
    if "en_decode N' payload = en_decode N payload" "en_namespaces N' = en_namespaces N" for N' :: "'w engine"
  proof -
    have e: "en_decode N' payload = Inr fullName" "owner \<notin> set (en_namespaces N')" using that assms by simp_all
    obtain x u where q: "RepositoriesByForgejoPath E owner name s = (x, u)" by fastforce
    have run: "ProcessWebhook E N' forge event payload =
        (if \<not> ok \<or> name = [] then throw (Err ''webhook repository full name is malformed'')
         else bnd (RepositoriesByForgejoPath E owner name) (\<lambda>matches.
              if matches = []
              then throw (Err (''webhook repository '' @ Quote fullName @ '' is outside configured namespaces''))
              else forE (\<lambda>m. bnd (Reconcile E N' (rm_GitHubFullName m) False) (\<lambda>_. ret ())) matches))"
      using assms(2,3) e(2) by (simp only: ProcessWebhook_def e(1) sum.case prod.case if_False)
    show ?thesis
    proof (cases "\<not> ok \<or> name = []")
      case False
      show ?thesis
      proof (cases x)
        case (Inr y)
        with q have q': "RepositoriesByForgejoPath E owner name s = (Inr [], u)" using empty(1) by simp
        then show ?thesis using False by (simp add: run bnd_at [where p = "RepositoriesByForgejoPath E owner name"])
      qed (use False in \<open>simp add: run bnd_app q\<close>)
    qed (simp add: run)
  qed
  note same = this
  note mine = same [OF HOL.refl HOL.refl]
  show ?thesis
  proof (intro conjI allI impI)
    obtain x u where q: "RepositoriesByForgejoPath E owner name s = (x, u)" by fastforce
    have u: "db u = db s"
    proof (cases x)
      case (Inl e)
      with q failed show ?thesis by blast
    next
      case (Inr ms)
      with q empty(2) show ?thesis by blast
    qed
    show "\<exists>e t. ProcessWebhook E N forge event payload s = (Inl e, t) \<and> db t = db s"
      unfolding mine throw_app q using u by (cases x) simp_all
  next
    fix N' :: "'w engine" assume "en_decode N' payload = en_decode N payload \<and> en_namespaces N' = en_namespaces N"
    then show "ProcessWebhook E N' forge event payload s = ProcessWebhook E N forge event payload s"
      unfolding mine by (intro same) simp_all
  qed
qed

text \<open>C32: whatever request arrives, and whatever the forges, git and the database answer, the webhook
  handler with the engine behind it leaves a store that is well-formed if it was before and
  that keeps its rows: mappings are only overwritten by ones of the same key, the claims of
  deliveries and the completed runs stay as they were, running runs can only be completed, and
  conflicts are only appended, unresolved.\<close>

theorem webhook_keeps_store:
  assumes "store_wf (db s)" and "ServeHTTP E W (ProcessWebhook E N) request s = (r, t)"
  shows "store_wf (db t) \<and> rows_kept (db s) (db t) \<and> conflicts_appended (db s) (db t)"
  using guarD [OF engine.ServeHTTP_honest assms(2)] assms(1) by (simp add: on_db_def honest_def)

text \<open>C1: a dry run is inert. It changes nothing in the store but the table of runs, and it does not
  depend on any writing operation: every engine that reads alike (whatever its create, update,
  migrate, upload, secret and push operations do) takes the same course to the same end.\<close>

theorem dry_run_inert:
  assumes "reads_alike N N'"
  shows "only_runs (db s) (db (snd (Reconcile E N scope True s)))
    \<and> Reconcile E N' scope True s = Reconcile E N scope True s"
proof
  show "only_runs (db s) (db (snd (Reconcile E N scope True s)))"
    using Reconcile_dry_only_runs [of E N scope] by (simp add: guar_def on_db_def)
  show "Reconcile E N' scope True s = Reconcile E N scope True s"
    unfolding Reconcile_def reconcile_body_dry_reads [OF assms] by (rule HOL.refl)
qed

text \<open>C10: the pool has no deadlock and always ends: with at least one worker, under every schedule, no
  state in which a worker still runs is stuck, every event lowers the work that is left, and
  the run ends with every worker stopped.\<close>

theorem pool_ends:
  assumes "0 < cap"
  shows "finished (fst (pool_run cap stop job choice 0 (new_pool cap ms, s)))
    \<and> (\<forall>p s. \<not> finished p \<longrightarrow> (\<exists>e. fire cap stop job e (p, s) \<noteq> None))
    \<and> (\<forall>p s e p' t. fire cap stop job e (p, s) = Some (p', t) \<longrightarrow> work p' < work p)"
proof (intro conjI allI impI)
  show "finished (fst (pool_run cap stop job choice 0 (new_pool cap ms, s)))" by (rule pool_run_finishes [OF assms])
qed (rule no_deadlock [OF assms], assumption, rule fire_work)

text \<open>C9: concurrency neither loses nor repeats a repository. Under every schedule the pool returns
  either one result for each mapping, each what a run of that mapping's synchronization
  returned, or an error. The error is the one a run of some mapping's synchronization
  returned, unless it is the pool's own "reconciliation stopped before all repositories
  completed", and then the caller's context had ended. The runs of the synchronizations start,
  and the end of the context is seen, in states that this run of the pool passes through.\<close>

theorem pool_loses_nothing:
  assumes "0 < en_maxConcurrency N" and "reconcileMappings E N ms dryRun s = (r, t)"
  shows "case r of
      Inr rs \<Rightarrow> rel_mset (outcome (pool_visits E N ms dryRun s) (reconcileOne E N dryRun)) (mset ms) (mset rs)
    | Inl e \<Rightarrow> (\<exists>m \<in> set ms. \<exists>u v. pool_visits E N ms dryRun s u \<and> reconcileOne E N dryRun m u = (Inl e, v))
        \<or> e = Err ''reconciliation stopped before all repositories completed''
          \<and> (\<exists>u. pool_visits E N ms dryRun s u \<and> stopped N u)"
  by (rule reconcileMappings_settles [OF assms])
section \<open>Worked example\<close>

text \<open>One mapped repository, too large for the workspace, between two empty forges whose writing
  operations give \<open>answer\<close>.\<close>

definition sample_engine :: "go_error + unit \<Rightarrow> unit engine" where
  "sample_engine answer =
     (let forge = \<lparr>ListIssues = \<lambda>_ _ w. (Inr [], w), CreateIssue = \<lambda>_ _ i w. (Inr i, w), UpdateIssue = \<lambda>_ _ _ i w. (Inr i, w)\<rparr>;
          threads = \<lparr>ListComments = \<lambda>_ _ _ w. (Inr [], w), CreateComment = \<lambda>_ _ _ c w. (Inr c, w), UpdateComment = \<lambda>_ _ _ c w. (Inr c, w)\<rparr>;
          pulls = \<lparr>ListPullRequests = \<lambda>_ _ w. (Inr [], w), FindPullRequestByHead = \<lambda>_ _ _ w. (Inr None, w),
            CreatePullRequest = \<lambda>_ _ p w. (Inr p, w), UpdatePullRequest = \<lambda>_ _ _ p w. (Inr p, w)\<rparr>
      in \<lparr>en_repositories = \<lparr>rr_github = \<lparr>dg_ListRepositories = \<lambda>_ w. (Inr [], w)\<rparr>,
            rr_forgejo = \<lparr>df_ListRepositories = \<lambda>_ w. (Inr [], w), MigrateRepository = \<lambda>r _ w. (Inr r, w),
              UpdateRepositoryIdentity = \<lambda>_ _ _ _ w. (answer, w), UpdateRepositorySettings = \<lambda>_ w. (answer, w)\<rparr>,
            rr_githubToken = ''t'', rr_ownerMap = [], rr_repoMap = []\<rparr>,
          en_issues = \<lparr>ir_github = forge, ir_forgejo = forge\<rparr>, en_comments = \<lparr>cr_github = threads, cr_forgejo = threads\<rparr>,
          en_pulls = \<lparr>pr_github = pulls, pr_forgejo = pulls\<rparr>, en_releases = sample_release_reconciler,
          en_setSecret = \<lambda>_ _ _ _ w. (answer, w),
          en_secrets = [\<lparr>s_Repository = ''a/b'', s_Name = ''K'', s_Value = ''v''\<rparr>], en_git = sample_host,
          en_namespaces = [''lost-rob0t''], en_githubToken = ''t'', en_forgejoToken = ''u'', en_cloneBase = ''https://f'',
          en_maxConcurrency = 2, en_maxRefSizeKB = 0, en_schedule = \<lambda>_. 0, en_decode = Inr\<rparr>)"

lemma sample_engine_settings [simp]:
  "en_maxConcurrency (sample_engine x) = 2" "en_namespaces (sample_engine x) = [''lost-rob0t'']"
  "en_decode (sample_engine x) = Inr"
  by (simp_all add: sample_engine_def Let_def)

lemma sample_calm: "fst (e_fault unit_env w) = None"
  by simp

theorem run_is_recorded_witness:
  "length (t_runs (db (snd (Reconcile unit_env (sample_engine (Inr ())) ''all'' False sample_sys)))) = 1"
proof -
  obtain r t where run: "Reconcile unit_env (sample_engine (Inr ())) ''all'' False sample_sys = (r, t)" by fastforce
  from run_is_recorded [OF sample_sys_wf run] sample_calm
  have "length (t_runs (db t)) = Suc (length (t_runs (db sample_sys)))" by auto
  with run show ?thesis by (simp add: sample_sys_def empty_store_def)
qed

theorem foreign_webhook_refused_witness:
  "ProcessWebhook unit_env (sample_engine (Inl (Err ''down''))) ''forgejo'' ''push'' ''x/y'' sample_sys
     = ProcessWebhook unit_env (sample_engine (Inr ())) ''forgejo'' ''push'' ''x/y'' sample_sys"
proof -
  have "Cut slash ''x/y'' = (''x'', ''y'', True)" by (simp add: Cut_def)
  moreover have "\<not> (\<exists>m \<in> set (t_repositories (db sample_sys)).
      ToLower (rm_ForgejoOwner m) = ToLower ''x'' \<and> ToLower (rm_ForgejoName m) = ToLower ''y'')"
    by code_simp
  ultimately show ?thesis
    using foreign_webhook_refused [of "sample_engine (Inr ())" "''x/y''" "''x/y''" "''x''" "''y''" True sample_sys unit_env
        "''forgejo''" "''push''", THEN conjunct2, THEN spec [of _ "sample_engine (Inl (Err ''down''))"], THEN mp]
    by simp
qed

theorem webhook_keeps_store_witness:
  "store_wf (db (snd (ServeHTTP zero_hash_env sample_server (ProcessWebhook zero_hash_env (sample_engine (Inr ())))
      (sample_request ''sha256=00'') sample_sys)))"
proof -
  obtain r t where "ServeHTTP zero_hash_env sample_server (ProcessWebhook zero_hash_env (sample_engine (Inr ())))
      (sample_request ''sha256=00'') sample_sys = (r, t)" by fastforce
  with webhook_keeps_store [OF sample_sys_wf this] show ?thesis by simp
qed

theorem dry_run_inert_witness:
  "Reconcile unit_env (sample_engine (Inl (Err ''down''))) ''all'' True sample_sys
     = Reconcile unit_env (sample_engine (Inr ())) ''all'' True sample_sys"
proof -
  have "reads_alike (sample_engine (Inr ())) (sample_engine (Inl (Err ''down'')))"
    by (simp add: reads_alike_def sample_engine_def Let_def discovery_alike_def agree_on_def)
  from dry_run_inert [OF this] show ?thesis by simp
qed

theorem pool_ends_witness:
  "finished (fst (pool_run 2 (\<lambda>s. False) (\<lambda>m. ret m) (\<lambda>k. k) 0 (new_pool 2 [1::int, 2, 3], ())))"
  using pool_ends [of 2 "\<lambda>s. False" "\<lambda>m. ret m" "\<lambda>k. k" "[1::int, 2, 3]" "()"] by simp

lemma sample_cycle:
  "fst (reconcileMappings unit_env (sample_engine (Inr ())) [sample_repository] False sample_sys)
     = Inr [conflict_result sample_repository]"
  by code_simp

theorem pool_loses_nothing_witness:
  "rel_mset (outcome (pool_visits unit_env (sample_engine (Inr ())) [sample_repository] False sample_sys)
       (reconcileOne unit_env (sample_engine (Inr ())) False))
     (mset [sample_repository]) (mset [conflict_result sample_repository])"
  using pool_loses_nothing [OF _ run_result [OF sample_cycle]] by simp

lemma sample_report: "\<exists>rep. fst (Reconcile unit_env (sample_engine (Inr ())) ''all'' True sample_sys) = Inr rep"
proof -
  let ?body = "reconcile_body unit_env (sample_engine (Inr ())) ''all'' True (snd (BeginRun unit_env ''all'' True sample_sys))"
  have "case fst ?body of Inr (_, None) \<Rightarrow> True | _ \<Rightarrow> False" by code_simp
  then obtain rep v where body: "?body = (Inr (rep, None), v)"
    by (cases ?body) (auto split: sum.splits prod.splits option.splits)
  obtain i u where b: "BeginRun unit_env ''all'' True sample_sys = (Inr i, u)"
    using BeginRun_calm [OF sample_calm] by blast
  obtain c x where c: "CompleteRun unit_env i (report_json rep) None v = (c, x)" by fastforce
  have "c = Inr ()"
    using Reconcile_runs(2) [OF sample_sys_wf b _ c] body b sample_calm by simp
  with Reconcile_parts [where scope = "''all''", OF _ _ c] b body show ?thesis by simp
qed

theorem report_complete_witness:
  "\<exists>rep. fst (Reconcile unit_env (sample_engine (Inr ())) ''all'' True sample_sys) = Inr rep
     \<and> sorted (map res_Repository (rep_Repositories rep))"
proof -
  obtain rep where rep: "fst (Reconcile unit_env (sample_engine (Inr ())) ''all'' True sample_sys) = Inr rep"
    using sample_report ..
  from report_complete [OF _ run_result [OF rep]] have "sorted (map res_Repository (rep_Repositories rep))" by auto
  with rep show ?thesis by blast
qed

end
