(* ===== verification/Containment.thy ===== *)
theory Containment
  imports Engine
begin

text \<open>
  What becomes of a failure inside \<open>reconcileOne\<close> (\<open>internal/reconcile/engine.go\<close>) outside of a dry
  run. \<open>answered\<close> follows the run from step to step and says which answer a step gave: the
  property reads off, for every step that failed, the result of the repository and the conflict
  that was recorded.
\<close>

section \<open>The steps of a run\<close>





section \<open>What follows each step\<close>










section \<open>A failed step\<close>














end
