(* ===== verification/Json.thy ===== *)
theory Json
  imports Hashing
begin

text \<open>
  What the two API clients use of \<open>encoding/json\<close>: \<open>json.Marshal\<close> of maps, slices and structs,
  the decoder's reading of one value, and the assignment of a value to a Go variable (fields
  by name, exactly or else ignoring case; \<open>null\<close> leaves a variable alone; a value of the wrong
  kind is an error). Field names are compared in ASCII; the decoder's limit of 10000 nested
  values is not modelled. The main result is that reading back what \<open>Marshal\<close> wrote gives the
  value, and that the fuel of the reader is enough for every text.
\<close>

section \<open>Values and how they are written\<close>

datatype json =
    JNull
  | JBool bool
  | JNum string
  | JStr string
  | JArr "json list"
  | JObj "(string \<times> json) list"

primrec Marshal :: "json \<Rightarrow> string" where
  "Marshal JNull = ''null''"
| "Marshal (JBool b) = json_bool b"
| "Marshal (JNum n) = n"
| "Marshal (JStr s) = json_string s"
| "Marshal (JArr xs) = ''['' @ Join (map Marshal xs) '','' @ '']''"
| "Marshal (JObj fs) = json_object (map (map_prod id Marshal) fs)"

definition json_int :: "int \<Rightarrow> json" where
  "json_int n = JNum (FormatInt n)"

text \<open>A \<open>map[string]any\<close> is written with its keys in order.\<close>

definition json_map :: "(string \<times> json) list \<Rightarrow> json" where
  "json_map fs = JObj (sort_key fst fs)"

section \<open>Reading a value\<close>

text \<open>The text may be broken, or end too early.\<close>

datatype json_fault = Malformed | Truncated

type_synonym 'a reading = "json_fault + 'a \<times> string"

definition mapR :: "('a \<Rightarrow> 'b) \<Rightarrow> 'a reading \<Rightarrow> 'b reading" where
  "mapR f = map_sum id (map_prod f id)"

definition json_space :: "char \<Rightarrow> bool" where
  "json_space c \<longleftrightarrow> c = CHR '' '' \<or> byte c = 9 \<or> byte c = 10 \<or> byte c = 13"

definition skip_ws :: "string \<Rightarrow> string" where
  "skip_ws s = dropWhile json_space s"

definition scan_word :: "string \<Rightarrow> json \<Rightarrow> string \<Rightarrow> json reading" where
  "scan_word w v s =
     (if HasPrefix s w then Inr (v, drop (length w) s)
      else if HasPrefix w s then Inl Truncated else Inl Malformed)"

definition is_dec :: "char \<Rightarrow> bool" where
  "is_dec c \<longleftrightarrow> digit_val c \<noteq> None"

definition scan_digits :: "string \<Rightarrow> string reading" where
  "scan_digits s = (case s of [] \<Rightarrow> Inl Truncated
     | c # _ \<Rightarrow> if is_dec c then Inr (takeWhile is_dec s, dropWhile is_dec s) else Inl Malformed)"

text \<open>The integer part, the fraction and the exponent of a number.\<close>

definition scan_int :: "string \<Rightarrow> string reading" where
  "scan_int s = (case s of [] \<Rightarrow> Inl Truncated
     | c # cs \<Rightarrow> if c = CHR ''0'' then Inr ([c], cs) else scan_digits s)"

definition scan_frac :: "string \<Rightarrow> string reading" where
  "scan_frac s = (case s of [] \<Rightarrow> Inr ([], [])
     | c # cs \<Rightarrow> if c = CHR ''.'' then mapR (Cons c) (scan_digits cs) else Inr ([], s))"

definition scan_exp :: "string \<Rightarrow> string reading" where
  "scan_exp s = (case s of [] \<Rightarrow> Inr ([], [])
     | c # cs \<Rightarrow>
         if c = CHR ''e'' \<or> c = CHR ''E''
         then (case cs of d # ds \<Rightarrow> if d = CHR ''+'' \<or> d = CHR ''-'' then mapR (\<lambda>x. c # d # x) (scan_digits ds)
                                   else mapR (Cons c) (scan_digits cs)
               | [] \<Rightarrow> Inl Truncated)
         else Inr ([], s))"

definition andR :: "'a reading \<Rightarrow> ('a \<Rightarrow> string \<Rightarrow> 'b reading) \<Rightarrow> 'b reading" where
  "andR m k = (case m of Inl f \<Rightarrow> Inl f | Inr (x, r) \<Rightarrow> k x r)"

definition scan_number :: "string \<Rightarrow> json reading" where
  "scan_number s =
     (let (sign, r) = (case s of c # cs \<Rightarrow> if c = CHR ''-'' then ([c], cs) else ([], s) | [] \<Rightarrow> ([], []))
      in andR (scan_int r) (\<lambda>i r. andR (scan_frac r) (\<lambda>f r. andR (scan_exp r) (\<lambda>e r.
           Inr (JNum (sign @ i @ f @ e), r)))))"

section \<open>Reading a string\<close>

definition hex_digit_val :: "char \<Rightarrow> nat option" where
  "hex_digit_val c =
     (let n = byte c in
      if 48 \<le> n \<and> n \<le> 57 then Some (n - 48) else if 97 \<le> n \<and> n \<le> 102 then Some (n - 87)
      else if 65 \<le> n \<and> n \<le> 70 then Some (n - 55) else None)"

fun hex_digits :: "nat \<Rightarrow> nat \<Rightarrow> string \<Rightarrow> nat reading" where
  "hex_digits 0 acc s = Inr (acc, s)"
| "hex_digits (Suc k) acc [] = Inl Truncated"
| "hex_digits (Suc k) acc (c # cs) =
     (case hex_digit_val c of None \<Rightarrow> Inl Malformed | Some d \<Rightarrow> hex_digits k (16 * acc + d) cs)"

definition replacement :: string where
  "replacement = [CHR 0xEF, CHR 0xBF, CHR 0xBD]"

definition EncodeRune :: "nat \<Rightarrow> string" where
  "EncodeRune n =
     (if n < 128 then [char_of n]
      else if n < 2048 then [char_of (192 + n div 64), char_of (128 + n mod 64)]
      else if 55296 \<le> n \<and> n < 57344 then replacement
      else if n < 65536
      then [char_of (224 + n div 4096), char_of (128 + n div 64 mod 64), char_of (128 + n mod 64)]
      else if n < 1114112
      then [char_of (240 + n div 262144), char_of (128 + n div 4096 mod 64),
            char_of (128 + n div 64 mod 64), char_of (128 + n mod 64)]
      else replacement)"

text \<open>After \<open>\u\<close>: one escape, or a surrogate pair of two; \<open>n\<close> is the first code unit.\<close>

definition scan_low :: "nat \<Rightarrow> string \<Rightarrow> string reading" where
  "scan_low n r = (case r of a # b # r' \<Rightarrow>
       if 55296 \<le> n \<and> n < 56320 \<and> a = backslash \<and> b = CHR ''u''
       then (case hex_digits 4 0 r' of
               Inr (m, q) \<Rightarrow> if 56320 \<le> m \<and> m < 57344
                   then Inr (EncodeRune (65536 + (n - 55296) * 1024 + (m - 56320)), q)
                   else Inr (EncodeRune n, r)
             | Inl f \<Rightarrow> Inr (EncodeRune n, r))
       else Inr (EncodeRune n, r)
     | _ \<Rightarrow> Inr (EncodeRune n, r))"

definition scan_u :: "string \<Rightarrow> string reading" where
  "scan_u s = andR (hex_digits 4 0 s) scan_low"

definition scan_escape :: "string \<Rightarrow> string reading" where
  "scan_escape s = (case s of [] \<Rightarrow> Inl Truncated
     | x # r \<Rightarrow>
         if x = CHR ''u'' then scan_u r
         else if x = quote \<or> x = backslash \<or> x = slash then Inr ([x], r)
         else if x = CHR ''b'' then Inr ([CHR 0x08], r)
         else if x = CHR ''f'' then Inr ([CHR 0x0C], r)
         else if x = CHR ''n'' then Inr ([CHR 0x0A], r)
         else if x = CHR ''r'' then Inr ([CHR 0x0D], r)
         else if x = CHR ''t'' then Inr ([CHR 0x09], r)
         else Inl Malformed)"

text \<open>The characters up to the closing quote; the first argument is the fuel.\<close>

fun scan_chars :: "nat \<Rightarrow> string \<Rightarrow> string reading" where
  "scan_chars 0 s = Inl Truncated"
| "scan_chars (Suc n) [] = Inl Truncated"
| "scan_chars (Suc n) (c # cs) =
     (if c = quote then Inr ([], cs)
      else if c = backslash then andR (scan_escape cs) (\<lambda>x r. mapR (append x) (scan_chars n r))
      else if byte c < 32 then Inl Malformed
      else if byte c < 128 then mapR (Cons c) (scan_chars n cs)
      else (case utf8_len (c # cs) of
          0 \<Rightarrow> mapR (append replacement) (scan_chars n cs)
        | Suc k \<Rightarrow> mapR (append (take (Suc k) (c # cs))) (scan_chars n (drop k cs))))"

definition scan_string :: "string \<Rightarrow> string reading" where
  "scan_string s = scan_chars (Suc (length s)) s"

section \<open>Reading any value\<close>

text \<open>What follows an item of an array or a member of an object: a comma and more, or the end.\<close>

definition next_item :: "(string \<Rightarrow> 'a list reading) \<Rightarrow> char \<Rightarrow> 'a \<Rightarrow> string \<Rightarrow> 'a list reading" where
  "next_item rest close v r = (case skip_ws r of [] \<Rightarrow> Inl Truncated
     | d # ds \<Rightarrow> if d = comma then mapR (Cons v) (rest ds)
         else if d = close then Inr ([v], ds) else Inl Malformed)"

text \<open>The first argument is the fuel; each nested value takes one unit of it, each member two.\<close>

fun scan_value :: "nat \<Rightarrow> string \<Rightarrow> json reading"
  and scan_items :: "nat \<Rightarrow> string \<Rightarrow> json list reading"
  and scan_members :: "nat \<Rightarrow> string \<Rightarrow> (string \<times> json) list reading" where
  "scan_value 0 s = Inl Truncated"
| "scan_value (Suc n) s = (case skip_ws s of [] \<Rightarrow> Inl Truncated
     | c # cs \<Rightarrow>
         if c = CHR ''{'' then
           (case skip_ws cs of [] \<Rightarrow> Inl Truncated
            | d # ds \<Rightarrow> if d = CHR ''}'' then Inr (JObj [], ds) else mapR JObj (scan_members n (d # ds)))
         else if c = CHR ''['' then
           (case skip_ws cs of [] \<Rightarrow> Inl Truncated
            | d # ds \<Rightarrow> if d = CHR '']'' then Inr (JArr [], ds) else mapR JArr (scan_items n (d # ds)))
         else if c = quote then mapR JStr (scan_string cs)
         else if c = CHR ''-'' \<or> is_dec c then scan_number (c # cs)
         else if c = CHR ''t'' then scan_word ''true'' (JBool True) (c # cs)
         else if c = CHR ''f'' then scan_word ''false'' (JBool False) (c # cs)
         else if c = CHR ''n'' then scan_word ''null'' JNull (c # cs)
         else Inl Malformed)"
| "scan_items 0 s = Inl Truncated"
| "scan_items (Suc n) s = andR (scan_value n s) (next_item (\<lambda>s. scan_items n s) (CHR '']''))"
| "scan_members 0 s = Inl Truncated"
| "scan_members (Suc n) s = (case skip_ws s of [] \<Rightarrow> Inl Truncated
     | c # cs \<Rightarrow> if c \<noteq> quote then Inl Malformed
         else andR (scan_string cs) (\<lambda>k r.
           case skip_ws r of [] \<Rightarrow> Inl Truncated
           | d # ds \<Rightarrow> if d \<noteq> colon then Inl Malformed
               else andR (scan_value n ds) (\<lambda>v. next_item (\<lambda>s. scan_members n s) (CHR ''}'') (k, v))))"

definition read_json :: "string \<Rightarrow> json reading" where
  "read_json s = scan_value (2 * length s + 2) s"

section \<open>Timestamps\<close>

text \<open>\<open>time.Time.UnmarshalJSON\<close>: a string in the format RFC 3339, with an optional fraction of
  which nine digits count. \<open>days_from_civil\<close> is the inverse of \<open>civil\<close>.\<close>

definition days_from_civil :: "int \<Rightarrow> int \<Rightarrow> int \<Rightarrow> int" where
  "days_from_civil y m d =
     (let y = (if m \<le> 2 then y - 1 else y); era = y div 400; yoe = y mod 400;
          doy = (153 * (m + (if m > 2 then - 3 else 9)) + 2) div 5 + d - 1;
          doe = yoe * 365 + yoe div 4 - yoe div 100 + doy
      in era * 146097 + doe - 719468)"

definition leap_year :: "int \<Rightarrow> bool" where
  "leap_year y \<longleftrightarrow> y mod 4 = 0 \<and> (y mod 100 \<noteq> 0 \<or> y mod 400 = 0)"

definition days_in :: "int \<Rightarrow> int \<Rightarrow> int" where
  "days_in y m = (if m = 2 then (if leap_year y then 29 else 28)
     else if m = 4 \<or> m = 6 \<or> m = 9 \<or> m = 11 then 30 else 31)"

text \<open>Exactly \<open>k\<close> digits with a value between the bounds.\<close>

definition fixed_digits :: "nat \<Rightarrow> int \<Rightarrow> int \<Rightarrow> string \<Rightarrow> (int \<times> string) option" where
  "fixed_digits k lo hi s =
     (if length s < k then None
      else case parse_nat (take k s) of None \<Rightarrow> None
        | Some n \<Rightarrow> if lo \<le> int n \<and> int n \<le> hi then Some (int n, drop k s) else None)"

definition skip_char :: "char \<Rightarrow> string \<Rightarrow> string option" where
  "skip_char c s = (case s of [] \<Rightarrow> None | x # xs \<Rightarrow> if x = c then Some xs else None)"

definition nanoseconds :: "string \<Rightarrow> int" where
  "nanoseconds ds =
     foldl (\<lambda>n c. 10 * n + int (byte c - 48)) 0 (take 9 (ds @ replicate 9 (CHR ''0'')))"

definition parse_fraction :: "string \<Rightarrow> int \<times> string" where
  "parse_fraction s = (case s of c # d # ds \<Rightarrow>
       if c = CHR ''.'' \<and> is_dec d then (nanoseconds (takeWhile is_dec (d # ds)), dropWhile is_dec (d # ds))
       else (0, s)
     | _ \<Rightarrow> (0, s))"

text \<open>The offset from UTC in seconds.\<close>

definition parse_zone :: "string \<Rightarrow> int option" where
  "parse_zone s =
     (if s = ''Z'' then Some 0
      else case s of [] \<Rightarrow> None
      | c # cs \<Rightarrow>
          if c \<noteq> CHR ''+'' \<and> c \<noteq> CHR ''-'' then None
          else Option.bind (fixed_digits 2 0 23 cs) (\<lambda>(h, r).
               Option.bind (skip_char colon r) (\<lambda>r.
               Option.bind (fixed_digits 2 0 59 r) (\<lambda>(m, r).
               if r = [] then Some ((if c = CHR ''-'' then - 1 else 1) * (h * 3600 + m * 60)) else None))))"

definition parse_time :: "string \<Rightarrow> time option" where
  "parse_time s =
     Option.bind (fixed_digits 4 0 9999 s) (\<lambda>(y, s). Option.bind (skip_char (CHR ''-'') s) (\<lambda>s.
     Option.bind (fixed_digits 2 1 12 s) (\<lambda>(mo, s). Option.bind (skip_char (CHR ''-'') s) (\<lambda>s.
     Option.bind (fixed_digits 2 1 (days_in y mo) s) (\<lambda>(d, s). Option.bind (skip_char (CHR ''T'') s) (\<lambda>s.
     Option.bind (fixed_digits 2 0 23 s) (\<lambda>(h, s). Option.bind (skip_char colon s) (\<lambda>s.
     Option.bind (fixed_digits 2 0 59 s) (\<lambda>(mi, s). Option.bind (skip_char colon s) (\<lambda>s.
     Option.bind (fixed_digits 2 0 59 s) (\<lambda>(se, s).
     let (ns, s) = parse_fraction s
     in map_option (\<lambda>z. (days_from_civil y mo d * 86400 + h * 3600 + mi * 60 + se - z) * second + ns)
          (parse_zone s))))))))))))"

section \<open>Assigning a value to a variable\<close>

text \<open>A decoder takes the value and the old content of the variable; \<open>None\<close> is a type error.\<close>

type_synonym 'a decoder = "json \<Rightarrow> 'a \<Rightarrow> 'a option"

definition dec_string :: "string decoder" where
  "dec_string j old = (case j of JStr s \<Rightarrow> Some s | JNull \<Rightarrow> Some old | _ \<Rightarrow> None)"

definition dec_bool :: "bool decoder" where
  "dec_bool j old = (case j of JBool b \<Rightarrow> Some b | JNull \<Rightarrow> Some old | _ \<Rightarrow> None)"

definition dec_int :: "int decoder" where
  "dec_int j old = (case j of JNum n \<Rightarrow> ParseInt n | JNull \<Rightarrow> Some old | _ \<Rightarrow> None)"

definition dec_time :: "time decoder" where
  "dec_time j old = (case j of JStr s \<Rightarrow> parse_time s | JNull \<Rightarrow> Some old | _ \<Rightarrow> None)"

text \<open>A value of type \<open>any\<close>, of which only the test against nil is used.\<close>

definition dec_any :: "bool decoder" where
  "dec_any j old = Some (case j of JNull \<Rightarrow> False | _ \<Rightarrow> True)"

fun dec_elements :: "'a decoder \<Rightarrow> 'a \<Rightarrow> json list \<Rightarrow> 'a list option" where
  "dec_elements d z [] = Some []"
| "dec_elements d z (j # js) = (case d j z of None \<Rightarrow> None | Some x \<Rightarrow> map_option (Cons x) (dec_elements d z js))"

definition dec_slice :: "'a decoder \<Rightarrow> 'a \<Rightarrow> 'a list decoder" where
  "dec_slice d z j old = (case j of JArr xs \<Rightarrow> dec_elements d z xs | JNull \<Rightarrow> Some [] | _ \<Rightarrow> None)"

definition dec_pointer :: "'a decoder \<Rightarrow> 'a \<Rightarrow> 'a option decoder" where
  "dec_pointer d z j old = (case j of JNull \<Rightarrow> Some None
     | _ \<Rightarrow> map_option Some (d j (case old of None \<Rightarrow> z | Some x \<Rightarrow> x)))"

text \<open>A struct: each member of the object in turn is assigned to the field of that name.\<close>

type_synonym 'r json_field = "string \<times> 'r decoder"

definition member :: "string \<Rightarrow> 'a decoder \<Rightarrow> ('r \<Rightarrow> 'a) \<Rightarrow> (('a \<Rightarrow> 'a) \<Rightarrow> 'r \<Rightarrow> 'r) \<Rightarrow> 'r json_field" where
  "member name d get upd = (name, \<lambda>j r. map_option (\<lambda>x. upd (\<lambda>_. x) r) (d j (get r)))"

definition find_field :: "'r json_field list \<Rightarrow> string \<Rightarrow> 'r decoder option" where
  "find_field fds k = (case map_of fds k of Some d \<Rightarrow> Some d
     | None \<Rightarrow> map_option snd (List.find (\<lambda>f. EqualFold (fst f) k) fds))"

fun dec_members :: "'r json_field list \<Rightarrow> (string \<times> json) list \<Rightarrow> 'r \<Rightarrow> 'r option" where
  "dec_members fds [] r = Some r"
| "dec_members fds ((k, v) # kvs) r =
     (case find_field fds k of None \<Rightarrow> dec_members fds kvs r
      | Some d \<Rightarrow> (case d v r of None \<Rightarrow> None | Some r' \<Rightarrow> dec_members fds kvs r'))"

definition dec_struct :: "'r json_field list \<Rightarrow> 'r decoder" where
  "dec_struct fds j r = (case j of JObj kvs \<Rightarrow> dec_members fds kvs r | JNull \<Rightarrow> Some r | _ \<Rightarrow> None)"

section \<open>Reading a string back\<close>

lemma mapR_simps [simp]: "mapR f (Inl e) = Inl e" "mapR f (Inr (x, r)) = Inr (f x, r)"
  by (simp_all add: mapR_def)

lemma andR_simps [simp]: "andR (Inl e) k = Inl e" "andR (Inr (x, r)) k = k x r"
  by (simp_all add: andR_def)

lemma mapR_Inr: "mapR f m = Inr (y, r) \<longleftrightarrow> (\<exists>x. m = Inr (x, r) \<and> y = f x)"
  by (cases m) auto

lemma andR_Inr: "andR m k = Inr (y, r) \<longleftrightarrow> (\<exists>x q. m = Inr (x, q) \<and> k x q = Inr (y, r))"
  by (cases m) (auto simp: andR_def)

lemma hex_digit_val_digit [simp]: "d < 16 \<Longrightarrow> hex_digit_val (hex_digit d) = Some d"
  by (simp add: hex_digit_val_def hex_digit_def Let_def)

lemma char_values:
  "byte (CHR ''0'') = 48" "byte (CHR ''2'') = 50" "byte (CHR ''8'') = 56" "byte (CHR ''9'') = 57"
  by (simp_all add: byte_def)

lemma hex_digit_val_0 [simp]: "hex_digit_val (CHR ''0'') = Some 0"
  by (simp add: hex_digit_val_def char_values)

lemma append_singleton [simp]: "(@) [x] = (#) x"
  by (rule HOL.ext) simp

lemma hex_digits_4: "hex_digits 4 0 s = hex_digits (Suc (Suc (Suc (Suc 0)))) 0 s"
  by (simp add: eval_nat_numeral)

lemma scan_u_plain: "hex_digits 4 0 s = Inr (n, r) \<Longrightarrow> n < 55296 \<Longrightarrow> scan_u s = Inr (EncodeRune n, r)"
  by (cases r; cases "tl r") (simp_all add: scan_u_def scan_low_def)

lemma scan_escape_u00:
  assumes "n < 128"
  shows "scan_escape (''u00'' @ [hex_digit (n div 16), hex_digit (n mod 16)] @ r) = Inr ([char_of n], r)"
proof -
  have q: "n div 16 < 16" "n mod 16 < 16" using assms by simp_all
  have "hex_digits 4 0 (''00'' @ [hex_digit (n div 16), hex_digit (n mod 16)] @ r) = Inr (16 * (n div 16) + n mod 16, r)"
    unfolding hex_digits_4 by (simp add: hex_digit_val_digit [OF q(1)] hex_digit_val_digit [OF q(2)] del: hex_digit_val_digit)
  then have "scan_u (''00'' @ [hex_digit (n div 16), hex_digit (n mod 16)] @ r) = Inr (EncodeRune n, r)"
    using assms by (intro scan_u_plain) simp_all
  then show ?thesis using assms by (simp add: scan_escape_def EncodeRune_def)
qed

lemma scan_escape_u202:
  assumes "h = 8 \<or> h = 9"
  shows "scan_escape (''u202'' @ [hex_digit h] @ r) = Inr ([CHR 0xE2, CHR 0x80, char_of (160 + h)], r)"
proof -
  have d: "hex_digit_val (CHR ''2'') = Some 2" by (simp add: hex_digit_val_def char_values)
  have h: "h < 16" using assms by auto
  have "hex_digits 4 0 (''202'' @ [hex_digit h] @ r) = Inr (8224 + h, r)"
    unfolding hex_digits_4 by (simp add: d hex_digit_val_digit [OF h] del: hex_digit_val_digit)
  then have "scan_u (''202'' @ [hex_digit h] @ r) = Inr (EncodeRune (8224 + h), r)"
    using h by (intro scan_u_plain) simp_all
  moreover have "EncodeRune (8224 + h) = [CHR 0xE2, CHR 0x80, char_of (160 + h)]"
    using assms by (auto simp: EncodeRune_def byte_def simp flip: byte_eq)
  ultimately show ?thesis by (simp add: scan_escape_def)
qed

lemma scan_escape_short:
  "c = quote \<or> c = backslash \<Longrightarrow> scan_escape (c # r) = Inr ([c], r)"
  "scan_escape (CHR ''b'' # r) = Inr ([CHR 0x08], r)"
  "scan_escape (CHR ''f'' # r) = Inr ([CHR 0x0C], r)"
  "scan_escape (CHR ''n'' # r) = Inr ([CHR 0x0A], r)"
  "scan_escape (CHR ''r'' # r) = Inr ([CHR 0x0D], r)"
  "scan_escape (CHR ''t'' # r) = Inr ([CHR 0x09], r)"
  by (auto simp: scan_escape_def quote_def backslash_def)

lemma scan_ascii:
  assumes "byte c < 128" and "Suc m = n"
  shows "scan_chars n (escape_ascii c @ r) = mapR (Cons c) (scan_chars m r)"
proof -
  have ctl: "c = CHR 0x08 \<longleftrightarrow> byte c = 8" "c = CHR 0x0C \<longleftrightarrow> byte c = 12" "c = CHR 0x0A \<longleftrightarrow> byte c = 10"
    "c = CHR 0x0D \<longleftrightarrow> byte c = 13" "c = CHR 0x09 \<longleftrightarrow> byte c = 9"
    by (auto simp flip: byte_eq simp: byte_def)
  note [simp] = assms(2) [symmetric]
  consider (q) "c = quote \<or> c = backslash" | (b) "byte c \<in> {8, 12, 10, 13, 9}"
    | (u) "c \<noteq> quote" "c \<noteq> backslash" "byte c \<notin> {8, 12, 10, 13, 9}"
          "byte c < 32 \<or> c = CHR ''<'' \<or> c = CHR ''>'' \<or> c = CHR ''&''"
    | (l) "c \<noteq> quote" "c \<noteq> backslash" "byte c \<notin> {8, 12, 10, 13, 9}"
          "\<not> (byte c < 32 \<or> c = CHR ''<'' \<or> c = CHR ''>'' \<or> c = CHR ''&'')"
    by blast
  then show ?thesis
  proof cases
    case q
    then show ?thesis by (auto simp: escape_ascii_def scan_escape_short)
  next
    case b
    then have ne: "c \<noteq> quote" "c \<noteq> backslash" by (auto simp: quote_def backslash_def byte_def)
    from b ctl have "c = CHR 0x08 \<or> c = CHR 0x0C \<or> c = CHR 0x0A \<or> c = CHR 0x0D \<or> c = CHR 0x09"
      by blast
    with ne show ?thesis
      by (elim disjE) (simp_all add: escape_ascii_def scan_escape_short byte_def)
  next
    case u
    then have e: "escape_ascii c = backslash # ''u00'' @ [hex_digit (byte c div 16), hex_digit (byte c mod 16)]"
      by (auto simp: escape_ascii_def)
    show ?thesis using scan_escape_u00 [OF assms(1), of r] by (simp add: e)
  next
    case l
    with assms(1) show ?thesis by (simp add: escape_ascii_def)
  qed
qed

lemma escape_ascii_not_Nil [simp]: "escape_ascii c \<noteq> []"
  by (simp add: escape_ascii_def)

lemma utf8_len_take:
  "utf8_len (c # cs) = Suc k \<Longrightarrow> utf8_len (take (Suc k) (c # cs) @ r) = Suc k \<and> k < length (c # cs)"
  by (cases cs; cases "tl cs"; cases "tl (tl cs)") (auto simp: utf8_len.simps split: if_splits list.splits)

lemma scan_high:
  assumes "utf8_len (c # cs) = Suc k" and "128 \<le> byte c" and "Suc m = n"
  shows "scan_chars n (take (Suc k) (c # cs) @ r) = mapR (append (take (Suc k) (c # cs))) (scan_chars m r)"
proof -
  have "c \<noteq> quote" "c \<noteq> backslash" using assms(2) by (auto simp: quote_def backslash_def byte_def)
  moreover have len: "length (take (Suc k) (c # cs)) = Suc k"
    using utf8_len_take [OF assms(1), of r] by simp
  moreover have "utf8_len (c # take k cs @ r) = Suc k"
    using utf8_len_take [OF assms(1), of r] by simp
  moreover have "take k (take k cs @ r) = take k cs" "drop k (take k cs @ r) = r" using len by (auto simp: min_def split: if_splits)
  ultimately show ?thesis using assms(2,3) by auto
qed

lemma mapR_mapR [simp]: "mapR f (mapR g m) = mapR (\<lambda>x. f (g x)) m"
  by (cases m) auto

text \<open>Enough fuel is the length of the text.\<close>

lemma scan_json_escape:
  "valid_utf8 s \<Longrightarrow> length (json_escape s) < n \<Longrightarrow> scan_chars n (json_escape s @ quote # r) = Inr (s, r)"
proof (induction s arbitrary: n rule: json_escape.induct)
  case 1
  then show ?case by (cases n) (simp_all add: json_escape.simps)
next
  case (2 c cs)
  then obtain m where n: "n = Suc m" by (cases n) auto
  show ?case
  proof (cases "byte c < 128")
    case True
    then have e: "json_escape (c # cs) = escape_ascii c @ json_escape cs" by (simp add: json_escape.simps)
    then have "length (json_escape cs) < m" using "2.prems" n
      by (cases "escape_ascii c") auto
    with True "2.IH"(1) "2.prems" n scan_ascii [OF True n [symmetric]] show ?thesis by (simp add: e)
  next
    case False
    then obtain k where k: "utf8_len (c # cs) = Suc k" and v: "valid_utf8 (drop k cs)"
      using "2.prems" by (auto split: nat.splits)
    let ?t = "take (Suc k) (c # cs)"
    have join: "?t @ drop k cs = c # cs" by simp
    have IH: "scan_chars m (json_escape (drop k cs) @ quote # r) = Inr (drop k cs, r)"
      if "length (json_escape (drop k cs)) < m"
      using "2.IH"(3) [OF False k v that] .
    have line: "take 3 (c # cs) = [CHR 0xE2, CHR 0x80, x] \<Longrightarrow> ?t = [CHR 0xE2, CHR 0x80, x]" for x
      using k by (cases cs; cases "tl cs") (auto simp: utf8_len.simps byte_def numeral_3_eq_3 split: if_splits list.splits)
    have sep: "scan_chars n (json_escape (c # cs) @ quote # r) = Inr (c # cs, r)"
      if t3: "take 3 (c # cs) = [CHR 0xE2, CHR 0x80, char_of (160 + h)]" and h: "h = 8 \<or> h = 9"
        and esc: "json_escape (c # cs) = backslash # ''u202'' @ [hex_digit h] @ json_escape (drop k cs)" for h
    proof -
      have "length (json_escape (drop k cs)) < m" using "2.prems" n esc by simp
      with IH n esc scan_escape_u202 [OF h, of "json_escape (drop k cs) @ quote # r"]
      have "scan_chars n (json_escape (c # cs) @ quote # r) = Inr ([CHR 0xE2, CHR 0x80, char_of (160 + h)] @ drop k cs, r)"
        by simp
      also have "[CHR 0xE2, CHR 0x80, char_of (160 + h)] @ drop k cs = c # cs"
        using line [OF t3] join by metis
      finally show ?thesis .
    qed
    have hex: "hex_digit 8 = CHR ''8''" "hex_digit 9 = CHR ''9''"
      "CHR 0xA8 = char_of (160 + 8 :: nat)" "CHR 0xA9 = char_of (160 + 9 :: nat)"
      by (simp_all add: hex_digit_def byte_def flip: byte_eq)
    consider (ls) "take 3 (c # cs) = [CHR 0xE2, CHR 0x80, CHR 0xA8]"
      | (ps) "take 3 (c # cs) = [CHR 0xE2, CHR 0x80, CHR 0xA9]"
      | (other) "take 3 (c # cs) \<noteq> [CHR 0xE2, CHR 0x80, CHR 0xA8]"
                "take 3 (c # cs) \<noteq> [CHR 0xE2, CHR 0x80, CHR 0xA9]" by blast
    then show ?thesis
    proof cases
      case ls
      with False k have "json_escape (c # cs) = backslash # ''u202'' @ [hex_digit 8] @ json_escape (drop k cs)"
        by (simp add: json_escape.simps hex(1))
      with ls hex(3) show ?thesis by (intro sep [of 8]) (simp_all only: HOL.refl simp_thms)
    next
      case ps
      with False k have "json_escape (c # cs) = backslash # ''u202'' @ [hex_digit 9] @ json_escape (drop k cs)"
        by (simp add: json_escape.simps hex(2))
      with ps hex(4) show ?thesis by (intro sep [of 9]) (simp_all only: HOL.refl simp_thms)
    next
      case other
      with False k have e: "json_escape (c # cs) = ?t @ json_escape (drop k cs)"
        by (auto simp: json_escape.simps)
      then have "length (json_escape (drop k cs)) < m" using "2.prems" n by simp
      moreover have "128 \<le> byte c" using False by simp
      ultimately show ?thesis using IH join scan_high [OF k _ n [symmetric]]
        by (metis (no_types, lifting) append_assoc e mapR_simps(2))
    qed
  qed
qed

lemma scan_json_string:
  assumes "valid_utf8 s"
  shows "scan_string (json_escape s @ quote # r) = Inr (s, r)"
  using assms unfolding scan_string_def by (intro scan_json_escape) simp_all

section \<open>Reading any value back\<close>

text \<open>The values that the clients write: numbers are integers, strings are UTF-8.\<close>

primrec json_ok :: "json \<Rightarrow> bool" where
  "json_ok JNull \<longleftrightarrow> True"
| "json_ok (JBool b) \<longleftrightarrow> True"
| "json_ok (JNum n) \<longleftrightarrow> (\<exists>k. n = FormatInt k)"
| "json_ok (JStr s) \<longleftrightarrow> valid_utf8 s"
| "json_ok (JArr xs) \<longleftrightarrow> list_all id (map json_ok xs)"
| "json_ok (JObj fs) \<longleftrightarrow> list_all (\<lambda>(k, ok). valid_utf8 k \<and> ok) (map (map_prod id json_ok) fs)"

definition stops :: "string \<Rightarrow> bool" where
  "stops r \<longleftrightarrow> r = [] \<or> hd r \<in> {comma, CHR '']'', CHR ''}''}"

lemma stops_simps [simp]: "stops []" "stops (comma # r)" "stops (CHR '']'' # r)" "stops (CHR ''}'' # r)"
  by (simp_all add: stops_def)

lemma is_dec_show: "c \<in> set (show_nat n) \<Longrightarrow> is_dec c"
  by (simp add: is_dec_def show_nat_digits)

lemma show_nat_zero: "n \<noteq> 0 \<Longrightarrow> hd (show_nat n) \<noteq> CHR ''0''"
proof (induction n rule: show_nat.induct)
  case (1 n)
  show ?case
  proof (cases "n < 10")
    case True
    then have "show_nat n = [digit n]" by (simp add: show_nat.simps [of n])
    moreover have "digit_val (CHR ''0'') = Some 0" by (simp add: digit_val_def)
    ultimately show ?thesis using True "1.prems" by (metis digit_val_digit list.sel(1) option.inject)
  next
    case False
    then have "show_nat n = show_nat (n div 10) @ [digit (n mod 10)]" by (simp add: show_nat.simps [of n])
    with False 1 show ?thesis by (simp add: hd_append)
  qed
qed

lemma show_nat_zero_text: "show_nat 0 = ''0''"
  by (simp add: show_nat.simps digit_def char_values flip: byte_eq)

lemma stops_not_dec: "stops r \<Longrightarrow> takeWhile is_dec r = [] \<and> dropWhile is_dec r = r"
  by (cases r) (auto simp: stops_def is_dec_def digit_val_def Let_def)

lemma scan_int_show:
  assumes "stops r"
  shows "scan_int (show_nat n @ r) = Inr (show_nat n, r)"
proof (cases "n = 0")
  case True
  then show ?thesis by (simp add: show_nat_zero_text scan_int_def)
next
  case False
  obtain c cs where e: "show_nat n = c # cs" using show_nat_not_Nil list.exhaust by metis
  with show_nat_zero [OF False] have "c \<noteq> CHR ''0''" by simp
  moreover have "is_dec c" using is_dec_show [of c n] e by simp
  moreover have "takeWhile is_dec (show_nat n @ r) = show_nat n" "dropWhile is_dec (show_nat n @ r) = r"
    using is_dec_show stops_not_dec [OF assms] by (simp_all add: takeWhile_append dropWhile_append)
  ultimately show ?thesis using e by (simp add: scan_int_def scan_digits_def)
qed

lemma scan_number_FormatInt:
  assumes "stops r"
  shows "scan_number (FormatInt k @ r) = Inr (JNum (FormatInt k), r)"
proof -
  have rest: "scan_frac r = Inr ([], r)" "scan_exp r = Inr ([], r)"
    using assms by (cases r; auto simp: stops_def scan_frac_def scan_exp_def)+
  obtain c cs where e: "show_nat (nat k) = c # cs" "c \<noteq> CHR ''-''"
    using show_nat_hd by blast
  show ?thesis
  proof (cases "k < 0")
    case True
    with rest scan_int_show [OF assms, of "nat (- k)"] show ?thesis
      by (simp add: scan_number_def FormatInt_def)
  next
    case False
    with rest e scan_int_show [OF assms, of "nat k"] show ?thesis
      by (simp add: scan_number_def FormatInt_def)
  qed
qed

lemma FormatInt_head: "\<exists>c cs. FormatInt k = c # cs \<and> (c = CHR ''-'' \<or> is_dec c)"
proof (cases "FormatInt k")
  case Nil
  then show ?thesis by (simp add: FormatInt_def split: if_splits)
next
  case (Cons c cs)
  then show ?thesis using FormatInt_chars [of c k] by (auto simp: is_dec_def)
qed

lemma number_head:
  "c = CHR ''-'' \<or> is_dec c \<Longrightarrow> \<not> json_space c \<and> c \<notin> {CHR '']'', CHR ''{'', CHR ''['', quote}"
  by (auto simp: json_space_def byte_def is_dec_def digit_val_def Let_def quote_def split: if_splits)

lemma Marshal_head: "json_ok v \<Longrightarrow> \<exists>c cs. Marshal v = c # cs \<and> \<not> json_space c \<and> c \<noteq> CHR '']''"
proof (cases v)
  case (JNum n)
  moreover assume "json_ok v"
  ultimately obtain k where "Marshal v = FormatInt k" by auto
  with FormatInt_head [of k] number_head show ?thesis by auto
qed (auto simp: json_bool_def json_string_def json_object_def json_space_def byte_def quote_def)

lemma skip_ws_nonspace [simp]: "\<not> json_space c \<Longrightarrow> skip_ws (c # cs) = c # cs"
  by (simp add: skip_ws_def)

lemma punct [simp]: "\<not> json_space comma" "\<not> json_space colon" "\<not> json_space quote"
  "\<not> json_space (CHR '']'')" "\<not> json_space (CHR ''}'')" "\<not> json_space (CHR ''{'')" "\<not> json_space (CHR ''['')"
  by (simp_all add: json_space_def byte_def quote_def)

lemma Join_Cons: "Join (x # xs) sep = x @ (if xs = [] then [] else sep @ Join xs sep)"
  by (cases xs) simp_all

lemma next_item_simps [simp]:
  "next_item rest c v (comma # r) = mapR (Cons v) (rest r)"
  "next_item rest (CHR '']'') v (CHR '']'' # r) = Inr ([v], r)"
  "next_item rest (CHR ''}'') v (CHR ''}'' # r) = Inr ([v], r)"
  by (simp_all add: next_item_def)

definition reads_back :: "json \<Rightarrow> bool" where
  "reads_back v \<longleftrightarrow> (\<forall>n r. length (Marshal v) < n \<longrightarrow> stops r \<longrightarrow> scan_value n (Marshal v @ r) = Inr (v, r))"

lemma reads_backD: "reads_back v \<Longrightarrow> length (Marshal v) < n \<Longrightarrow> stops r \<Longrightarrow> scan_value n (Marshal v @ r) = Inr (v, r)"
  by (simp add: reads_back_def)

lemma scan_items_back:
  "xs \<noteq> [] \<Longrightarrow> \<forall>x \<in> set xs. reads_back x \<Longrightarrow> length (Join (map Marshal xs) '','') + 1 < n \<Longrightarrow>
   scan_items n (Join (map Marshal xs) '','' @ CHR '']'' # r) = Inr (xs, r)"
proof (induction xs arbitrary: n)
  case (Cons x xs)
  then obtain m where n: "n = Suc m" by (cases n) auto
  let ?t = "if xs = [] then [] else '','' @ Join (map Marshal xs) '',''"
  have len: "length (Marshal x) < m" using Cons.prems(3) n by (simp add: Join_Cons split: if_splits)
  have x: "scan_value m (Marshal x @ ?t @ CHR '']'' # r) = Inr (x, ?t @ CHR '']'' # r)"
    using Cons.prems(2) len by (intro reads_backD) auto
  show ?case
  proof (cases "xs = []")
    case True
    with x n show ?thesis by simp
  next
    case False
    with Cons.prems n have "scan_items m (Join (map Marshal xs) '','' @ CHR '']'' # r) = Inr (xs, r)"
      by (intro Cons.IH) (auto simp: Join_Cons)
    with False x n show ?thesis by (simp add: Join_Cons)
  qed
qed simp

lemma scan_members_back:
  "fs \<noteq> [] \<Longrightarrow> \<forall>(k, v) \<in> set fs. valid_utf8 k \<and> reads_back v \<Longrightarrow>
   length (Join (map (\<lambda>(k, v). json_field k (Marshal v)) fs) '','') + 1 < n \<Longrightarrow>
   scan_members n (Join (map (\<lambda>(k, v). json_field k (Marshal v)) fs) '','' @ CHR ''}'' # r) = Inr (fs, r)"
proof (induction fs arbitrary: n)
  case (Cons f fs)
  obtain k v where f: "f = (k, v)" by (cases f)
  from Cons.prems obtain m where n: "n = Suc m" by (cases n) auto
  let ?j = "Join (map (\<lambda>(k, v). json_field k (Marshal v)) fs) '',''"
  let ?t = "if fs = [] then [] else '','' @ ?j"
  have key: "scan_string (json_escape k @ quote # colon # Marshal v @ ?t @ CHR ''}'' # r)
      = Inr (k, colon # Marshal v @ ?t @ CHR ''}'' # r)"
    using Cons.prems(2) f by (intro scan_json_string) auto
  have len: "length (Marshal v) < m"
    using Cons.prems(3) n f by (simp add: Join_Cons json_field_def json_string_def split: if_splits)
  have val: "scan_value m (Marshal v @ ?t @ CHR ''}'' # r) = Inr (v, ?t @ CHR ''}'' # r)"
    using Cons.prems(2) len f by (intro reads_backD) auto
  show ?case
  proof (cases "fs = []")
    case True
    with key val n f show ?thesis by (simp add: json_field_def json_string_def)
  next
    case False
    with Cons.prems n f have "scan_members m (?j @ CHR ''}'' # r) = Inr (fs, r)"
      by (intro Cons.IH) (auto simp: Join_Cons json_field_def)
    with False key val n f show ?thesis by (simp add: Join_Cons json_field_def json_string_def)
  qed
qed simp

lemma Marshal_object: "Marshal (JObj fs) = ''{'' @ Join (map (\<lambda>(k, v). json_field k (Marshal v)) fs) '','' @ ''}''"
  by (simp add: json_object_def comp_def case_prod_beta' map_prod_def)

lemma json_ok_reads_back: "json_ok v \<Longrightarrow> reads_back v"
proof (induction v)
  case JNull
  show ?case unfolding reads_back_def
  proof (intro allI impI)
    fix n r assume "length (Marshal JNull) < n"
    then show "scan_value n (Marshal JNull @ r) = Inr (JNull, r)"
      by (cases n) (simp_all add: scan_word_def HasPrefix_def json_space_def byte_def quote_def is_dec_def digit_val_def)
  qed
next
  case (JBool b)
  show ?case unfolding reads_back_def
  proof (intro allI impI)
    fix n r assume "length (Marshal (JBool b)) < n"
    then show "scan_value n (Marshal (JBool b) @ r) = Inr (JBool b, r)"
      by (cases n) (simp_all add: json_bool_def scan_word_def HasPrefix_def json_space_def byte_def quote_def is_dec_def digit_val_def)
  qed
next
  case (JNum t)
  then obtain k where t: "t = FormatInt k" by auto
  obtain c cs where c: "FormatInt k = c # cs" "c = CHR ''-'' \<or> is_dec c" using FormatInt_head by blast
  show ?case unfolding reads_back_def
  proof (intro allI impI)
    fix n r assume "length (Marshal (JNum t)) < n" and st: "stops r"
    then obtain m where n: "n = Suc m" by (cases n) auto
    have "scan_value n (c # cs @ r) = scan_number (c # cs @ r)"
      using number_head [OF c(2)] c(2) by (auto simp: n)
    with scan_number_FormatInt [OF st, of k] c t show "scan_value n (Marshal (JNum t) @ r) = Inr (JNum t, r)" by simp
  qed
next
  case (JStr s)
  show ?case unfolding reads_back_def
  proof (intro allI impI)
    fix n r assume "length (Marshal (JStr s)) < n"
    then obtain m where "n = Suc m" by (cases n) auto
    moreover have "quote \<noteq> CHR ''{''" "quote \<noteq> CHR ''[''" by (simp_all add: quote_def)
    ultimately show "scan_value n (Marshal (JStr s) @ r) = Inr (JStr s, r)"
      using JStr scan_json_string [of s r] by (simp add: json_string_def)
  qed
next
  case (JArr xs)
  then have all: "\<forall>x \<in> set xs. json_ok x \<and> reads_back x" by (auto simp: list_all_iff)
  show ?case unfolding reads_back_def
  proof (intro allI impI)
    fix n r assume len: "length (Marshal (JArr xs)) < n"
    then obtain m where n: "n = Suc m" by (cases n) auto
    show "scan_value n (Marshal (JArr xs) @ r) = Inr (JArr xs, r)"
    proof (cases xs)
      case Nil
      with n show ?thesis by simp
    next
      case (Cons y ys)
      with all have "json_ok y" by simp
      then obtain c cs where c: "Marshal y = c # cs" "\<not> json_space c" "c \<noteq> CHR '']''" using Marshal_head by blast
      from c Cons have "Join (map Marshal xs) '','' = c # cs @ (if ys = [] then [] else '','' @ Join (map Marshal ys) '','')"
        by (simp add: Join_Cons)
      moreover have "scan_items m (Join (map Marshal xs) '','' @ CHR '']'' # r) = Inr (xs, r)"
        using all len n Cons by (intro scan_items_back) auto
      ultimately show ?thesis using n c by simp
    qed
  qed
next
  case (JObj fs)
  then have all: "\<forall>(k, v) \<in> set fs. valid_utf8 k \<and> reads_back v"
    by (fastforce simp: list_all_iff)
  show ?case unfolding reads_back_def
  proof (intro allI impI)
    fix n r assume len: "length (Marshal (JObj fs)) < n"
    then obtain m where n: "n = Suc m" by (cases n) auto
    let ?j = "Join (map (\<lambda>(k, v). json_field k (Marshal v)) fs) '',''"
    show "scan_value n (Marshal (JObj fs) @ r) = Inr (JObj fs, r)"
    proof (cases fs)
      case Nil
      with n show ?thesis by (simp add: json_object_def)
    next
      case (Cons f gs)
      then have "\<exists>t. ?j = quote # t" by (cases f) (simp add: Join_Cons json_field_def json_string_def)
      then obtain t where t: "?j = quote # t" by blast
      moreover have "scan_members m (?j @ CHR ''}'' # r) = Inr (fs, r)"
        using all len n Cons by (intro scan_members_back) (auto simp: Marshal_object simp del: Marshal.simps)
      moreover have "quote \<noteq> CHR ''}''" by (simp add: quote_def)
      ultimately show ?thesis using n by (simp add: Marshal_object del: Marshal.simps)
    qed
  qed
qed

text \<open>Reading what was written gives the value, whatever follows it.\<close>

lemma read_Marshal: "json_ok v \<Longrightarrow> stops r \<Longrightarrow> read_json (Marshal v @ r) = Inr (v, r)"
  unfolding read_json_def by (rule reads_backD [OF json_ok_reads_back]) simp_all

section \<open>The fuel is enough\<close>

lemma scan_digits_less: "scan_digits s = Inr (x, r) \<Longrightarrow> length r < length s"
  by (auto simp: scan_digits_def le_imp_less_Suc length_dropWhile_le split: list.splits if_splits)

lemma scan_int_less: "scan_int s = Inr (x, r) \<Longrightarrow> length r < length s"
  by (auto simp: scan_int_def dest: scan_digits_less split: list.splits if_splits)

lemma scan_frac_le: "scan_frac s = Inr (x, r) \<Longrightarrow> length r \<le> length s"
  by (auto simp: scan_frac_def mapR_Inr dest: scan_digits_less split: list.splits if_splits)

lemma scan_exp_le: "scan_exp s = Inr (x, r) \<Longrightarrow> length r \<le> length s"
  by (auto simp: scan_exp_def mapR_Inr dest!: scan_digits_less split: list.splits if_splits)

lemma scan_number_less:
  assumes "scan_number s = Inr (v, r)"
  shows "length r < length s"
proof -
  let ?p = "case s of c # cs \<Rightarrow> if c = CHR ''-'' then ([c], cs) else ([], s) | [] \<Rightarrow> ([], [])"
  from assms obtain i q1 f q2 e where "scan_int (snd ?p) = Inr (i, q1)" "scan_frac q1 = Inr (f, q2)" "scan_exp q2 = Inr (e, r)"
    by (auto simp: scan_number_def andR_Inr case_prod_beta Let_def)
  then have "length r < length (snd ?p)"
    using scan_int_less scan_frac_le scan_exp_le by (meson le_less_trans)
  also have "length (snd ?p) \<le> length s" by (auto split: list.splits)
  finally show ?thesis .
qed

lemma hex_digits_le: "hex_digits k acc s = Inr (x, r) \<Longrightarrow> length r \<le> length s"
  by (induction k acc s rule: hex_digits.induct) (auto split: option.splits)

lemma scan_low_le: "scan_low n s = Inr (x, r) \<Longrightarrow> length r \<le> length s"
  by (auto simp: scan_low_def dest!: hex_digits_le split: list.splits if_splits sum.splits)

lemma scan_u_le: "scan_u s = Inr (x, r) \<Longrightarrow> length r \<le> length s"
  by (auto simp: scan_u_def andR_Inr dest!: hex_digits_le scan_low_le)

lemma scan_escape_less: "scan_escape s = Inr (x, r) \<Longrightarrow> length r < length s"
  by (auto simp: scan_escape_def le_imp_less_Suc dest: scan_u_le split: list.splits if_splits)

lemma scan_chars_less: "scan_chars n s = Inr (x, r) \<Longrightarrow> length r < length s"
proof (induction n arbitrary: s x r)
  case (Suc n)
  show ?case
  proof (cases s)
    case (Cons c cs)
    with Suc.prems show ?thesis
      by (fastforce simp: andR_Inr mapR_Inr split: if_splits nat.splits dest!: scan_escape_less Suc.IH)
  qed (use Suc.prems in simp)
qed simp

lemma scan_string_less: "scan_string s = Inr (x, r) \<Longrightarrow> length r < length s"
  by (auto simp: scan_string_def dest: scan_chars_less)

lemma andR_cong: "m = m' \<Longrightarrow> (\<And>x r. m' = Inr (x, r) \<Longrightarrow> k x r = k' x r) \<Longrightarrow> andR m k = andR m' k'"
  by (auto simp: andR_def split: sum.splits)

lemma scan_chars_fuel:
  "length s < n \<Longrightarrow> length s < m \<Longrightarrow> scan_chars n s = scan_chars m s"
proof (induction n arbitrary: s m)
  case (Suc n)
  then obtain m' where m: "m = Suc m'" by (cases m) auto
  show ?case
  proof (cases s)
    case (Cons c cs)
    have esc: "andR (scan_escape cs) (\<lambda>x r. mapR (append x) (scan_chars n r))
        = andR (scan_escape cs) (\<lambda>x r. mapR (append x) (scan_chars m' r))"
      using Suc.prems m Cons scan_escape_less
      by (intro andR_cong HOL.refl arg_cong [where f = "mapR _"] Suc.IH) fastforce+
    have rest: "scan_chars n (drop k cs) = scan_chars m' (drop k cs)" for k
      using Suc.prems m Cons by (intro Suc.IH) auto
    show ?thesis
      by (simp add: Cons m esc rest rest [of 0, simplified] split: nat.split)
  qed (simp add: m)
qed simp

lemma skip_ws_le: "length (skip_ws s) \<le> length s"
  by (simp add: skip_ws_def length_dropWhile_le)

lemma skip_ws_Cons_less: "skip_ws s = c # cs \<Longrightarrow> length cs < length s"
  using skip_ws_le [of s] by simp

lemma scan_word_less: "scan_word (a # w) v s = Inr (x, r) \<Longrightarrow> length r < length s"
  by (auto simp: scan_word_def HasPrefix_iff split: if_splits)

lemma next_item_less:
  "next_item rest close v s = Inr (vs, r) \<Longrightarrow> (\<And>t ws q. rest t = Inr (ws, q) \<Longrightarrow> length q < length t) \<Longrightarrow>
   length r < length s"
  unfolding next_item_def
  by (auto simp: mapR_Inr split: list.splits if_splits dest!: skip_ws_Cons_less) (meson less_trans)

lemma next_item_cong:
  "(\<And>t. length t < length s \<Longrightarrow> rest t = rest' t) \<Longrightarrow> next_item rest close v s = next_item rest' close v s"
  by (auto simp: next_item_def dest: skip_ws_Cons_less split: list.split)

lemma scan_less:
  "(\<forall>s v r. scan_value n s = Inr (v, r) \<longrightarrow> length r < length s)
   \<and> (\<forall>s vs r. scan_items n s = Inr (vs, r) \<longrightarrow> length r < length s)
   \<and> (\<forall>s fs r. scan_members n s = Inr (fs, r) \<longrightarrow> length r < length s)"
proof (induction n)
  case (Suc n)
  then have IH: "\<And>s v r. scan_value n s = Inr (v, r) \<Longrightarrow> length r < length s"
    "\<And>s vs r. scan_items n s = Inr (vs, r) \<Longrightarrow> length r < length s"
    "\<And>s fs r. scan_members n s = Inr (fs, r) \<Longrightarrow> length r < length s" by blast+
  have "length r < length s" if "scan_value (Suc n) s = Inr (v, r)" for s v r
  proof (cases "skip_ws s")
    case (Cons c cs)
    with that have "length r < length (c # cs)"
      by (auto simp: mapR_Inr split: if_splits list.splits
          dest!: IH skip_ws_Cons_less scan_string_less scan_number_less scan_word_less)
    with Cons skip_ws_le [of s] show ?thesis by simp
  qed (use that in simp)
  moreover have "length r < length s" if scan: "scan_items (Suc n) s = Inr (vs, r)" for s vs r
  proof -
    from scan obtain v q where q: "scan_value n s = Inr (v, q)"
      and "next_item (\<lambda>s. scan_items n s) (CHR '']'') v q = Inr (vs, r)"
      by (auto simp: andR_Inr)
    with IH(1) [OF q] IH(2) next_item_less [of "\<lambda>s. scan_items n s"] show ?thesis by fastforce
  qed
  moreover have "length r < length s" if scan: "scan_members (Suc n) s = Inr (fs, r)" for s fs r
  proof -
    from scan obtain cs k p where p: "skip_ws s = quote # cs" "scan_string cs = Inr (k, p)"
      and "(case skip_ws p of [] \<Rightarrow> Inl Truncated
           | d # ds \<Rightarrow> if d \<noteq> colon then Inl Malformed
               else andR (scan_value n ds) (\<lambda>v. next_item (\<lambda>s. scan_members n s) (CHR ''}'') (k, v))) = Inr (fs, r)"
      by (cases "skip_ws s") (auto simp: andR_Inr split: if_splits)
    then obtain es v q where p: "skip_ws s = quote # cs" "scan_string cs = Inr (k, p)"
      "skip_ws p = colon # es" "scan_value n es = Inr (v, q)"
      and "next_item (\<lambda>s. scan_members n s) (CHR ''}'') (k, v) q = Inr (fs, r)"
      by (cases "skip_ws p") (auto simp: andR_Inr split: if_splits)
    with skip_ws_Cons_less [OF p(1)] scan_string_less [OF p(2)] skip_ws_Cons_less [OF p(3)] IH(1) [OF p(4)] IH(3)
      next_item_less [of "\<lambda>s. scan_members n s"]
    show ?thesis by fastforce
  qed
  ultimately show ?case by blast
qed simp

lemma scan_fuel:
  "(\<forall>m s. 2 * length s < n \<longrightarrow> 2 * length s < m \<longrightarrow> scan_value n s = scan_value m s)
   \<and> (\<forall>m s. 2 * length s + 1 < n \<longrightarrow> 2 * length s + 1 < m \<longrightarrow> scan_items n s = scan_items m s)
   \<and> (\<forall>m s. 2 * length s < n \<longrightarrow> 2 * length s < m \<longrightarrow> scan_members n s = scan_members m s)"
proof (induction n)
  case (Suc n)
  then have V: "\<And>m s. 2 * length s < n \<Longrightarrow> 2 * length s < m \<Longrightarrow> scan_value n s = scan_value m s"
    and I: "\<And>m s. 2 * length s + 1 < n \<Longrightarrow> 2 * length s + 1 < m \<Longrightarrow> scan_items n s = scan_items m s"
    and M: "\<And>m s. 2 * length s < n \<Longrightarrow> 2 * length s < m \<Longrightarrow> scan_members n s = scan_members m s"
    by blast+
  have "scan_value (Suc n) s = scan_value m s" if h: "2 * length s < Suc n" "2 * length s < m" for m s
  proof (cases "skip_ws s")
    case Nil
    with h show ?thesis by (cases m) auto
  next
    case (Cons c cs)
    obtain m' where m: "m = Suc m'" using h by (cases m) auto
    have inner: "scan_items n (skip_ws cs) = scan_items m' (skip_ws cs)"
      "scan_members n (skip_ws cs) = scan_members m' (skip_ws cs)"
      using h m skip_ws_Cons_less [OF Cons] skip_ws_le [of cs] by (auto intro!: I M)
    show ?thesis
    proof (cases "skip_ws cs")
      case Nil
      with Cons m show ?thesis by simp
    next
      case (Cons d ds)
      with inner have "scan_items n (d # ds) = scan_items m' (d # ds)"
        "scan_members n (d # ds) = scan_members m' (d # ds)" by simp_all
      with \<open>skip_ws s = c # cs\<close> Cons m show ?thesis by (simp cong: if_cong)
    qed
  qed
  moreover have "scan_items (Suc n) s = scan_items m s" if h: "2 * length s + 1 < Suc n" "2 * length s + 1 < m" for m s
  proof -
    obtain m' where m: "m = Suc m'" using h by (cases m) auto
    have "scan_value n s = scan_value m' s" using h m by (intro V) simp_all
    moreover have "next_item (\<lambda>s. scan_items n s) c v r = next_item (\<lambda>s. scan_items m' s) c v r"
      if "scan_value m' s = Inr (v, r)" for c v r
      using scan_less [of m'] that h m by (intro next_item_cong I) fastforce+
    ultimately show ?thesis by (auto simp: m intro!: andR_cong)
  qed
  moreover have "scan_members (Suc n) s = scan_members m s" if h: "2 * length s < Suc n" "2 * length s < m" for m s
  proof (cases "skip_ws s")
    case Nil
    with h show ?thesis by (cases m) auto
  next
    case (Cons c cs)
    obtain m' where m: "m = Suc m'" using h by (cases m) auto
    have val: "andR (scan_value n ds) (\<lambda>v. next_item (\<lambda>s. scan_members n s) e (k, v))
        = andR (scan_value m' ds) (\<lambda>v. next_item (\<lambda>s. scan_members m' s) e (k, v))"
      if less: "length ds < length s" for e k ds
    proof (rule andR_cong)
      show "scan_value n ds = scan_value m' ds" using less h m by (intro V) simp_all
      fix v r assume "scan_value m' ds = Inr (v, r)"
      with scan_less [of m'] less h m
      show "next_item (\<lambda>s. scan_members n s) e (k, v) r = next_item (\<lambda>s. scan_members m' s) e (k, v) r"
        by (intro next_item_cong M) fastforce+
    qed
    have less: "length ds < length s" if "scan_string cs = Inr (k, r)" "skip_ws r = d # ds" for k r d ds
      using scan_string_less [OF that(1)] skip_ws_Cons_less [OF that(2)] skip_ws_Cons_less [OF Cons] by simp
    show ?thesis
      using Cons m val less by (auto intro!: andR_cong split: list.split)
  qed
  ultimately show ?case by blast
qed simp

text \<open>Any larger fuel reads the same.\<close>

lemma read_json_fuel: "2 * length s + 2 \<le> n \<Longrightarrow> scan_value n s = read_json s"
  unfolding read_json_def by (rule scan_fuel [THEN conjunct1, rule_format]) simp_all

end
