(* ===== verification/Http.thy ===== *)
theory Http
  imports Json Pairing Retry
begin

text \<open>
  What the two API clients use of \<open>net/http\<close> and \<open>net/url\<close>. The network itself is a parameter:
  the record \<open>internet\<close> holds the clock, sleeping, the state of a context, the outcome of one
  \<open>http.Client.Do\<close> (with its timeout, redirects included), URL parsing and the wording of the
  JSON package's errors. A context is its deadline, if it has one of its own; cancellation of
  the surrounding context is part of the world.
\<close>

section \<open>Escaping\<close>

definition hex_upper :: "nat \<Rightarrow> char" where
  "hex_upper n = (if n < 10 then char_of (48 + n) else char_of (55 + n))"

definition unreserved :: "char \<Rightarrow> bool" where
  "unreserved c \<longleftrightarrow> (let n = byte c in (48 \<le> n \<and> n \<le> 57) \<or> (65 \<le> n \<and> n \<le> 90) \<or> (97 \<le> n \<and> n \<le> 122))
     \<or> c \<in> set ''-_.~''"

definition percent_encode :: "char \<Rightarrow> string" where
  "percent_encode c = [CHR ''%'', hex_upper (byte c div 16), hex_upper (byte c mod 16)]"

definition path_char :: "char \<Rightarrow> string" where
  "path_char c = (if unreserved c \<or> c \<in> set ''$&+=:@'' then [c] else percent_encode c)"

definition PathEscape :: "string \<Rightarrow> string" where
  "PathEscape s = concat (map path_char s)"

definition QueryEscape :: "string \<Rightarrow> string" where
  "QueryEscape s = concat (map (\<lambda>c. if unreserved c then [c] else if c = CHR '' '' then ''+'' else percent_encode c) s)"

text \<open>The scheme that \<open>url.Parse\<close> finds: letters, digits and \<open>+-.\<close> before the first colon.\<close>

fun url_scheme_from :: "string \<Rightarrow> string \<Rightarrow> string" where
  "url_scheme_from acc [] = []"
| "url_scheme_from acc (c # cs) =
     (let n = byte (lower_char c) in
      if 97 \<le> n \<and> n \<le> 122 then url_scheme_from (acc @ [c]) cs
      else if (48 \<le> n \<and> n \<le> 57) \<or> c \<in> set ''+-.'' then (if acc = [] then [] else url_scheme_from (acc @ [c]) cs)
      else if c = colon then acc else [])"

definition url_scheme :: "string \<Rightarrow> string" where
  "url_scheme s = ToLower (url_scheme_from [] s)"

section \<open>Requests and replies\<close>

record api_request =
  aq_Method :: string
  aq_URL :: string
  aq_Header :: "(string \<times> string) list"
  aq_Body :: "string option"

text \<open>\<open>ar_Header\<close> is \<open>Header.Get\<close>; \<open>ar_BodyErr\<close> is the error with which the body ends, if it is
  not complete.\<close>

record api_reply =
  ar_StatusCode :: int
  ar_Header :: "string \<Rightarrow> string"
  ar_Body :: string
  ar_BodyErr :: "go_error option"

type_synonym call_context = "time option"

record 'w internet =
  hx_now :: "'w \<Rightarrow> time \<times> 'w"
  hx_Sleep :: "call_context \<Rightarrow> duration \<Rightarrow> ('w, unit) call"
  hx_ctxErr :: "call_context \<Rightarrow> 'w \<Rightarrow> go_error option"
  hx_Do :: "duration \<Rightarrow> call_context \<Rightarrow> api_request \<Rightarrow> ('w, api_reply) call"
  hx_urlErr :: "string \<Rightarrow> go_error option"
  hx_parse :: "string \<Rightarrow> parsed_url option"
  hx_String :: "string \<Rightarrow> string \<Rightarrow> string"
  hx_jsonErr :: "string \<Rightarrow> string"

text \<open>\<open>http.NewRequestWithContext\<close> fails on a URL that does not parse, and \<open>http.Client.Do\<close> on one
  that is not HTTP, before anything is sent.\<close>

definition url_op :: "string \<Rightarrow> string" where
  "url_op m = take 1 m @ ToLower (drop 1 m)"

definition client_Do :: "'w internet \<Rightarrow> duration \<Rightarrow> call_context \<Rightarrow> api_request \<Rightarrow> ('w, api_reply) call" where
  "client_Do X timeout ctx rq =
     (case hx_urlErr X (aq_URL rq) of Some e \<Rightarrow> throw e
      | None \<Rightarrow>
          if url_scheme (aq_URL rq) \<noteq> ''http'' \<and> url_scheme (aq_URL rq) \<noteq> ''https''
          then throw (URLError (url_op (aq_Method rq) @ '' '' @ Quote (aq_URL rq)
                 @ '': unsupported protocol scheme '' @ Quote (url_scheme (aq_URL rq))))
          else hx_Do X timeout ctx rq)"

definition success :: "api_reply \<Rightarrow> bool" where
  "success r \<longleftrightarrow> \<not> (ar_StatusCode r < 200 \<or> ar_StatusCode r \<ge> 300)"

text \<open>\<open>time.Time.Sub\<close> and a number of seconds as a \<open>time.Duration\<close>.\<close>

definition time_Sub :: "time \<Rightarrow> time \<Rightarrow> duration" where
  "time_Sub t u = max (- (2 ^ 63)) (min (2 ^ 63 - 1) (t - u))"

definition seconds :: "int \<Rightarrow> duration" where
  "seconds n = i64 (n * second)"

text \<open>The function \<open>retryAfter\<close>, which both clients define alike.\<close>

definition retryAfter :: "(string \<Rightarrow> string) \<Rightarrow> duration" where
  "retryAfter header = (case ParseInt (header ''Retry-After'') of
     Some n \<Rightarrow> if n > 0 then seconds n else 0 | None \<Rightarrow> 0)"

section \<open>Bodies\<close>

definition maxResponseBody :: int where "maxResponseBody = 33554432"

text \<open>\<open>io.LimitReader\<close>, and \<open>io.ReadAll\<close> of it: a limited body ends like a complete one.\<close>

definition LimitReader :: "int \<Rightarrow> api_reply \<Rightarrow> string \<times> go_error option" where
  "LimitReader n r = (if int (length (ar_Body r)) < n then (ar_Body r, ar_BodyErr r)
     else (take (nat n) (ar_Body r), None))"

definition ReadAll :: "string \<times> go_error option \<Rightarrow> go_error + string" where
  "ReadAll b = (case snd b of None \<Rightarrow> Inr (fst b) | Some e \<Rightarrow> Inl e)"

text \<open>\<open>json.NewDecoder(io.LimitReader(body, maxResponseBody)).Decode(&x)\<close> into a fresh variable.\<close>

definition decode_body :: "'w internet \<Rightarrow> 'a decoder \<Rightarrow> 'a \<Rightarrow> api_reply \<Rightarrow> go_error + 'a" where
  "decode_body X d zero r =
     (case LimitReader maxResponseBody r of (text, err) \<Rightarrow>
        (case read_json text of
           Inr (v, _) \<Rightarrow> (case d v zero of Some x \<Rightarrow> Inr x | None \<Rightarrow> Inl (Err (hx_jsonErr X text)))
         | Inl Malformed \<Rightarrow> Inl (Err (hx_jsonErr X text))
         | Inl Truncated \<Rightarrow> Inl (case err of Some e \<Rightarrow> e
             | None \<Rightarrow> Err (if skip_ws text = [] then ''EOF'' else ''unexpected EOF''))))"

section \<open>Escaping is injective\<close>

lemma hex_upper_inj: "m < 16 \<Longrightarrow> n < 16 \<Longrightarrow> hex_upper m = hex_upper n \<longleftrightarrow> m = n"
  by (auto simp: hex_upper_def simp flip: byte_eq split: if_splits)

lemma percent_encode_inj: "percent_encode c = percent_encode d \<longleftrightarrow> c = d"
proof
  assume "percent_encode c = percent_encode d"
  then have "hex_upper (byte c div 16) = hex_upper (byte d div 16)"
    and "hex_upper (byte c mod 16) = hex_upper (byte d mod 16)"
    by (simp_all add: percent_encode_def)
  moreover have "byte c div 16 < 16" "byte d div 16 < 16"
    using byte_lt [of c] byte_lt [of d] by (simp_all add: less_mult_imp_div_less)
  ultimately have "byte c div 16 = byte d div 16" "byte c mod 16 = byte d mod 16"
    by (simp_all add: hex_upper_inj)
  then have "byte c = byte d" by (metis div_mult_mod_eq)
  then show "c = d" by (simp add: byte_eq)
qed simp

lemma PathEscape_simps [simp]: "PathEscape [] = []" "PathEscape (c # s) = path_char c @ PathEscape s"
  by (simp_all add: PathEscape_def)

lemma percent_reserved: "\<not> unreserved (CHR ''%'')"
  by (simp add: unreserved_def byte_def)

lemma path_char_cases:
  "(path_char c = [c] \<and> c \<noteq> CHR ''%'' \<and> c \<noteq> slash) \<or> path_char c = percent_encode c"
  by (auto simp: path_char_def unreserved_def byte_def)

lemma path_char_append: "path_char c @ x = path_char d @ y \<longleftrightarrow> c = d \<and> x = y"
proof
  assume eq: "path_char c @ x = path_char d @ y"
  from path_char_cases [of c] path_char_cases [of d] show "c = d \<and> x = y"
  proof (elim disjE)
    assume "path_char c = percent_encode c" "path_char d = percent_encode d"
    with eq have "percent_encode c @ x = percent_encode d @ y" by simp
    then have "percent_encode c = percent_encode d \<and> x = y"
      by (subst (asm) append_eq_append_conv) (simp_all add: percent_encode_def)
    then show ?thesis by (simp add: percent_encode_inj)
  qed (use eq in \<open>auto simp: percent_encode_def\<close>)
qed simp

lemma path_char_not_Nil [simp]: "path_char c \<noteq> []"
  using path_char_cases [of c] by (auto simp: percent_encode_def)

lemma PathEscape_inj [simp]: "PathEscape s = PathEscape t \<longleftrightarrow> s = t"
proof
  show "PathEscape s = PathEscape t \<Longrightarrow> s = t"
  proof (induction s arbitrary: t)
    case Nil
    then show ?case by (cases t) auto
  next
    case (Cons c s)
    then obtain d u where "t = d # u" by (cases t) auto
    with Cons show ?case by (auto simp: path_char_append)
  qed
qed simp

lemma hex_upper_not_slash: "n < 16 \<Longrightarrow> hex_upper n \<noteq> slash"
  by (auto simp: hex_upper_def byte_def simp flip: byte_eq)

lemma path_char_no_slash: "slash \<notin> set (path_char c)"
proof -
  have "byte c div 16 < 16" "byte c mod 16 < 16"
    using byte_lt [of c] by (simp_all add: less_mult_imp_div_less)
  then show ?thesis
    using path_char_cases [of c] hex_upper_not_slash [THEN not_sym] by (auto simp: percent_encode_def)
qed

lemma PathEscape_no_slash [simp]: "slash \<notin> set (PathEscape s)"
  by (induction s) (simp_all add: path_char_no_slash)

text \<open>Two escaped segments, with a slash after each, are told apart.\<close>

lemma segments_inj:
  "PathEscape a @ slash # r = PathEscape b @ slash # q \<longleftrightarrow> a = b \<and> r = q"
proof
  assume "PathEscape a @ slash # r = PathEscape b @ slash # q"
  then have "Cut slash (PathEscape a @ slash # r) = Cut slash (PathEscape b @ slash # q)" by simp
  then show "a = b \<and> r = q" by (simp add: Cut_append)
qed simp

section \<open>Requests that are not sent\<close>

text \<open>A URL that begins with a slash has no scheme.\<close>

lemma relative_no_scheme [simp]: "url_scheme (slash # p) = []"
  by (simp add: url_scheme_def ToLower_def lower_char_def byte_def)

lemma relative_not_sent:
  "aq_URL rq = slash # p \<Longrightarrow> \<exists>e. client_Do X timeout ctx rq = throw e"
  by (auto simp: client_Do_def split: option.splits)

end
