(* ===== verification/GitHubTransport.thy ===== *)
theory GitHubTransport
  imports Http
begin

text \<open>
  The lower half of \<open>internal/github/client.go\<close>: construction, pacing, rate limits, one
  request, bounded retry, and paging along the \<open>Link\<close> header. The mutable fields of the client
  are part of the state (\<open>github_net\<close>), next to the outside world.
\<close>

section \<open>The client\<close>

record 'w github_net =
  gn_limitsRemaining :: int
  gn_limitsResetAt :: time
  gn_paceLast :: time
  gn_world :: 'w

record 'w github_client =
  gc_net :: "'w internet"
  gc_baseURL :: string
  gc_uploadBase :: string
  gc_token :: string
  gc_timeout :: duration
  gc_Retry :: "'w github_net retry_policy"
  gc_throttleMaxWait :: duration
  gc_throttleLowMark :: int
  gc_paceInterval :: duration

definition gh_net :: "('w, 'a) call \<Rightarrow> ('w github_net, 'a) prog" where
  "gh_net f = (\<lambda>s. case f (gn_world s) of (r, w) \<Rightarrow> (r, s\<lparr>gn_world := w\<rparr>))"

definition gh_now :: "'w github_client \<Rightarrow> ('w github_net, time) prog" where
  "gh_now C = gh_net (\<lambda>w. case hx_now (gc_net C) w of (t, w') \<Rightarrow> (Inr t, w'))"

definition gh_sleep :: "'w internet \<Rightarrow> duration \<Rightarrow> ('w github_net, unit) prog" where
  "gh_sleep X d = gh_net (hx_Sleep X None d)"

definition defaultThrottleMaxWait :: duration where "defaultThrottleMaxWait = 15 * minute"
definition defaultThrottleLowMark :: int where "defaultThrottleLowMark = 10"

type_synonym 'w github_option = "'w github_client \<Rightarrow> 'w github_client"

definition gh_WithRetry :: "'w github_net retry_policy \<Rightarrow> 'w github_option" where
  "gh_WithRetry policy c = c\<lparr>gc_Retry := policy\<rparr>"

definition gh_WithThrottle :: "duration \<Rightarrow> int \<Rightarrow> 'w github_option" where
  "gh_WithThrottle maxWait lowRemaining c =
     (let c = (if maxWait > 0 then c\<lparr>gc_throttleMaxWait := maxWait\<rparr> else c)
      in if lowRemaining > 0 then c\<lparr>gc_throttleLowMark := lowRemaining\<rparr> else c)"

definition gh_WithPacing :: "duration \<Rightarrow> 'w github_option" where
  "gh_WithPacing interval c = c\<lparr>gc_paceInterval := interval\<rparr>"

definition uploadsBase :: "'w internet \<Rightarrow> string \<Rightarrow> parsed_url \<Rightarrow> string" where
  "uploadsBase X raw parsed =
     (if HasPrefix (u_Host parsed) ''api.''
      then hx_String X raw (''uploads.'' @ TrimPrefix (u_Host parsed) ''api.'')
      else hx_String X raw (u_Host parsed))"

definition gh_New ::
  "'w internet \<Rightarrow> string \<Rightarrow> string \<Rightarrow> duration \<Rightarrow> 'w github_option list \<Rightarrow> go_error + 'w github_client" where
  "gh_New X baseURL token timeout options =
     (let raw = TrimRight baseURL slash; invalid = Inl (Err (''invalid GitHub API URL '' @ Quote baseURL))
      in case hx_parse X raw of
           None \<Rightarrow> invalid
         | Some parsed \<Rightarrow>
             if u_Scheme parsed = [] \<or> u_Host parsed = [] then invalid
             else if token = [] then Inl (Err ''GitHub token is empty'')
             else if timeout \<le> 0 then Inl (Err ''GitHub timeout must be positive'')
             else (let client = foldl (\<lambda>c option. option c)
                     \<lparr>gc_net = X, gc_baseURL = hx_String X raw (u_Host parsed), gc_uploadBase = uploadsBase X raw parsed,
                      gc_token = token, gc_timeout = timeout, gc_Retry = DefaultRetryPolicy (gh_sleep X),
                      gc_throttleMaxWait = defaultThrottleMaxWait, gc_throttleLowMark = defaultThrottleLowMark,
                      gc_paceInterval = 0\<rparr> options
                   in case retry_Validate (gc_Retry client) of
                        Inl e \<Rightarrow> Inl (Wrap ''GitHub retry policy'' e)
                      | Inr _ \<Rightarrow> Inr client))"

section \<open>Pacing and rate limits\<close>

text \<open>The start of a request is reserved in \<open>gn_paceLast\<close> before the client waits for it.\<close>

definition gh_pace :: "'w github_client \<Rightarrow> ('w github_net, unit) prog" where
  "gh_pace C =
     (if gc_paceInterval C \<le> 0 then ret ()
      else bnd (gh_now C) (\<lambda>now s.
        let wait = i64 (gc_paceInterval C - time_Sub now (gn_paceLast s)) in
        if wait > 0 then gh_sleep (gc_net C) wait (s\<lparr>gn_paceLast := now + wait\<rparr>)
        else (Inr (), s\<lparr>gn_paceLast := now\<rparr>)))"

definition obeyRateLimit :: "'w github_client \<Rightarrow> ('w github_net, unit) prog" where
  "obeyRateLimit C = (\<lambda>s.
     let remaining = gn_limitsRemaining s; resetAt = gn_limitsResetAt s in
     bnd (gh_now C) (\<lambda>now.
       if remaining \<le> 0 \<or> remaining \<ge> gc_throttleLowMark C then ret ()
       else let wait = time_Sub resetAt now in
         if wait \<le> 0 \<or> gc_throttleMaxWait C \<le> 0 then ret ()
         else gh_sleep (gc_net C) (if wait > gc_throttleMaxWait C then gc_throttleMaxWait C else wait)) s)"

definition recordRateLimit :: "(string \<Rightarrow> string) \<Rightarrow> ('w github_net, unit) prog" where
  "recordRateLimit header = (\<lambda>s.
     case (ParseInt (header ''X-RateLimit-Remaining''), ParseInt (header ''X-RateLimit-Reset'')) of
       (Some remaining, Some reset) \<Rightarrow>
         (Inr (), s\<lparr>gn_limitsRemaining := remaining, gn_limitsResetAt := reset * second\<rparr>)
     | _ \<Rightarrow> (Inr (), s))"

definition rateLimited :: "(string \<Rightarrow> string) \<Rightarrow> bool" where
  "rateLimited header \<longleftrightarrow>
     (if ParseInt (header ''X-RateLimit-Remaining'') = Some 0 then True else header ''Retry-After'' \<noteq> [])"

text \<open>The second half, where the clock is read.\<close>

definition wait_until_reset :: "'w github_client \<Rightarrow> (string \<Rightarrow> string) \<Rightarrow> ('w github_net, duration) prog" where
  "wait_until_reset C header =
     (case ParseInt (header ''X-RateLimit-Reset'') of
        Some reset \<Rightarrow> bnd (gh_now C) (\<lambda>now.
          let wait = time_Sub (reset * second) now in ret (if wait > 0 then wait else minute))
      | None \<Rightarrow> ret minute)"

definition rateWaitFromHeaders :: "'w github_client \<Rightarrow> (string \<Rightarrow> string) \<Rightarrow> ('w github_net, duration) prog" where
  "rateWaitFromHeaders C header =
     (case ParseInt (header ''Retry-After'') of
        Some n \<Rightarrow> if n > 0 then ret (seconds n) else wait_until_reset C header
      | None \<Rightarrow> wait_until_reset C header)"

section \<open>Requests\<close>

definition gh_headers :: "'w github_client \<Rightarrow> string \<Rightarrow> (string \<times> string) list" where
  "gh_headers C accept = [(''Accept'', accept), (''Authorization'', ''Bearer '' @ gc_token C),
     (''X-GitHub-Api-Version'', ''2022-11-28'')]"

definition gh_request_of :: "'w github_client \<Rightarrow> string \<Rightarrow> string \<Rightarrow> string option \<Rightarrow> api_request" where
  "gh_request_of C method endpoint body =
     \<lparr>aq_Method = method, aq_URL = endpoint,
      aq_Header = gh_headers C ''application/vnd.github+json''
        @ (if body = None then [] else [(''Content-Type'', ''application/json'')]),
      aq_Body = body\<rparr>"

text \<open>The error for a reply outside 200--299.\<close>

definition gh_failure :: "'w github_client \<Rightarrow> string \<Rightarrow> string \<Rightarrow> api_reply \<Rightarrow> ('w github_net, github_api_error) prog" where
  "gh_failure C method endpoint r =
     (let e = \<lparr>gae_Method = method, gae_URL = endpoint, gae_StatusCode = ar_StatusCode r,
               gae_RequestID = ar_Header r ''X-GitHub-Request-Id'', gae_RetryAfter = 0, gae_rateLimited = False,
               gae_Body = fst (LimitReader 2048 r)\<rparr>
      in if ar_StatusCode r = 429 \<or> (ar_StatusCode r = 403 \<and> rateLimited (ar_Header r))
         then bnd (rateWaitFromHeaders C (ar_Header r)) (\<lambda>wait.
              ret (e\<lparr>gae_rateLimited := True, gae_RetryAfter := wait\<rparr>))
         else ret (e\<lparr>gae_RetryAfter := retryAfter (ar_Header r)\<rparr>))"

definition gh_request :: "'w github_client \<Rightarrow> string \<Rightarrow> string \<Rightarrow> string option \<Rightarrow> ('w github_net, api_reply) prog" where
  "gh_request C method endpoint body =
     bnd (gh_pace C) (\<lambda>_. bnd (obeyRateLimit C) (\<lambda>_.
     bnd (gh_net (client_Do (gc_net C) (gc_timeout C) None (gh_request_of C method endpoint body))) (\<lambda>r.
     bnd (recordRateLimit (ar_Header r)) (\<lambda>_.
     if \<not> success r then bnd (gh_failure C method endpoint r) (\<lambda>e. throw (GitHubAPI e))
     else ret r))))"

definition gh_Do :: "'w github_client \<Rightarrow> ('w github_net, 'a) prog \<Rightarrow> ('w github_net, 'a) prog" where
  "gh_Do C attempt = Do (\<lambda>s. hx_ctxErr (gc_net C) None (gn_world s)) (gc_Retry C) attempt"

definition gh_attempt :: "'w github_client \<Rightarrow> string \<Rightarrow> string \<Rightarrow> string option \<Rightarrow> ('w github_net, api_reply) prog" where
  "gh_attempt C method endpoint body = gh_Do C (gh_request C method endpoint body)"

definition gh_decode :: "'w github_client \<Rightarrow> 'a decoder \<Rightarrow> 'a \<Rightarrow> api_reply \<Rightarrow> ('w github_net, 'a) prog" where
  "gh_decode C d zero r = of_sum (decode_body (gc_net C) d zero r)"

text \<open>\<open>writeJSON\<close>: the last argument is what becomes of the reply (decoding into the destination,
  or nothing when that is nil).\<close>

definition gh_writeJSON ::
  "'w github_client \<Rightarrow> string \<Rightarrow> string \<Rightarrow> json \<Rightarrow> (api_reply \<Rightarrow> ('w github_net, 'a) prog) \<Rightarrow> ('w github_net, 'a) prog" where
  "gh_writeJSON C method endpoint payload destination =
     bnd (gh_attempt C method endpoint (Some (Marshal payload))) destination"

definition gh_discard :: "api_reply \<Rightarrow> ('w github_net, unit) prog" where
  "gh_discard r = ret ()"

section \<open>Paging\<close>

definition TrimSet :: "char set \<Rightarrow> string \<Rightarrow> string" where
  "TrimSet cs s = TrimIf (\<lambda>c. c \<in> cs) s"

definition link_target :: "string \<Rightarrow> string option" where
  "link_target link = (case Split (CHR '';'') link of
     url # rel # _ \<Rightarrow> if Contains rel (''rel='' @ [quote] @ ''next'' @ [quote])
                     then Some (TrimSet {CHR ''<'', CHR ''>''} (TrimSpace url)) else None
   | _ \<Rightarrow> None)"

fun first_link :: "string list \<Rightarrow> string" where
  "first_link [] = []"
| "first_link (l # ls) = (case link_target l of Some url \<Rightarrow> url | None \<Rightarrow> first_link ls)"

definition nextLink :: "string \<Rightarrow> string" where
  "nextLink header = first_link (Split comma header)"

text \<open>The loop of all listings: the pages from \<open>next\<close> on, at most \<open>n\<close> of them, with the status that
  \<open>getAll\<close> and \<open>listWebhooks\<close> report beside an error. \<open>wrap\<close> is what a listing adds to a decoding
  error, \<open>limit\<close> its name in the error for too many pages.\<close>

fun gh_pages ::
  "'w github_client \<Rightarrow> 'a decoder \<Rightarrow> 'a \<Rightarrow> (go_error \<Rightarrow> go_error) \<Rightarrow> string \<Rightarrow> nat \<Rightarrow> string \<Rightarrow> 'a list \<Rightarrow>
   ('w github_net, int \<times> (go_error + 'a list)) prog" where
  "gh_pages C d zero wrap limit n next acc =
     (if next = [] then ret (200, Inr acc)
      else case n of
        0 \<Rightarrow> ret (0, Inl (Err (limit @ '' pagination exceeded 1000 pages'')))
      | Suc m \<Rightarrow> tryE (gh_attempt C ''GET'' next None) (\<lambda>res. case res of
            Inl e \<Rightarrow> ret (case as_github e of Some a \<Rightarrow> gae_StatusCode a | None \<Rightarrow> 0, Inl e)
          | Inr r \<Rightarrow> (case decode_body (gc_net C) (dec_slice d zero) [] r of
                Inl e \<Rightarrow> ret (ar_StatusCode r, Inl (wrap e))
              | Inr batch \<Rightarrow> gh_pages C d zero wrap limit m (nextLink (ar_Header r ''Link'')) (acc @ batch))))"

declare gh_pages.simps [simp del]

definition gh_listing ::
  "'w github_client \<Rightarrow> 'a decoder \<Rightarrow> 'a \<Rightarrow> (go_error \<Rightarrow> go_error) \<Rightarrow> string \<Rightarrow> string \<Rightarrow> ('w github_net, 'a list) prog" where
  "gh_listing C d zero wrap limit endpoint =
     bnd (gh_pages C d zero wrap limit 1000 endpoint []) (\<lambda>(status, r). of_sum r)"

section \<open>Paging returns the pages\<close>

text \<open>The pages from an endpoint on, as a client meets them: each is fetched and decoded, and its
  \<open>Link\<close> header names the next.\<close>

fun page_chain :: "'w github_client \<Rightarrow> 'a decoder \<Rightarrow> 'a \<Rightarrow> string \<Rightarrow> 'a list list \<Rightarrow> 'w github_net \<Rightarrow> 'w github_net \<Rightarrow> bool" where
  "page_chain C d zero url [] s t \<longleftrightarrow> url = [] \<and> s = t"
| "page_chain C d zero url (b # bs) s t \<longleftrightarrow> url \<noteq> [] \<and>
     (case gh_attempt C ''GET'' url None s of
        (Inl e, u) \<Rightarrow> False
      | (Inr r, u) \<Rightarrow> decode_body (gc_net C) (dec_slice d zero) [] r = Inr b
          \<and> page_chain C d zero (nextLink (ar_Header r ''Link'')) bs u t)"

lemma gh_pages_chain:
  "gh_pages C d zero wrap limit n url acc s = (Inr (st, Inr xs), t)
   \<longleftrightarrow> st = 200 \<and> (\<exists>bs. length bs \<le> n \<and> page_chain C d zero url bs s t \<and> xs = acc @ concat bs)"
proof (induction n arbitrary: url acc s)
  case 0
  show ?case
    by (subst gh_pages.simps) (auto simp: ret_app)
next
  case (Suc m)
  show ?case
  proof (cases "url = []")
    case True
    have "page_chain C d zero [] bs s t \<longleftrightarrow> bs = [] \<and> s = t" for bs by (cases bs) auto
    with True show ?thesis by (subst gh_pages.simps) (auto simp: ret_app)
  next
    case False
    have len: "(\<exists>bs. length bs \<le> Suc m \<and> page_chain C d zero url bs s t \<and> xs = acc @ concat bs)
        \<longleftrightarrow> (\<exists>b bs. length bs \<le> m \<and> page_chain C d zero url (b # bs) s t \<and> xs = acc @ b @ concat bs)"
      (is "?L \<longleftrightarrow> ?R")
    proof
      assume ?L
      then obtain bs where bs: "length bs \<le> Suc m" "page_chain C d zero url bs s t" "xs = acc @ concat bs" by blast
      with False obtain b cs where "bs = b # cs" by (cases bs) auto
      with bs show ?R by (intro exI [of _ b] exI [of _ cs]) simp
    next
      assume ?R
      then obtain b bs where "length bs \<le> m" "page_chain C d zero url (b # bs) s t" "xs = acc @ b @ concat bs" by blast
      then show ?L by (intro exI [of _ "b # bs"]) simp
    qed
    show ?thesis
      unfolding len using False Suc.IH
      by (subst gh_pages.simps) (auto simp: ret_app tryE_app split: prod.splits sum.splits)
  qed
qed

lemma gh_listing_chain:
  "gh_listing C d zero wrap limit endpoint s = (Inr xs, t)
   \<longleftrightarrow> (\<exists>bs. length bs \<le> 1000 \<and> page_chain C d zero endpoint bs s t \<and> xs = concat bs)"
  using gh_pages_chain [of C d zero wrap limit 1000 endpoint "[]" s _ xs t]
  by (auto simp: gh_listing_def bnd_Inr of_sum_def)

section \<open>The Link header\<close>

definition render_link :: "string \<times> string \<Rightarrow> string" where
  "render_link l = ''<'' @ fst l @ ''>; rel='' @ [quote] @ snd l @ [quote]"

definition render_links :: "(string \<times> string) list \<Rightarrow> string" where
  "render_links ls = Join (map render_link ls) '', ''"

definition plain_text :: "string \<Rightarrow> bool" where
  "plain_text s \<longleftrightarrow> (\<forall>c \<in> set s. \<not> is_space c \<and> c \<notin> {comma, CHR '';'', CHR ''<'', CHR ''>'', quote})"

lemma plain_textD: "plain_text s \<Longrightarrow> c \<in> set s \<Longrightarrow> \<not> is_space c \<and> c \<noteq> comma \<and> c \<noteq> CHR '';'' \<and> c \<noteq> CHR ''<'' \<and> c \<noteq> CHR ''>'' \<and> c \<noteq> quote"
  by (auto simp: plain_text_def)

lemma plain_text_free: "plain_text s \<Longrightarrow> comma \<notin> set s" "plain_text s \<Longrightarrow> CHR '';'' \<notin> set s" "plain_text s \<Longrightarrow> quote \<notin> set s"
  by (auto dest: plain_textD)

text \<open>A quoted word contains another one only if they are the same.\<close>

lemma quoted_contains:
  assumes "quote \<notin> set x" and "quote \<notin> set y" and "quote \<notin> set p" and "quote \<notin> set q"
    and "Contains (p @ [quote] @ x @ [quote]) (q @ [quote] @ y @ [quote])"
  shows "x = y"
proof -
  obtain a b where eq: "p @ quote # x @ [quote] = a @ q @ quote # y @ quote # b"
    using assms(5) by (auto simp: Contains_iff)
  have "count_list (p @ quote # x @ [quote]) quote = count_list (a @ q @ quote # y @ quote # b) quote"
    using eq by simp
  with assms have ab: "quote \<notin> set a" by (auto simp: count_list_0_iff)
  from eq have "Cut quote (p @ quote # x @ [quote]) = Cut quote ((a @ q) @ quote # y @ quote # b)" by simp
  with assms ab have "x @ [quote] = y @ quote # b" by (simp only: Cut_append set_append Un_iff simp_thms prod.inject)
  then have "Cut quote (x @ quote # []) = Cut quote (y @ quote # b)" by simp
  then have "(x, [], True) = (y, b, True)"
    unfolding Cut_append [OF assms(1)] Cut_append [OF assms(2)] .
  then show ?thesis by simp
qed

lemma Contains_self: "Contains (a @ s @ b) s"
  by (auto simp: Contains_iff)

lemma is_space_values [simp]: "is_space (CHR '' '')" "\<not> is_space (CHR ''<'')" "\<not> is_space (CHR ''>'')"
  by (simp_all add: is_space_def)

lemma not_space: "\<not> is_space (CHR '';'')" "\<not> is_space comma"
  by (simp_all add: is_space_def)

lemma trim_link:
  assumes "plain_text u" and "\<forall>c \<in> set pre. is_space c"
  shows "TrimSet {CHR ''<'', CHR ''>''} (TrimSpace (pre @ ''<'' @ u @ ''>'')) = u"
proof -
  have "dropWhile is_space (pre @ ''<'' @ u @ ''>'') = ''<'' @ u @ ''>''"
    using assms(2) by (simp add: dropWhile_append)
  then have sp: "TrimSpace (pre @ ''<'' @ u @ ''>'') = ''<'' @ u @ ''>''"
    by (simp add: TrimSpace_def TrimIf_def TrimLeftIf_def TrimRightIf_def)
  show ?thesis
  proof (cases "u = []")
    case True
    then show ?thesis unfolding sp by (simp add: TrimSet_def TrimIf_def TrimLeftIf_def TrimRightIf_def)
  next
    case False
    have "hd u \<in> set u" "hd (rev u) \<in> set u" using False by (auto simp: hd_rev)
    then have ends: "hd u \<notin> {CHR ''<'', CHR ''>''}" "hd (rev u) \<notin> {CHR ''<'', CHR ''>''}"
      using plain_textD [OF assms(1)] by blast+
    obtain a v where a: "u = a # v" using False by (cases u) auto
    obtain b w where b: "rev u = b # w" using False by (cases "rev u") auto
    then have rev: "rev w @ [b] = u" by (metis rev.simps(2) rev_rev_ident)
    have left: "dropWhile (\<lambda>c. c \<in> {CHR ''<'', CHR ''>''}) (''<'' @ u @ ''>'') = u @ ''>''"
      using ends(1) a by simp
    have "dropWhile (\<lambda>c. c \<in> {CHR ''<'', CHR ''>''}) (rev (u @ ''>'')) = rev u"
      using ends(2) b by simp
    with left show ?thesis unfolding sp TrimSet_def TrimIf_def TrimLeftIf_def TrimRightIf_def by simp
  qed
qed

lemma link_target_rendered:
  assumes "plain_text (fst l)" and "plain_text (snd l)" and "\<forall>c \<in> set pre. is_space c"
  shows "link_target (pre @ render_link l) = (if snd l = ''next'' then Some (fst l) else None)"
proof -
  have pre: "CHR '';'' \<notin> set pre" using assms(3) not_space(1) by blast
  let ?rel = "'' rel='' @ [quote] @ snd l @ [quote]"
  have "Split (CHR '';'') ((pre @ ''<'' @ fst l @ ''>'') @ CHR '';'' # ?rel) = (pre @ ''<'' @ fst l @ ''>'') # Split (CHR '';'') ?rel"
    using pre plain_text_free(2) [OF assms(1)] by (intro Split_append) simp
  also have "Split (CHR '';'') ?rel = [?rel]"
    using plain_text_free(2) [OF assms(2)] by (intro Split_single) (simp add: quote_def)
  finally have split: "Split (CHR '';'') (pre @ render_link l) = [pre @ ''<'' @ fst l @ ''>'', ?rel]"
    by (simp add: render_link_def)
  have "Contains ?rel (''rel='' @ [quote] @ ''next'' @ [quote]) \<longleftrightarrow> snd l = ''next''"
  proof
    assume "Contains ?rel (''rel='' @ [quote] @ ''next'' @ [quote])"
    then show "snd l = ''next''"
      by (rule quoted_contains [rotated 4]) (use plain_text_free(3) [OF assms(2)] in \<open>simp_all add: quote_def\<close>)
  next
    assume "snd l = ''next''"
    then show "Contains ?rel (''rel='' @ [quote] @ ''next'' @ [quote])"
      using Contains_self [of "'' ''" "''rel='' @ [quote] @ ''next'' @ [quote]" "[]"] by simp
  qed
  with split trim_link [OF assms(1,3)] show ?thesis by (simp add: link_target_def)
qed

lemma first_link_rendered:
  "ls \<noteq> [] \<Longrightarrow> \<forall>l \<in> set ls. plain_text (fst l) \<and> plain_text (snd l) \<Longrightarrow> \<forall>c \<in> set pre. is_space c \<Longrightarrow>
   first_link (Split comma (pre @ render_links ls))
     = (case List.find (\<lambda>l. snd l = ''next'') ls of Some l \<Rightarrow> fst l | None \<Rightarrow> [])"
proof (induction ls arbitrary: pre)
  case (Cons l ls)
  have target: "link_target (pre @ render_link l) = (if snd l = ''next'' then Some (fst l) else None)"
    using Cons.prems by (intro link_target_rendered) auto
  have free: "comma \<notin> set (pre @ render_link l)"
    using Cons.prems(2,3) plain_text_free(1) [of "fst l"] plain_text_free(1) [of "snd l"] not_space(2)
    by (auto simp: render_link_def quote_def)
  show ?case
  proof (cases "ls = []")
    case True
    with target Split_single [OF free] show ?thesis by (simp add: render_links_def)
  next
    case False
    have "Split comma ((pre @ render_link l) @ comma # ('' '' @ render_links ls))
        = (pre @ render_link l) # Split comma ('' '' @ render_links ls)"
      by (rule Split_append [OF free])
    with False have "Split comma (pre @ render_links (l # ls)) = (pre @ render_link l) # Split comma ('' '' @ render_links ls)"
      by (simp add: render_links_def Join_Cons)
    with target False Cons.IH [of "'' ''"] Cons.prems show ?thesis by simp
  qed
qed simp

lemma nextLink_rendered:
  assumes "\<forall>l \<in> set ls. plain_text (fst l) \<and> plain_text (snd l)"
  shows "nextLink (render_links ls) = (case List.find (\<lambda>l. snd l = ''next'') ls of Some l \<Rightarrow> fst l | None \<Rightarrow> [])"
proof (cases "ls = []")
  case True
  then show ?thesis by (simp add: nextLink_def render_links_def link_target_def)
next
  case False
  with first_link_rendered [of ls "[]"] assms show ?thesis by (simp add: nextLink_def)
qed

section \<open>Pacing and waiting\<close>

lemma gh_net_app [prog_simps]: "gh_net f s = (case f (gn_world s) of (r, w) \<Rightarrow> (r, s\<lparr>gn_world := w\<rparr>))"
  by (simp add: gh_net_def)

lemma gh_now_app [prog_simps]:
  "gh_now C s = (case hx_now (gc_net C) (gn_world s) of (t, w) \<Rightarrow> (Inr t, s\<lparr>gn_world := w\<rparr>))"
  by (simp add: gh_now_def gh_net_app split: prod.splits)

lemma gh_sleep_app [prog_simps]:
  "gh_sleep X d s = (case hx_Sleep X None d (gn_world s) of (r, w) \<Rightarrow> (r, s\<lparr>gn_world := w\<rparr>))"
  by (simp add: gh_sleep_def gh_net_app)

text \<open>A clock: reading it gives the time and takes none, sleeping lasts at least as long as asked.\<close>

definition keeps_time :: "'w internet \<Rightarrow> ('w \<Rightarrow> time) \<Rightarrow> bool" where
  "keeps_time X clk \<longleftrightarrow> (\<forall>w. hx_now X w = (clk w, w))
     \<and> (\<forall>c d w w'. hx_Sleep X c d w = (Inr (), w') \<longrightarrow> clk w + d \<le> clk w')"

lemma pace_wait:
  assumes "0 < i" and "i < 2 ^ 62" and "l0 \<le> t0 + 2 ^ 62"
  shows "i64 (i - time_Sub t0 l0) > 0 \<longleftrightarrow> t0 < l0 + i"
    and "t0 < l0 + i \<Longrightarrow> i64 (i - time_Sub t0 l0) = l0 + i - t0"
proof -
  have sub: "time_Sub t0 l0 = min (2 ^ 63 - 1) (t0 - l0)"
    using assms by (simp add: time_Sub_def)
  have id: "i64 (i - time_Sub t0 l0) = i - time_Sub t0 l0"
    using assms unfolding sub by (intro i64_id) (auto simp: min_def)
  show "i64 (i - time_Sub t0 l0) > 0 \<longleftrightarrow> t0 < l0 + i"
    using id sub assms by (auto simp: min_def split: if_splits)
  show "t0 < l0 + i \<Longrightarrow> i64 (i - time_Sub t0 l0) = l0 + i - t0"
    using id sub assms by (auto simp: min_def split: if_splits)
qed

lemma pace_reserves:
  assumes clk: "keeps_time (gc_net C) clk" and i: "0 < gc_paceInterval C" "gc_paceInterval C < 2 ^ 62"
    and l: "gn_paceLast s \<le> clk (gn_world s) + 2 ^ 62"
    and run: "gh_pace C s = (Inr (), t)"
  shows "gn_paceLast t = max (clk (gn_world s)) (gn_paceLast s + gc_paceInterval C)
    \<and> gn_paceLast t \<le> clk (gn_world t)"
proof -
  have now: "hx_now (gc_net C) (gn_world s) = (clk (gn_world s), gn_world s)"
    and sleeps: "\<And>d w w'. hx_Sleep (gc_net C) None d w = (Inr (), w') \<Longrightarrow> clk w + d \<le> clk w'"
    using clk by (auto simp: keeps_time_def)
  note w = pace_wait [OF i l]
  show ?thesis
  proof (cases "clk (gn_world s) < gn_paceLast s + gc_paceInterval C")
    case True
    with run i now w have "gh_sleep (gc_net C) (gn_paceLast s + gc_paceInterval C - clk (gn_world s))
        (s\<lparr>gn_paceLast := gn_paceLast s + gc_paceInterval C\<rparr>) = (Inr (), t)"
      by (simp add: gh_pace_def bnd_app gh_now_app)
    with sleeps [of "gn_paceLast s + gc_paceInterval C - clk (gn_world s)" "gn_world s" "gn_world t"] True
    show ?thesis by (auto simp: gh_sleep_app split: prod.splits)
  next
    case False
    with run i now w(1) show ?thesis by (auto simp: gh_pace_def bnd_app gh_now_app Let_def)
  qed
qed

text \<open>A wait for the rate limit is never longer than the bound. The reverse of the intention: when
  the last reply said that nothing remains, there is no wait at all.\<close>

lemma obeyRateLimit_cases:
  "\<exists>m. obeyRateLimit C s = bnd (gh_now C) m s \<and>
     (\<forall>now. m now = ret () \<or> (\<exists>d. m now = gh_sleep (gc_net C) d \<and> 0 < d \<and> d \<le> gc_throttleMaxWait C))"
  unfolding obeyRateLimit_def Let_def
  by (rule exI, rule conjI, rule HOL.refl) (auto simp: not_le not_less)

lemma exhausted_not_obeyed:
  "gn_limitsRemaining s \<le> 0 \<Longrightarrow> obeyRateLimit C s = bnd (gh_now C) (\<lambda>_. ret ()) s"
  by (simp add: obeyRateLimit_def)

section \<open>Counting requests\<close>

definition costs :: "('s \<Rightarrow> nat) \<Rightarrow> nat \<Rightarrow> ('s, 'a) prog \<Rightarrow> bool" where
  "costs c k m \<longleftrightarrow> (\<forall>s. c (snd (m s)) \<le> c s + k)"

lemma costsD: "costs c k m \<Longrightarrow> m s = (r, t) \<Longrightarrow> c t \<le> c s + k"
  unfolding costs_def by (metis snd_conv)

lemma costs_mono: "costs c j m \<Longrightarrow> j \<le> k \<Longrightarrow> costs c k m"
  unfolding costs_def using add_left_mono order_trans by blast

lemma costs_ret: "costs c k (ret x)" "costs c k (throw e)" "costs c k (of_sum r)"
  by (simp_all add: costs_def ret_app throw_app of_sum_app)

lemma costs_bnd: "costs c j m \<Longrightarrow> (\<And>x. costs c k (f x)) \<Longrightarrow> costs c (j + k) (bnd m f)"
  unfolding costs_def bnd_app
  by (auto split: prod.splits sum.splits) (metis add.assoc add_le_mono1 le_trans snd_conv trans_le_add1)+

lemma costs_tryE: "costs c j m \<Longrightarrow> (\<And>x. costs c k (f x)) \<Longrightarrow> costs c (j + k) (tryE m f)"
  unfolding costs_def tryE_app
  by (auto split: prod.splits) (metis add.assoc add_le_mono1 le_trans snd_conv)

lemma costs_Do:
  assumes "costs c 1 attempt" and "\<And>d. costs c 0 (Sleep p d)" and "\<And>d s. c s \<le> c (snd (Sleep p d s))"
  shows "costs c (nat (MaxAttempts p)) (Do ctxErr p attempt)"
proof -
  have "int (c (snd (Do ctxErr p attempt s))) \<le> int (c s) + max 0 (MaxAttempts p)" for s
    using assms by (intro Do_attempts) (auto simp: costs_def intro: antisym)
  then show ?thesis by (simp add: costs_def) (smt (verit) int_nat_eq nat_int_comparison(3) of_nat_add)
qed

text \<open>A counter of the world that only a sent request raises, by one.\<close>

definition counts_requests :: "'w github_client \<Rightarrow> ('w \<Rightarrow> nat) \<Rightarrow> bool" where
  "counts_requests C c \<longleftrightarrow>
     (\<forall>w. c (snd (hx_now (gc_net C) w)) = c w) \<and> (\<forall>d w. c (snd (hx_Sleep (gc_net C) None d w)) = c w)
   \<and> (\<forall>d s. c (gn_world (snd (Sleep (gc_Retry C) d s))) = c (gn_world s))
   \<and> (\<forall>t x rq w. c (snd (hx_Do (gc_net C) t x rq w)) \<le> c w + 1)"

lemma gh_request_costs:
  assumes "counts_requests C c"
  shows "costs (\<lambda>s. c (gn_world s)) 1 (gh_request C method endpoint body)"
proof -
  let ?c = "\<lambda>s. c (gn_world s)"
  have now: "costs ?c 0 (gh_now C)" and sleep: "\<And>d. costs ?c 0 (gh_sleep (gc_net C) d)"
    using assms by (auto simp: counts_requests_def costs_def gh_now_app gh_sleep_app split: prod.splits) (metis order_refl snd_conv)+
  have pace: "costs ?c 0 (gh_pace C)"
    using now sleep unfolding gh_pace_def costs_def
    by (auto simp: ret_app bnd_app gh_now_app gh_sleep_app Let_def split: prod.splits)
      (metis (no_types, lifting) assms counts_requests_def order_refl snd_conv)+
  have limit: "costs ?c 0 (obeyRateLimit C)"
  proof -
    have "?c (snd (obeyRateLimit C s)) \<le> ?c s + 0" for s
    proof -
      obtain m where m: "obeyRateLimit C s = bnd (gh_now C) m s"
        and how: "\<forall>t. m t = ret () \<or> (\<exists>d. m t = gh_sleep (gc_net C) d \<and> 0 < d \<and> d \<le> gc_throttleMaxWait C)"
        using obeyRateLimit_cases [of C s] by blast
      have "costs ?c 0 (m t)" for t using how sleep costs_ret(1) by metis
      from costs_bnd [OF now this] m show ?thesis by (simp add: costs_def)
    qed
    then show ?thesis by (simp add: costs_def)
  qed
  have send: "costs ?c 1 (gh_net (client_Do (gc_net C) t x rq))" for t x rq
    using assms by (auto simp: counts_requests_def costs_def gh_net_app client_Do_def throw_app split: prod.splits option.splits)
      (metis snd_conv)+
  have rec: "costs ?c 0 (recordRateLimit h)" for h
    by (auto simp: recordRateLimit_def costs_def split: option.splits)
  have wait: "costs ?c 0 (wait_until_reset C h)" for h
    unfolding wait_until_reset_def
    by (auto simp: Let_def intro!: costs_ret costs_bnd [OF now, of 0, simplified] split: option.splits)
  have rate: "costs ?c 0 (rateWaitFromHeaders C h)" for h
    unfolding rateWaitFromHeaders_def by (auto intro!: costs_ret wait split: option.splits)
  have fail: "costs ?c 0 (gh_failure C method endpoint r)" for r
    unfolding gh_failure_def Let_def by (auto intro!: costs_ret costs_bnd [OF rate, of 0, simplified])
  have "costs ?c (0 + (0 + (1 + (0 + 0)))) (gh_request C method endpoint body)"
    unfolding gh_request_def
    by (intro costs_bnd pace limit send rec) (auto intro!: costs_ret costs_bnd [OF fail, of 0, simplified])
  then show ?thesis by simp
qed

lemma gh_attempt_costs:
  "counts_requests C c \<Longrightarrow> costs (\<lambda>s. c (gn_world s)) (nat (MaxAttempts (gc_Retry C))) (gh_attempt C method endpoint body)"
  unfolding gh_attempt_def gh_Do_def
  by (rule costs_Do [OF gh_request_costs]) (auto simp: counts_requests_def costs_def)

lemma gh_pages_costs:
  "counts_requests C c \<Longrightarrow>
   costs (\<lambda>s. c (gn_world s)) (n * nat (MaxAttempts (gc_Retry C))) (gh_pages C d zero wrap limit n url acc)"
proof (induction n arbitrary: url acc)
  case 0
  then show ?case by (subst gh_pages.simps) (simp add: costs_ret)
next
  case (Suc n)
  show ?case
  proof (cases "url = []")
    case False
    with Suc show ?thesis
      by (subst gh_pages.simps)
        (auto intro!: costs_tryE gh_attempt_costs costs_ret split: sum.splits)
  qed (subst gh_pages.simps, simp add: costs_ret)
qed

end
