(* ===== verification/GitHubClient.thy ===== *)
theory GitHubClient
  imports GitHubTransport Issues Comments PullRequests Releases Repositories Wiring
begin

text \<open>
  The operations of \<open>internal/github/client.go\<close>: listings, the objects that are created and
  updated, their wire formats and payloads, and the webhooks. At the end the client is plugged
  into the interfaces that the reconcilers use.
\<close>

section \<open>Endpoints\<close>

definition gh_repo :: "'w github_client \<Rightarrow> string \<Rightarrow> string \<Rightarrow> string \<Rightarrow> string" where
  "gh_repo C owner name rest =
     gc_baseURL C @ ''/repos/'' @ PathEscape owner @ ''/'' @ PathEscape name @ rest"

section \<open>Wire formats\<close>

text \<open>The structs that replies are decoded into, with their JSON names; a field of struct type
  with a single member is kept as that member.\<close>

record gh_issue =
  ghi_ID :: int
  ghi_Number :: int
  ghi_Title :: string
  ghi_Body :: string
  ghi_State :: string
  ghi_UpdatedAt :: time
  ghi_PullRequest :: bool
  ghi_Labels :: "string list"
  ghi_Milestone :: "string option"

definition gh_issue_zero :: gh_issue where
  "gh_issue_zero = \<lparr>ghi_ID = 0, ghi_Number = 0, ghi_Title = [], ghi_Body = [], ghi_State = [],
     ghi_UpdatedAt = time_zero, ghi_PullRequest = False, ghi_Labels = [], ghi_Milestone = None\<rparr>"

text \<open>A struct whose only member is a string.\<close>

definition dec_single :: "string \<Rightarrow> string decoder" where
  "dec_single name = dec_struct [member name dec_string id (\<lambda>f. f)]"

definition gh_issue_decoder :: "gh_issue decoder" where
  "gh_issue_decoder = dec_struct
     [member ''id'' dec_int ghi_ID ghi_ID_update, member ''number'' dec_int ghi_Number ghi_Number_update,
      member ''title'' dec_string ghi_Title ghi_Title_update, member ''body'' dec_string ghi_Body ghi_Body_update,
      member ''state'' dec_string ghi_State ghi_State_update, member ''updated_at'' dec_time ghi_UpdatedAt ghi_UpdatedAt_update,
      member ''pull_request'' dec_any ghi_PullRequest ghi_PullRequest_update,
      member ''labels'' (dec_slice (dec_single ''name'') []) ghi_Labels ghi_Labels_update,
      member ''milestone'' (dec_pointer (dec_single ''title'') []) ghi_Milestone ghi_Milestone_update]"

definition gh_issue_model :: "gh_issue \<Rightarrow> issue" where
  "gh_issue_model i = \<lparr>i_ID = ghi_ID i, i_Index = ghi_Number i, i_Title = ghi_Title i, i_Body = ghi_Body i,
     i_State = ghi_State i, i_Labels = ghi_Labels i,
     i_Milestone = (case ghi_Milestone i of Some title \<Rightarrow> title | None \<Rightarrow> []), i_UpdatedAt = ghi_UpdatedAt i\<rparr>"

record gh_pull =
  ghp_ID :: int
  ghp_Number :: int
  ghp_Title :: string
  ghp_Body :: string
  ghp_State :: string
  ghp_Draft :: bool
  ghp_Merged :: bool
  ghp_UpdatedAt :: time
  ghp_Head :: string
  ghp_Base :: string

definition gh_pull_zero :: gh_pull where
  "gh_pull_zero = \<lparr>ghp_ID = 0, ghp_Number = 0, ghp_Title = [], ghp_Body = [], ghp_State = [], ghp_Draft = False,
     ghp_Merged = False, ghp_UpdatedAt = time_zero, ghp_Head = [], ghp_Base = []\<rparr>"

definition gh_pull_decoder :: "gh_pull decoder" where
  "gh_pull_decoder = dec_struct
     [member ''id'' dec_int ghp_ID ghp_ID_update, member ''number'' dec_int ghp_Number ghp_Number_update,
      member ''title'' dec_string ghp_Title ghp_Title_update, member ''body'' dec_string ghp_Body ghp_Body_update,
      member ''state'' dec_string ghp_State ghp_State_update, member ''draft'' dec_bool ghp_Draft ghp_Draft_update,
      member ''merged'' dec_bool ghp_Merged ghp_Merged_update,
      member ''updated_at'' dec_time ghp_UpdatedAt ghp_UpdatedAt_update,
      member ''head'' (dec_single ''ref'') ghp_Head ghp_Head_update,
      member ''base'' (dec_single ''ref'') ghp_Base ghp_Base_update]"

definition gh_pull_model :: "gh_pull \<Rightarrow> pull_request" where
  "gh_pull_model p = \<lparr>p_ID = ghp_ID p, p_Index = ghp_Number p, p_Title = ghp_Title p, p_Body = ghp_Body p,
     p_State = ghp_State p, p_Head = ghp_Head p, p_Base = ghp_Base p, p_Draft = ghp_Draft p,
     p_Merged = ghp_Merged p, p_UpdatedAt = ghp_UpdatedAt p\<rparr>"

record gh_comment =
  ghc_ID :: int
  ghc_Body :: string
  ghc_UpdatedAt :: time

definition gh_comment_zero :: gh_comment where
  "gh_comment_zero = \<lparr>ghc_ID = 0, ghc_Body = [], ghc_UpdatedAt = time_zero\<rparr>"

definition gh_comment_decoder :: "gh_comment decoder" where
  "gh_comment_decoder = dec_struct
     [member ''id'' dec_int ghc_ID ghc_ID_update, member ''body'' dec_string ghc_Body ghc_Body_update,
      member ''updated_at'' dec_time ghc_UpdatedAt ghc_UpdatedAt_update]"

definition gh_comment_model :: "int \<Rightarrow> gh_comment \<Rightarrow> comment" where
  "gh_comment_model issueID c =
     \<lparr>c_ID = ghc_ID c, c_IssueID = issueID, c_Body = ghc_Body c, c_UpdatedAt = ghc_UpdatedAt c\<rparr>"

record gh_asset =
  gha_ID :: int
  gha_Name :: string
  gha_Size :: int

definition gh_asset_decoder :: "gh_asset decoder" where
  "gh_asset_decoder = dec_struct
     [member ''id'' dec_int gha_ID gha_ID_update, member ''name'' dec_string gha_Name gha_Name_update,
      member ''size'' dec_int gha_Size gha_Size_update]"

record gh_release =
  ghl_ID :: int
  ghl_TagName :: string
  ghl_Name :: string
  ghl_Body :: string
  ghl_Draft :: bool
  ghl_Prerelease :: bool
  ghl_CreatedAt :: time
  ghl_Assets :: "gh_asset list"

definition gh_release_zero :: gh_release where
  "gh_release_zero = \<lparr>ghl_ID = 0, ghl_TagName = [], ghl_Name = [], ghl_Body = [], ghl_Draft = False,
     ghl_Prerelease = False, ghl_CreatedAt = time_zero, ghl_Assets = []\<rparr>"

definition gh_release_decoder :: "gh_release decoder" where
  "gh_release_decoder = dec_struct
     [member ''id'' dec_int ghl_ID ghl_ID_update, member ''tag_name'' dec_string ghl_TagName ghl_TagName_update,
      member ''name'' dec_string ghl_Name ghl_Name_update, member ''body'' dec_string ghl_Body ghl_Body_update,
      member ''draft'' dec_bool ghl_Draft ghl_Draft_update,
      member ''prerelease'' dec_bool ghl_Prerelease ghl_Prerelease_update,
      member ''created_at'' dec_time ghl_CreatedAt ghl_CreatedAt_update,
      member ''assets'' (dec_slice gh_asset_decoder \<lparr>gha_ID = 0, gha_Name = [], gha_Size = 0\<rparr>) ghl_Assets ghl_Assets_update]"

definition gh_release_model :: "gh_release \<Rightarrow> release" where
  "gh_release_model r = \<lparr>l_ID = ghl_ID r, l_Tag = ghl_TagName r, l_Name = ghl_Name r, l_Body = ghl_Body r,
     l_Draft = ghl_Draft r, l_Prerelease = ghl_Prerelease r, l_CreatedAt = ghl_CreatedAt r,
     l_Assets = map (\<lambda>a. \<lparr>a_ID = gha_ID a, a_Name = gha_Name a, a_Size = gha_Size a\<rparr>) (ghl_Assets r)\<rparr>"

record gh_repository =
  ghr_ID :: int
  ghr_Name :: string
  ghr_FullName :: string
  ghr_CloneURL :: string
  ghr_DefaultBranch :: string
  ghr_Visibility :: string
  ghr_Private :: bool
  ghr_Archived :: bool
  ghr_SizeKB :: int
  ghr_UpdatedAt :: time
  ghr_Owner :: string

definition gh_repository_zero :: gh_repository where
  "gh_repository_zero = \<lparr>ghr_ID = 0, ghr_Name = [], ghr_FullName = [], ghr_CloneURL = [], ghr_DefaultBranch = [],
     ghr_Visibility = [], ghr_Private = False, ghr_Archived = False, ghr_SizeKB = 0, ghr_UpdatedAt = time_zero,
     ghr_Owner = []\<rparr>"

definition gh_repository_decoder :: "gh_repository decoder" where
  "gh_repository_decoder = dec_struct
     [member ''id'' dec_int ghr_ID ghr_ID_update, member ''name'' dec_string ghr_Name ghr_Name_update,
      member ''full_name'' dec_string ghr_FullName ghr_FullName_update,
      member ''clone_url'' dec_string ghr_CloneURL ghr_CloneURL_update,
      member ''default_branch'' dec_string ghr_DefaultBranch ghr_DefaultBranch_update,
      member ''visibility'' dec_string ghr_Visibility ghr_Visibility_update,
      member ''private'' dec_bool ghr_Private ghr_Private_update,
      member ''archived'' dec_bool ghr_Archived ghr_Archived_update,
      member ''size'' dec_int ghr_SizeKB ghr_SizeKB_update,
      member ''updated_at'' dec_time ghr_UpdatedAt ghr_UpdatedAt_update,
      member ''owner'' (dec_single ''login'') ghr_Owner ghr_Owner_update]"

definition owner_or_prefix :: "string \<Rightarrow> string \<Rightarrow> string" where
  "owner_or_prefix owner fullName = (if owner = [] then fst (Cut slash fullName) else owner)"

definition gh_repository_model :: "gh_repository \<Rightarrow> repository" where
  "gh_repository_model r =
     \<lparr>r_ID = ghr_ID r, r_Owner = owner_or_prefix (ghr_Owner r) (ghr_FullName r), r_Name = ghr_Name r,
      r_FullName = ghr_FullName r, r_CloneURL = ghr_CloneURL r, r_DefaultBranch = ghr_DefaultBranch r,
      r_Visibility = (if ghr_Visibility r = visibility_text VisibilityPublic \<and> \<not> ghr_Private r then VisibilityPublic
        else if ghr_Visibility r = visibility_text VisibilityInternal then VisibilityInternal else VisibilityPrivate),
      r_Archived = ghr_Archived r, r_SizeKB = ghr_SizeKB r, r_UpdatedAt = ghr_UpdatedAt r\<rparr>"

section \<open>Repositories\<close>

definition gh_getAll :: "'w github_client \<Rightarrow> string \<Rightarrow> ('w github_net, int \<times> (go_error + gh_repository list)) prog" where
  "gh_getAll C path = gh_pages C gh_repository_decoder gh_repository_zero (Wrap ''decode GitHub repositories'')
     ''GitHub'' 1000 (gc_baseURL C @ path) []"

definition gh_ListRepositories :: "'w github_client \<Rightarrow> string \<Rightarrow> ('w github_net, repository list) prog" where
  "gh_ListRepositories C namespace =
     (if namespace = [] then throw (Err ''GitHub namespace is empty'')
      else
        bnd (gh_getAll C (''/orgs/'' @ PathEscape namespace @ ''/repos?per_page=100&type=all&page=1'')) (\<lambda>(status, r).
        bnd (case r of
               Inl e \<Rightarrow> if status = 404
                   then bnd (gh_getAll C (''/users/'' @ PathEscape namespace @ ''/repos?per_page=100&type=all&page=1''))
                          (\<lambda>(_, r). ret r)
                   else ret r
             | Inr _ \<Rightarrow> ret r) (\<lambda>r.
        bnd (wrapE (''list GitHub repositories for '' @ namespace) (of_sum r)) (\<lambda>repos.
        ret (map gh_repository_model repos)))))"

section \<open>Issues\<close>

definition gh_ListIssues :: "'w github_client \<Rightarrow> string \<Rightarrow> string \<Rightarrow> ('w github_net, issue list) prog" where
  "gh_ListIssues C owner name =
     bnd (gh_listing C gh_issue_decoder gh_issue_zero (Wrap ''decode GitHub issues'') ''GitHub issue''
       (gh_repo C owner name ''/issues?state=all&per_page=100&page=1'')) (\<lambda>items.
     ret (map gh_issue_model (filter (\<lambda>i. \<not> ghi_PullRequest i) items)))"

definition gh_ensureLabels :: "'w github_client \<Rightarrow> string \<Rightarrow> string \<Rightarrow> string list \<Rightarrow> ('w github_net, string list) prog" where
  "gh_ensureLabels C owner name names =
     (let root = gh_repo C owner name ''/labels'' in
      bnd (gh_attempt C ''GET'' (root @ ''?per_page=100&page=1'') None) (\<lambda>r.
      bnd (gh_decode C (dec_slice (dec_single ''name'') []) [] r) (\<lambda>existing.
      bnd (foldE (\<lambda>label present.
             if label \<in> set present then ret present
             else bnd (gh_writeJSON C ''POST'' root (json_map [(''name'', JStr label), (''color'', JStr ''ededed'')])
                    (gh_decode C (dec_single ''name'') [])) (\<lambda>_. ret (label # present)))
           names existing) (\<lambda>_.
      ret names))))"

text \<open>A milestone as \<open>(number, title)\<close>.\<close>

definition gh_milestone_decoder :: "(int \<times> string) decoder" where
  "gh_milestone_decoder = dec_struct
     [member ''number'' dec_int fst apfst, member ''title'' dec_string snd apsnd]"

definition gh_ensureMilestone :: "'w github_client \<Rightarrow> string \<Rightarrow> string \<Rightarrow> string \<Rightarrow> ('w github_net, int) prog" where
  "gh_ensureMilestone C owner name title =
     bnd (gh_attempt C ''GET'' (gh_repo C owner name ''/milestones?state=all&per_page=100'') None) (\<lambda>r.
     bnd (gh_decode C (dec_slice gh_milestone_decoder (0, [])) [] r) (\<lambda>milestones.
     case List.find (\<lambda>m. snd m = title) milestones of
       Some m \<Rightarrow> ret (fst m)
     | None \<Rightarrow> gh_writeJSON C ''POST'' (gh_repo C owner name ''/milestones'') (json_map [(''title'', JStr title)])
                 (gh_decode C (dec_struct [member ''number'' dec_int id (\<lambda>f. f)]) 0)))"

definition gh_issuePayload :: "'w github_client \<Rightarrow> string \<Rightarrow> string \<Rightarrow> issue \<Rightarrow> ('w github_net, json) prog" where
  "gh_issuePayload C owner name source =
     (if i_Title source = [] \<or> (i_State source \<noteq> ''open'' \<and> i_State source \<noteq> ''closed'')
      then throw (Err ''issue title or state is invalid'')
      else
        bnd (gh_ensureLabels C owner name (i_Labels source)) (\<lambda>labels.
        bnd (if i_Milestone source \<noteq> []
             then bnd (gh_ensureMilestone C owner name (i_Milestone source)) (\<lambda>number. ret (json_int number))
             else ret JNull) (\<lambda>milestone.
        ret (json_map [(''title'', JStr (i_Title source)), (''body'', JStr (i_Body source)),
          (''state'', JStr (i_State source)), (''labels'', JArr (map JStr labels)), (''milestone'', milestone)]))))"

definition gh_write_issue ::
  "'w github_client \<Rightarrow> string \<Rightarrow> string \<Rightarrow> issue \<Rightarrow> string \<Rightarrow> string \<Rightarrow> ('w github_net, issue) prog" where
  "gh_write_issue C owner name source method endpoint =
     bnd (gh_issuePayload C owner name source) (\<lambda>payload.
     bnd (gh_writeJSON C method endpoint payload (gh_decode C gh_issue_decoder gh_issue_zero)) (\<lambda>i.
     ret (gh_issue_model i)))"

definition gh_CreateIssue :: "'w github_client \<Rightarrow> string \<Rightarrow> string \<Rightarrow> issue \<Rightarrow> ('w github_net, issue) prog" where
  "gh_CreateIssue C owner name source =
     gh_write_issue C owner name source ''POST'' (gh_repo C owner name ''/issues'')"

definition gh_UpdateIssue :: "'w github_client \<Rightarrow> string \<Rightarrow> string \<Rightarrow> int \<Rightarrow> issue \<Rightarrow> ('w github_net, issue) prog" where
  "gh_UpdateIssue C owner name index source =
     gh_write_issue C owner name source ''PATCH'' (gh_repo C owner name (''/issues/'' @ FormatInt index))"

section \<open>Pull requests\<close>

definition gh_ListPullRequests :: "'w github_client \<Rightarrow> string \<Rightarrow> string \<Rightarrow> ('w github_net, pull_request list) prog" where
  "gh_ListPullRequests C owner name =
     bnd (gh_listing C gh_pull_decoder gh_pull_zero (Wrap ''decode GitHub pull requests'') ''GitHub pull request''
       (gh_repo C owner name ''/pulls?state=all&per_page=100&page=1'')) (\<lambda>items. ret (map gh_pull_model items))"

definition pull_source_invalid :: "pull_request \<Rightarrow> bool" where
  "pull_source_invalid p \<longleftrightarrow> p_Title p = [] \<or> (p_State p \<noteq> ''open'' \<and> p_State p \<noteq> ''closed'')
     \<or> p_Head p = [] \<or> p_Base p = []"

definition gh_pullRequestPayload :: "pull_request \<Rightarrow> bool \<Rightarrow> go_error + json" where
  "gh_pullRequestPayload source create =
     (if pull_source_invalid source
      then Inl (Err ''pull request title, state, head, or base is invalid'')
      else Inr (json_map ([(''title'', JStr (p_Title source)), (''body'', JStr (p_Body source))]
        @ (if create then [(''head'', JStr (p_Head source)), (''base'', JStr (p_Base source)),
             (''draft'', JBool (p_Draft source))]
           else [(''state'', JStr (p_State source))]))))"

definition gh_CreatePullRequest :: "'w github_client \<Rightarrow> string \<Rightarrow> string \<Rightarrow> pull_request \<Rightarrow> ('w github_net, pull_request) prog" where
  "gh_CreatePullRequest C owner name source =
     bnd (of_sum (gh_pullRequestPayload source True)) (\<lambda>payload.
     tryE (gh_writeJSON C ''POST'' (gh_repo C owner name ''/pulls'') payload (gh_decode C gh_pull_decoder gh_pull_zero)) (\<lambda>res.
     case res of
       Inr created \<Rightarrow> ret (gh_pull_model created)
     | Inl e \<Rightarrow> throw (case as_github e of
           Some a \<Rightarrow> if gae_StatusCode a = 422
             then (if Contains (gae_Body a) ''A pull request already exists for'' then ErrPullRequestExists else ErrNoCommits)
             else e
         | None \<Rightarrow> e)))"

definition gh_FindPullRequestByHead ::
  "'w github_client \<Rightarrow> string \<Rightarrow> string \<Rightarrow> string \<Rightarrow> ('w github_net, pull_request option) prog" where
  "gh_FindPullRequestByHead C owner name headRef =
     bnd (gh_attempt C ''GET'' (gh_repo C owner name (''/pulls?state=all&head='' @ QueryEscape (owner @ '':'' @ headRef))) None) (\<lambda>r.
     bnd (wrapE ''decode GitHub pull requests by head'' (gh_decode C (dec_slice gh_pull_decoder gh_pull_zero) [] r)) (\<lambda>batch.
     ret (case batch of [] \<Rightarrow> None | p # _ \<Rightarrow> Some (gh_pull_model p))))"

definition gh_UpdatePullRequest ::
  "'w github_client \<Rightarrow> string \<Rightarrow> string \<Rightarrow> int \<Rightarrow> pull_request \<Rightarrow> ('w github_net, pull_request) prog" where
  "gh_UpdatePullRequest C owner name number source =
     bnd (of_sum (gh_pullRequestPayload source False)) (\<lambda>payload.
     tryE (gh_writeJSON C ''PATCH'' (gh_repo C owner name (''/pulls/'' @ FormatInt number)) payload
       (gh_decode C gh_pull_decoder gh_pull_zero)) (\<lambda>res.
     case res of
       Inr updated \<Rightarrow> ret (gh_pull_model updated)
     | Inl e \<Rightarrow> throw (case as_github e of
           Some a \<Rightarrow> if gae_StatusCode a = 422 \<and> Contains (gae_Body a) ''cannot be reopened''
             then Wrap (''pull request '' @ FormatInt number) ErrCannotReopen else e
         | None \<Rightarrow> e)))"

section \<open>Comments\<close>

definition gh_ListComments :: "'w github_client \<Rightarrow> string \<Rightarrow> string \<Rightarrow> int \<Rightarrow> ('w github_net, comment list) prog" where
  "gh_ListComments C owner name issueIndex =
     bnd (gh_listing C gh_comment_decoder gh_comment_zero (\<lambda>e. e) ''GitHub comment''
       (gh_repo C owner name (''/issues/'' @ FormatInt issueIndex @ ''/comments?per_page=100&page=1''))) (\<lambda>items.
     ret (map (gh_comment_model issueIndex) items))"

definition comment_payload :: "comment \<Rightarrow> json" where
  "comment_payload c = json_map [(''body'', JStr (c_Body c))]"

definition gh_CreateComment :: "'w github_client \<Rightarrow> string \<Rightarrow> string \<Rightarrow> int \<Rightarrow> comment \<Rightarrow> ('w github_net, comment) prog" where
  "gh_CreateComment C owner name issueIndex source =
     bnd (gh_writeJSON C ''POST'' (gh_repo C owner name (''/issues/'' @ FormatInt issueIndex @ ''/comments''))
       (comment_payload source) (gh_decode C gh_comment_decoder gh_comment_zero)) (\<lambda>c.
     ret (gh_comment_model issueIndex c))"

definition gh_UpdateComment :: "'w github_client \<Rightarrow> string \<Rightarrow> string \<Rightarrow> int \<Rightarrow> comment \<Rightarrow> ('w github_net, comment) prog" where
  "gh_UpdateComment C owner name commentID source =
     bnd (gh_writeJSON C ''PATCH'' (gh_repo C owner name (''/issues/comments/'' @ FormatInt commentID))
       (comment_payload source) (gh_decode C gh_comment_decoder gh_comment_zero)) (\<lambda>c.
     ret (gh_comment_model (c_IssueID source) c))"

section \<open>Releases and their assets\<close>

definition gh_ListReleases :: "'w github_client \<Rightarrow> string \<Rightarrow> string \<Rightarrow> ('w github_net, release list) prog" where
  "gh_ListReleases C owner name =
     bnd (gh_listing C gh_release_decoder gh_release_zero (Wrap ''decode GitHub releases'') ''GitHub release''
       (gh_repo C owner name ''/releases?per_page=100&page=1'')) (\<lambda>items. ret (map gh_release_model items))"

definition gh_releasePayload :: "release \<Rightarrow> json" where
  "gh_releasePayload r = json_map [(''tag_name'', JStr (l_Tag r)), (''name'', JStr (l_Name r)), (''body'', JStr (l_Body r)),
     (''draft'', JBool (l_Draft r)), (''prerelease'', JBool (l_Prerelease r)), (''make_latest'', JStr ''legacy'')]"

definition gh_CreateRelease :: "'w github_client \<Rightarrow> string \<Rightarrow> string \<Rightarrow> release \<Rightarrow> ('w github_net, release) prog" where
  "gh_CreateRelease C owner name source =
     bnd (gh_writeJSON C ''POST'' (gh_repo C owner name ''/releases'') (gh_releasePayload source)
       (gh_decode C gh_release_decoder gh_release_zero)) (\<lambda>r. ret (gh_release_model r))"

definition gh_UpdateRelease :: "'w github_client \<Rightarrow> string \<Rightarrow> string \<Rightarrow> int \<Rightarrow> release \<Rightarrow> ('w github_net, release) prog" where
  "gh_UpdateRelease C owner name i source =
     bnd (gh_writeJSON C ''PATCH'' (gh_repo C owner name (''/releases/'' @ FormatInt i)) (gh_releasePayload source)
       (gh_decode C gh_release_decoder gh_release_zero)) (\<lambda>r. ret (gh_release_model r))"

text \<open>The two asset transfers do not go through \<open>request\<close>: neither pacing nor rate limits apply.\<close>

definition gh_asset_failure :: "string \<Rightarrow> string \<Rightarrow> api_reply \<Rightarrow> go_error" where
  "gh_asset_failure method endpoint r = GitHubAPI
     \<lparr>gae_Method = method, gae_URL = endpoint, gae_StatusCode = ar_StatusCode r,
      gae_RequestID = ar_Header r ''X-GitHub-Request-Id'', gae_RetryAfter = retryAfter (ar_Header r),
      gae_rateLimited = False, gae_Body = []\<rparr>"

definition gh_DownloadReleaseAsset ::
  "'w github_client \<Rightarrow> string \<Rightarrow> string \<Rightarrow> int \<Rightarrow> int \<Rightarrow> ('w github_net, string) prog" where
  "gh_DownloadReleaseAsset C owner name releaseID assetID =
     (let endpoint = gh_repo C owner name (''/releases/assets/'' @ FormatInt assetID) in
      gh_Do C (bnd (gh_net (client_Do (gc_net C) (gc_timeout C) None
          \<lparr>aq_Method = ''GET'', aq_URL = endpoint, aq_Header = gh_headers C ''application/octet-stream'', aq_Body = None\<rparr>)) (\<lambda>r.
        if \<not> success r then throw (gh_asset_failure ''GET'' endpoint r)
        else of_sum (ReadAll (LimitReader maxResponseBody r)))))"

definition gh_UploadReleaseAsset ::
  "'w github_client \<Rightarrow> string \<Rightarrow> string \<Rightarrow> int \<Rightarrow> string \<Rightarrow> string \<Rightarrow> ('w github_net, unit) prog" where
  "gh_UploadReleaseAsset C owner name releaseID assetName content =
     (let endpoint = gc_uploadBase C @ ''/repos/'' @ PathEscape owner @ ''/'' @ PathEscape name @ ''/releases/''
            @ FormatInt releaseID @ ''/assets?name='' @ QueryEscape assetName in
      gh_Do C (bnd (gh_net (client_Do (gc_net C) (gc_timeout C) None
          \<lparr>aq_Method = ''POST'', aq_URL = endpoint,
           aq_Header = gh_headers C ''application/vnd.github+json'' @ [(''Content-Type'', ''application/octet-stream'')],
           aq_Body = Some content\<rparr>)) (\<lambda>r.
        if \<not> success r then throw (gh_asset_failure ''POST'' endpoint r) else ret ())))"

section \<open>Webhooks\<close>

record gh_webhook =
  ghw_ID :: int
  ghw_Active :: bool
  ghw_Events :: "string list"
  ghw_URL :: string

definition gh_webhook_zero :: gh_webhook where
  "gh_webhook_zero = \<lparr>ghw_ID = 0, ghw_Active = False, ghw_Events = [], ghw_URL = []\<rparr>"

text \<open>Of the hook's configuration only the URL is used; the other members must be strings.\<close>

definition hook_config_decoder :: "string decoder" where
  "hook_config_decoder = dec_struct
     [member ''url'' dec_string id (\<lambda>f. f), member ''content_type'' dec_string (\<lambda>_. []) (\<lambda>_ r. r),
      member ''secret'' dec_string (\<lambda>_. []) (\<lambda>_ r. r)]"

definition gh_webhook_decoder :: "gh_webhook decoder" where
  "gh_webhook_decoder = dec_struct
     [member ''id'' dec_int ghw_ID ghw_ID_update, member ''active'' dec_bool ghw_Active ghw_Active_update,
      member ''events'' (dec_slice dec_string []) ghw_Events ghw_Events_update,
      member ''config'' hook_config_decoder ghw_URL ghw_URL_update]"

definition gh_webhook_model :: "gh_webhook \<Rightarrow> hook" where
  "gh_webhook_model w = \<lparr>wh_ID = ghw_ID w, wh_URL = ghw_URL w, wh_Events = ghw_Events w, wh_Active = ghw_Active w\<rparr>"

definition gh_listWebhooks :: "'w github_client \<Rightarrow> string \<Rightarrow> ('w github_net, int \<times> (go_error + hook list)) prog" where
  "gh_listWebhooks C path =
     bnd (gh_pages C gh_webhook_decoder gh_webhook_zero (Wrap ''decode GitHub webhooks'') ''GitHub webhook'' 1000
       (gc_baseURL C @ path) []) (\<lambda>(status, r). ret (status, map_sum id (map gh_webhook_model) r))"

definition gh_ListOrgWebhooks :: "'w github_client \<Rightarrow> string \<Rightarrow> ('w github_net, hook list option) prog" where
  "gh_ListOrgWebhooks C org =
     bnd (gh_listWebhooks C (''/orgs/'' @ PathEscape org @ ''/hooks'')) (\<lambda>(status, r).
     bnd (of_sum r) (\<lambda>hooks. ret (if status \<noteq> 404 then Some hooks else None)))"

definition gh_ListRepoWebhooks :: "'w github_client \<Rightarrow> string \<Rightarrow> string \<Rightarrow> ('w github_net, hook list) prog" where
  "gh_ListRepoWebhooks C owner name =
     bnd (gh_listWebhooks C (''/repos/'' @ PathEscape owner @ ''/'' @ PathEscape name @ ''/hooks'')) (\<lambda>(status, r).
     bnd (of_sum r) (\<lambda>hooks.
     if status = 404 then throw (Err (''list GitHub webhooks for '' @ owner @ ''/'' @ name @ '': repository not found''))
     else ret hooks))"

text \<open>A struct with \<open>omitempty\<close> on the secret, and a slice of events (a nil slice is null).\<close>

definition hook_config_json :: "hook \<Rightarrow> string \<Rightarrow> json" where
  "hook_config_json hook secret = JObj ([(''url'', JStr (wh_URL hook)), (''content_type'', JStr ''json'')]
     @ (if secret = [] then [] else [(''secret'', JStr secret)]))"

definition hook_events_json :: "hook \<Rightarrow> json" where
  "hook_events_json hook = (if wh_Events hook = [] then JNull else JArr (map JStr (wh_Events hook)))"

definition githubWebhookCreate :: "hook \<Rightarrow> string \<Rightarrow> json" where
  "githubWebhookCreate hook secret = JObj [(''name'', JStr ''web''), (''active'', JBool (wh_Active hook)),
     (''events'', hook_events_json hook), (''config'', hook_config_json hook secret)]"

definition githubWebhookUpdate :: "hook \<Rightarrow> string \<Rightarrow> json" where
  "githubWebhookUpdate hook secret = JObj [(''active'', JBool (wh_Active hook)),
     (''events'', hook_events_json hook), (''config'', hook_config_json hook secret)]"

text \<open>The four endpoints lack the base URL, as in the code.\<close>

definition gh_CreateOrgWebhook :: "'w github_client \<Rightarrow> string \<Rightarrow> hook \<Rightarrow> string \<Rightarrow> ('w github_net, unit) prog" where
  "gh_CreateOrgWebhook C org hook secret =
     gh_writeJSON C ''POST'' (''/orgs/'' @ PathEscape org @ ''/hooks'') (githubWebhookCreate hook secret) gh_discard"

definition gh_UpdateOrgWebhook :: "'w github_client \<Rightarrow> string \<Rightarrow> int \<Rightarrow> hook \<Rightarrow> string \<Rightarrow> ('w github_net, unit) prog" where
  "gh_UpdateOrgWebhook C org i hook secret =
     gh_writeJSON C ''PATCH'' (''/orgs/'' @ PathEscape org @ ''/hooks/'' @ FormatInt i) (githubWebhookUpdate hook secret) gh_discard"

definition gh_CreateRepoWebhook :: "'w github_client \<Rightarrow> string \<Rightarrow> string \<Rightarrow> hook \<Rightarrow> string \<Rightarrow> ('w github_net, unit) prog" where
  "gh_CreateRepoWebhook C owner name hook secret =
     gh_writeJSON C ''POST'' (''/repos/'' @ PathEscape owner @ ''/'' @ PathEscape name @ ''/hooks'')
       (githubWebhookCreate hook secret) gh_discard"

definition gh_UpdateRepoWebhook ::
  "'w github_client \<Rightarrow> string \<Rightarrow> string \<Rightarrow> int \<Rightarrow> hook \<Rightarrow> string \<Rightarrow> ('w github_net, unit) prog" where
  "gh_UpdateRepoWebhook C owner name i hook secret =
     gh_writeJSON C ''PATCH'' (''/repos/'' @ PathEscape owner @ ''/'' @ PathEscape name @ ''/hooks/'' @ FormatInt i)
       (githubWebhookUpdate hook secret) gh_discard"

section \<open>The client behind the interfaces of the reconcilers\<close>

definition gh_issue_forge :: "'w github_client \<Rightarrow> 'w github_net issue_forge" where
  "gh_issue_forge C = \<lparr>ListIssues = gh_ListIssues C, CreateIssue = gh_CreateIssue C, UpdateIssue = gh_UpdateIssue C\<rparr>"

definition gh_pull_forge :: "'w github_client \<Rightarrow> 'w github_net pull_forge" where
  "gh_pull_forge C = \<lparr>ListPullRequests = gh_ListPullRequests C, FindPullRequestByHead = gh_FindPullRequestByHead C,
     CreatePullRequest = gh_CreatePullRequest C, UpdatePullRequest = gh_UpdatePullRequest C\<rparr>"

definition gh_comment_forge :: "'w github_client \<Rightarrow> 'w github_net comment_forge" where
  "gh_comment_forge C = \<lparr>ListComments = gh_ListComments C, CreateComment = gh_CreateComment C, UpdateComment = gh_UpdateComment C\<rparr>"

definition gh_release_forge :: "'w github_client \<Rightarrow> 'w github_net release_forge" where
  "gh_release_forge C = \<lparr>ListReleases = gh_ListReleases C, CreateRelease = gh_CreateRelease C, UpdateRelease = gh_UpdateRelease C,
     DownloadReleaseAsset = gh_DownloadReleaseAsset C, UploadReleaseAsset = gh_UploadReleaseAsset C\<rparr>"

definition gh_discovery :: "'w github_client \<Rightarrow> 'w github_net discovery_github" where
  "gh_discovery C = \<lparr>dg_ListRepositories = gh_ListRepositories C\<rparr>"

definition gh_wire_forge :: "'w github_client \<Rightarrow> 'w github_net wire_forge" where
  "gh_wire_forge C = \<lparr>ListOrgWebhooks = gh_ListOrgWebhooks C, CreateOrgWebhook = gh_CreateOrgWebhook C,
     UpdateOrgWebhook = gh_UpdateOrgWebhook C, ListRepoWebhooks = gh_ListRepoWebhooks C,
     CreateRepoWebhook = gh_CreateRepoWebhook C, UpdateRepoWebhook = gh_UpdateRepoWebhook C,
     wf_ListRepositories = gh_ListRepositories C\<rparr>"

section \<open>Reading back what was written\<close>

lemma EqualFold_length: "length s \<noteq> length t \<Longrightarrow> \<not> EqualFold s t"
  unfolding EqualFold_def ToLower_def by (metis length_map)

lemma decode_body_Marshal:
  assumes "json_ok v" and "int (length (Marshal v)) < maxResponseBody" and "ar_Body r = Marshal v"
  shows "decode_body X d zero r = (case d v zero of Some x \<Rightarrow> Inr x | None \<Rightarrow> Inl (Err (hx_jsonErr X (Marshal v))))"
  using assms read_Marshal [OF assms(1), of "[]"] by (simp add: decode_body_def LimitReader_def)

lemma dec_struct_object [simp]: "dec_struct fds (JObj kvs) r = dec_members fds kvs r"
  by (simp add: dec_struct_def)

lemma gh_releasePayload_sorted:
  "gh_releasePayload r = JObj [(''body'', JStr (l_Body r)), (''draft'', JBool (l_Draft r)),
     (''make_latest'', JStr ''legacy''), (''name'', JStr (l_Name r)), (''prerelease'', JBool (l_Prerelease r)),
     (''tag_name'', JStr (l_Tag r))]"
  by (simp add: gh_releasePayload_def json_map_def less_eq_char_def less_char_def)

lemma gh_release_decodes:
  "gh_release_decoder (gh_releasePayload r) gh_release_zero = Some (gh_release_zero\<lparr>ghl_Body := l_Body r,
     ghl_Draft := l_Draft r, ghl_Name := l_Name r, ghl_Prerelease := l_Prerelease r, ghl_TagName := l_Tag r\<rparr>)"
  by (simp add: gh_releasePayload_sorted gh_release_decoder_def find_field_def member_def dec_string_def dec_bool_def
      EqualFold_length)

definition utf8_release_texts :: "release \<Rightarrow> bool" where
  "utf8_release_texts r \<longleftrightarrow> valid_utf8 (l_Tag r) \<and> valid_utf8 (l_Name r) \<and> valid_utf8 (l_Body r)"

text \<open>A reply that echoes a JSON value that fits into a response.\<close>

definition echoes :: "api_reply \<Rightarrow> json \<Rightarrow> bool" where
  "echoes rp v \<longleftrightarrow> ar_Body rp = Marshal v \<and> int (length (Marshal v)) < maxResponseBody"

lemma ascii_utf8: "list_all (\<lambda>c. byte c < 128) s \<Longrightarrow> valid_utf8 s"
  by (induction s) auto

lemma gh_releasePayload_ok: "utf8_release_texts r \<Longrightarrow> json_ok (gh_releasePayload r)"
  by (simp add: gh_releasePayload_sorted utf8_release_texts_def ascii_utf8 byte_def)

lemma gh_comment_decodes:
  "gh_comment_decoder (comment_payload c) gh_comment_zero = Some (gh_comment_zero\<lparr>ghc_Body := c_Body c\<rparr>)"
  by (simp add: comment_payload_def json_map_def gh_comment_decoder_def find_field_def member_def dec_string_def)

lemma comment_payload_ok: "valid_utf8 (c_Body c) \<Longrightarrow> json_ok (comment_payload c)"
  by (simp add: comment_payload_def json_map_def ascii_utf8 byte_def)

text \<open>C24: what the client writes is what it reads: a reply that carries a release, or a comment,
  the way the client sent it decodes to an object with the same state hash, so that the
  reconcilers do not take it for changed.\<close>

theorem github_writes_read_back:
  assumes "utf8_release_texts r" and "valid_utf8 (c_Body c)"
    and "echoes rp1 (gh_releasePayload r)" and "echoes rp2 (comment_payload c)"
  shows "(\<exists>w. decode_body X gh_release_decoder gh_release_zero rp1 = Inr w
            \<and> release_Hash E (gh_release_model w) = release_Hash E r)
       \<and> (\<exists>w. decode_body X gh_comment_decoder gh_comment_zero rp2 = Inr w
            \<and> comment_Hash E (gh_comment_model i w) = comment_Hash E c)"
proof -
  have "decode_body X gh_release_decoder gh_release_zero rp1 = Inr (gh_release_zero\<lparr>ghl_Body := l_Body r,
     ghl_Draft := l_Draft r, ghl_Name := l_Name r, ghl_Prerelease := l_Prerelease r, ghl_TagName := l_Tag r\<rparr>)"
    using assms(3) by (simp add: echoes_def gh_release_decodes decode_body_Marshal [OF gh_releasePayload_ok [OF assms(1)]])
  moreover have "decode_body X gh_comment_decoder gh_comment_zero rp2 = Inr (gh_comment_zero\<lparr>ghc_Body := c_Body c\<rparr>)"
    using assms(4) by (simp add: echoes_def gh_comment_decodes decode_body_Marshal [OF comment_payload_ok [OF assms(2)]])
  ultimately show ?thesis
    by (simp add: release_Hash_def release_json_def gh_release_model_def comment_Hash_def gh_comment_model_def)
qed

section \<open>Properties of the listings\<close>

text \<open>C22: a successful listing of issues is exactly the issues on the pages that the \<open>Link\<close> headers
  lead through, in their order, without the pull requests; there is no success after a page
  that failed, and none with pages left out or more than 1000 of them.\<close>

theorem issues_listed_exactly:
  "gh_ListIssues C owner name s = (Inr xs, t)
   \<longleftrightarrow> (\<exists>pages. length pages \<le> 1000
        \<and> page_chain C gh_issue_decoder gh_issue_zero (gh_repo C owner name ''/issues?state=all&per_page=100&page=1'') pages s t
        \<and> xs = map gh_issue_model (filter (\<lambda>i. \<not> ghi_PullRequest i) (concat pages)))"
  by (auto simp: gh_ListIssues_def bnd_Inr ret_Inr gh_listing_chain)

text \<open>The client finds the next page in a \<open>Link\<close> header: the first link of relation
  \<open>next\<close>, whatever other links stand beside it, and none if there is none.\<close>

theorem next_link_found:
  assumes "\<forall>l \<in> set links. plain_text (fst l) \<and> plain_text (snd l)"
  shows "nextLink (render_links links) = (case List.find (\<lambda>l. snd l = ''next'') links of Some l \<Rightarrow> fst l | None \<Rightarrow> [])"
  using assms by (rule nextLink_rendered)

lemma gh_listing_costs:
  assumes "counts_requests C c"
  shows "costs (\<lambda>s. c (gn_world s)) (1000 * nat (MaxAttempts (gc_Retry C))) (gh_listing C d zero wrap limit endpoint)"
proof -
  have "costs (\<lambda>s. c (gn_world s)) (1000 * nat (MaxAttempts (gc_Retry C)) + 0) (gh_listing C d zero wrap limit endpoint)"
    unfolding gh_listing_def by (intro costs_bnd gh_pages_costs [OF assms]) (auto intro: costs_ret)
  then show ?thesis by simp
qed

lemma costs_then: "costs c k m \<Longrightarrow> (\<And>x. costs c 0 (f x)) \<Longrightarrow> costs c k (bnd m f)"
  using costs_bnd [of c k m 0 f] by simp

lemma gh_listWebhooks_costs:
  "counts_requests C c \<Longrightarrow> costs (\<lambda>s. c (gn_world s)) (1000 * nat (MaxAttempts (gc_Retry C))) (gh_listWebhooks C path)"
  unfolding gh_listWebhooks_def by (intro costs_then gh_pages_costs) (auto intro: costs_ret)

lemma costs_wrapE: "costs c k m \<Longrightarrow> costs c k (wrapE msg m)"
  by (auto simp: costs_def wrapE_app split: prod.splits sum.splits) (metis snd_conv)+

lemma gh_ListRepositories_costs:
  assumes "counts_requests C c"
  shows "costs (\<lambda>s. c (gn_world s)) (2000 * nat (MaxAttempts (gc_Retry C))) (gh_ListRepositories C namespace)"
proof (cases "namespace = []")
  case False
  let ?k = "1000 * nat (MaxAttempts (gc_Retry C))" and ?c = "\<lambda>s. c (gn_world s)"
  have all: "costs ?c ?k (gh_getAll C path)" for path
    unfolding gh_getAll_def by (rule gh_pages_costs [OF assms])
  have users: "costs ?c ?k (bnd (gh_getAll C path) (\<lambda>(_, r). ret r))" for path
    by (rule costs_then [OF all]) (auto intro: costs_ret)
  have ends: "costs ?c 0 (bnd (wrapE msg (of_sum r)) (\<lambda>repos. ret (map gh_repository_model repos)))" for msg r
    by (intro costs_then costs_wrapE costs_ret)
  have choice: "costs ?c ?k (case r of Inl e \<Rightarrow> if status = 404
        then bnd (gh_getAll C path) (\<lambda>(_, r). ret r) else ret r | Inr _ \<Rightarrow> ret r)" for r path and status :: int
    using users by (cases r) (auto intro: costs_ret)
  have rest: "costs ?c ?k (case p of (status, r) \<Rightarrow> bnd (case r of Inl e \<Rightarrow> if status = 404
        then bnd (gh_getAll C path) (\<lambda>(_, r). ret r) else ret r | Inr _ \<Rightarrow> ret r)
      (\<lambda>r. bnd (wrapE msg (of_sum r)) (\<lambda>repos. ret (map gh_repository_model repos))))"
    for p :: "int \<times> (go_error + gh_repository list)" and path msg
    by (cases p) (simp only: prod.case, rule costs_then [OF choice ends])
  have "costs ?c (?k + ?k) (gh_ListRepositories C namespace)"
    unfolding gh_ListRepositories_def if_not_P [OF False] by (rule costs_bnd [OF all rest])
  then show ?thesis by simp
qed (simp add: gh_ListRepositories_def costs_ret)

text \<open>C25: the number of requests of a listing is bounded, whatever the server answers. A listing of
  issues, pull requests, comments, releases or webhooks sends at most 1000 times \<open>MaxAttempts\<close>
  requests; the listing of a namespace's repositories, which asks for an organization and then
  for a user, at most twice as many.\<close>

theorem listing_requests_bounded:
  assumes "counts_requests C c"
  shows "costs (\<lambda>s. c (gn_world s)) (1000 * nat (MaxAttempts (gc_Retry C))) (gh_ListIssues C owner name)
    \<and> costs (\<lambda>s. c (gn_world s)) (1000 * nat (MaxAttempts (gc_Retry C))) (gh_ListPullRequests C owner name)
    \<and> costs (\<lambda>s. c (gn_world s)) (1000 * nat (MaxAttempts (gc_Retry C))) (gh_ListComments C owner name issueIndex)
    \<and> costs (\<lambda>s. c (gn_world s)) (1000 * nat (MaxAttempts (gc_Retry C))) (gh_ListReleases C owner name)
    \<and> costs (\<lambda>s. c (gn_world s)) (1000 * nat (MaxAttempts (gc_Retry C))) (gh_ListOrgWebhooks C org)
    \<and> costs (\<lambda>s. c (gn_world s)) (1000 * nat (MaxAttempts (gc_Retry C))) (gh_ListRepoWebhooks C owner name)
    \<and> costs (\<lambda>s. c (gn_world s)) (2000 * nat (MaxAttempts (gc_Retry C))) (gh_ListRepositories C namespace)"
  unfolding gh_ListIssues_def gh_ListPullRequests_def gh_ListComments_def gh_ListReleases_def
    gh_ListOrgWebhooks_def gh_ListRepoWebhooks_def
  by (intro conjI costs_then gh_listing_costs [OF assms] gh_listWebhooks_costs [OF assms] gh_ListRepositories_costs [OF assms])
    (auto intro!: costs_then costs_ret split: prod.split)

text \<open>\<open>n\<close> successful calls of the pacing one after the other, with anything between them that does
  not take back time or a slot.\<close>

inductive paced :: "'w github_client \<Rightarrow> ('w \<Rightarrow> time) \<Rightarrow> nat \<Rightarrow> 'w github_net \<Rightarrow> 'w github_net \<Rightarrow> bool" for C clk where
  none: "paced C clk 0 s s"
| call: "paced C clk n s t \<Longrightarrow> gn_paceLast t \<le> gn_paceLast t' \<Longrightarrow> gn_paceLast t' \<le> clk (gn_world t') + 2 ^ 62 \<Longrightarrow>
     gh_pace C t' = (Inr (), u) \<Longrightarrow> paced C clk (Suc n) s u"

text \<open>C26: the pacing bounds the rate of the calls that go through it. Each call reserves a slot that
  is at least the pacing interval after the one before, and returns not before its slot: after
  \<open>n\<close> successful calls at least \<open>n\<close> intervals have passed since the slot before the first of them.
  (The waiting for the rate limit comes after the pacing, and the transfers of assets do not go
  through it.)\<close>

theorem pacing_bounds_rate:
  assumes "keeps_time (gc_net C) clk" and "0 < gc_paceInterval C" and "gc_paceInterval C < 2 ^ 62"
    and "paced C clk n s t" and "0 < n"
  shows "gn_paceLast s + int n * gc_paceInterval C \<le> gn_paceLast t \<and> gn_paceLast t \<le> clk (gn_world t)"
  using assms(4,5)
proof (induction rule: paced.induct)
  case (call n s t t' u)
  from pace_reserves [OF assms(1-3) call.hyps(3,4)] call.hyps(2)
  have "gn_paceLast t + gc_paceInterval C \<le> gn_paceLast u" "gn_paceLast u \<le> clk (gn_world u)" by auto
  moreover have "gn_paceLast s + int n * gc_paceInterval C \<le> gn_paceLast t"
    using call.IH call.hyps(1) by (cases n) (auto elim: paced.cases)
  ultimately show ?case by (simp add: distrib_right)
qed simp

section \<open>Refusals\<close>

lemma Do_permanent:
  assumes "retry_Validate p = Inr ()" and "ctxErr s = None" and "attempt s = (Inl e, t)" and "\<not> retriable p e"
  shows "Do ctxErr p attempt s = (Inl e, t)"
  using assms
  by (auto simp: Do_def Do_loop.simps [of ctxErr p attempt _ _] retriable_def
      split: option.splits nat.splits bool.splits)

text \<open>C27: GitHub's refusal to create a pull request (status 422) is reported after that one request, as
  one of the two sentinels: the request is not repeated, and any other API error
  that is not retried is passed on as it is.\<close>

theorem refusal_is_classified:
  assumes "retry_Validate (gc_Retry C) = Inr ()" and "hx_ctxErr (gc_net C) None (gn_world s) = None"
    and "gh_pullRequestPayload source True = Inr payload"
    and "gh_request C ''POST'' (gh_repo C owner name ''/pulls'') (Some (Marshal payload)) s = (Inl (GitHubAPI a), t)"
    and "\<not> gae_rateLimited a" and "gae_StatusCode a < 500" and "gae_StatusCode a \<noteq> 429"
  shows "gh_CreatePullRequest C owner name source s =
    (Inl (if gae_StatusCode a \<noteq> 422 then GitHubAPI a
          else if Contains (gae_Body a) ''A pull request already exists for'' then ErrPullRequestExists
          else ErrNoCommits), t)"
proof -
  have "\<not> retriable (gc_Retry C) (GitHubAPI a)"
    using assms(5-7) by (simp add: retriable_def transient_error_def isTransportError_def github_Transient_def)
  then have "gh_attempt C ''POST'' (gh_repo C owner name ''/pulls'') (Some (Marshal payload)) s = (Inl (GitHubAPI a), t)"
    unfolding gh_attempt_def gh_Do_def using assms by (intro Do_permanent) auto
  then show ?thesis using assms(3)
    by (simp add: gh_CreatePullRequest_def gh_writeJSON_def tryE_app bnd_app of_sum_app throw_app as_github_def)
qed

section \<open>Webhooks on GitHub\<close>

lemma Do_loop_never:
  assumes "\<And>s. \<exists>e. fst (attempt s) = Inl e"
  shows "\<exists>e. fst (Do_loop ctxErr p attempt n i s) = Inl e"
proof (induction n arbitrary: i s)
  case 0
  show ?case using assms [of s]
    by (subst Do_loop.simps) (auto split: option.splits prod.splits sum.splits)
next
  case (Suc m)
  show ?case using assms [of s] Suc
    by (subst Do_loop.simps) (auto simp: bnd_app split: option.splits prod.splits sum.splits bool.splits)
qed

lemma Do_never: "(\<And>s. \<exists>e. fst (attempt s) = Inl e) \<Longrightarrow> \<exists>e. fst (Do ctxErr p attempt s) = Inl e"
  by (auto simp: Do_def throw_app intro: Do_loop_never split: sum.splits)

lemma relative_request_fails: "\<exists>e. fst (gh_request C method (slash # p) body s) = Inl e"
proof -
  have "\<exists>e. client_Do (gc_net C) (gc_timeout C) None (gh_request_of C method (slash # p) body) = throw e"
    by (rule relative_not_sent) (simp add: gh_request_of_def)
  then show ?thesis
    by (auto simp: gh_request_def bnd_app gh_net_app throw_app split: prod.splits sum.splits)
qed

lemma relative_write_fails: "\<exists>e. fst (gh_writeJSON C method (slash # p) payload gh_discard s) = Inl e"
proof -
  have "\<exists>e. fst (gh_attempt C method (slash # p) (Some (Marshal payload)) s) = Inl e"
    unfolding gh_attempt_def gh_Do_def by (rule Do_never) (rule relative_request_fails)
  then show ?thesis by (auto simp: gh_writeJSON_def bnd_app split: prod.splits sum.splits)
qed

lemma hook_writes_fail:
  "\<exists>e. fst (gh_CreateOrgWebhook C org hook secret s) = Inl e"
  "\<exists>e. fst (gh_UpdateOrgWebhook C org i hook secret s) = Inl e"
  "\<exists>e. fst (gh_CreateRepoWebhook C org name hook secret s) = Inl e"
  "\<exists>e. fst (gh_UpdateRepoWebhook C org name i hook secret s) = Inl e"
  unfolding gh_CreateOrgWebhook_def gh_UpdateOrgWebhook_def gh_CreateRepoWebhook_def gh_UpdateRepoWebhook_def
  by (simp_all add: relative_write_fails)

text \<open>The same client on another network.\<close>

definition on_network :: "(duration \<Rightarrow> call_context \<Rightarrow> api_request \<Rightarrow> ('w, api_reply) call) \<Rightarrow> 'w github_client \<Rightarrow> 'w github_client" where
  "on_network D C = C\<lparr>gc_net := (gc_net C)\<lparr>hx_Do := D\<rparr>\<rparr>"

lemma on_network_reads [simp]:
  "gh_now (on_network D C) = gh_now C" "gh_sleep (gc_net (on_network D C)) = gh_sleep (gc_net C)"
  "gc_timeout (on_network D C) = gc_timeout C" "gc_token (on_network D C) = gc_token C"
  "gc_paceInterval (on_network D C) = gc_paceInterval C"
  "gc_throttleLowMark (on_network D C) = gc_throttleLowMark C" "gc_throttleMaxWait (on_network D C) = gc_throttleMaxWait C"
  by (auto simp: gh_now_def gh_sleep_def on_network_def)

lemma on_network_simps [simp]:
  "gh_pace (on_network D C) = gh_pace C" "obeyRateLimit (on_network D C) = obeyRateLimit C"
  "gh_request_of (on_network D C) = gh_request_of C" "gh_failure (on_network D C) = gh_failure C"
proof -
  have "wait_until_reset (on_network D C) = wait_until_reset C"
    by (intro HOL.ext) (simp only: wait_until_reset_def on_network_reads)
  then have rate: "rateWaitFromHeaders (on_network D C) = rateWaitFromHeaders C"
    by (intro HOL.ext) (simp only: rateWaitFromHeaders_def)
  show "gh_failure (on_network D C) = gh_failure C"
    by (intro HOL.ext) (simp only: gh_failure_def rate)
  show "gh_pace (on_network D C) = gh_pace C"
    by (simp only: gh_pace_def on_network_reads)
  show "obeyRateLimit (on_network D C) = obeyRateLimit C"
    by (simp only: obeyRateLimit_def on_network_reads)
  show "gh_request_of (on_network D C) = gh_request_of C"
    by (intro HOL.ext) (simp only: gh_request_of_def gh_headers_def on_network_reads)
qed

lemma relative_unsent:
  "aq_URL rq = slash # p \<Longrightarrow> client_Do (gc_net (on_network D C)) t ctx rq = client_Do (gc_net C) t ctx rq"
  by (simp add: client_Do_def on_network_def)

lemma relative_request_unsent: "gh_request (on_network D C) method (slash # p) body = gh_request C method (slash # p) body"
proof -
  have "aq_URL (gh_request_of C method (slash # p) body) = slash # p" by (simp add: gh_request_of_def)
  then show ?thesis
    unfolding gh_request_def on_network_simps on_network_reads using relative_unsent [of _ p D C] by simp
qed

lemma relative_write_unsent:
  "gh_writeJSON (on_network D C) method (slash # p) payload gh_discard = gh_writeJSON C method (slash # p) payload gh_discard"
  using relative_request_unsent [of D C]
  by (simp add: gh_writeJSON_def gh_attempt_def gh_Do_def) (simp add: on_network_def)

lemma hook_writes_unsent:
  "gh_CreateOrgWebhook (on_network D C) = gh_CreateOrgWebhook C"
  "gh_UpdateOrgWebhook (on_network D C) = gh_UpdateOrgWebhook C"
  "gh_CreateRepoWebhook (on_network D C) = gh_CreateRepoWebhook C"
  "gh_UpdateRepoWebhook (on_network D C) = gh_UpdateRepoWebhook C"
  by (intro HOL.ext; simp add: gh_CreateOrgWebhook_def gh_UpdateOrgWebhook_def gh_CreateRepoWebhook_def
      gh_UpdateRepoWebhook_def relative_write_unsent)+

lemma ensureHook_unsent:
  "ensureHook (gh_wire_forge (on_network D C)) = ensureHook (gh_wire_forge C)"
proof -
  have "create_hook (gh_wire_forge (on_network D C)) = create_hook (gh_wire_forge C)"
    "update_hook (gh_wire_forge (on_network D C)) = update_hook (gh_wire_forge C)"
    by (intro HOL.ext; simp add: create_hook_def update_hook_def gh_wire_forge_def hook_writes_unsent)+
  then show ?thesis by (intro HOL.ext) (simp only: ensureHook_def)
qed

text \<open>no webhook is ever created or updated on GitHub: where the wanted hook is absent, switched off or
  has other events, wiring ends with an error, because the four writing operations send
  nothing (their URLs lack the host).\<close>

theorem github_hooks_never_wired:
  assumes "case matched_hook hookURL existing of None \<Rightarrow> True | Some h \<Rightarrow> \<not> sameEvents (wh_Events h) events \<or> \<not> wh_Active h"
  shows "(\<exists>e. fst (ensureHook (gh_wire_forge C) target hookURL secret events existing False label rep s) = Inl e)
    \<and> ensureHook (gh_wire_forge (on_network D C)) target hookURL secret events existing False label rep s
      = ensureHook (gh_wire_forge C) target hookURL secret events existing False label rep s"
proof (rule conjI)
  have create: "\<exists>e. fst (create_hook (gh_wire_forge C) target hook secret s) = Inl e" for hook
    using hook_writes_fail(1) [of C "tg_org target" hook secret s]
      hook_writes_fail(3) [of C "tg_org target" "tg_repo target" hook secret s]
    by (simp add: create_hook_def gh_wire_forge_def)
  have update: "\<exists>e. fst (update_hook (gh_wire_forge C) target i hook secret s) = Inl e" for i hook
    using hook_writes_fail(2) [of C "tg_org target" i hook secret s]
      hook_writes_fail(4) [of C "tg_org target" "tg_repo target" i hook secret s]
    by (simp add: update_hook_def gh_wire_forge_def)
  have fails: "\<exists>e. fst (bnd (whenE True (wrapE msg m)) k s) = Inl e" if "\<exists>e. fst (m s) = Inl e" for msg m k
    using that by (auto simp: bnd_app wrapE_app split: prod.splits)
  show "\<exists>e. fst (ensureHook (gh_wire_forge C) target hookURL secret events existing False label rep s) = Inl e"
  proof (cases "matched_hook hookURL existing")
    case None
    then show ?thesis unfolding ensureHook_def by (simp only: option.case not_False_eq_True) (rule fails, rule create)
  next
    case (Some h)
    with assms have drift: "\<not> sameEvents (wh_Events h) events \<or> \<not> wh_Active h" by simp
    show ?thesis unfolding ensureHook_def Some option.case if_P [OF drift] not_False_eq_True
      by (rule fails, rule update)
  qed
qed (simp only: ensureHook_unsent)

section \<open>Worked examples\<close>

text \<open>A network with a clock, a counter of the requests sent and a script of the replies.\<close>

record scripted =
  sc_clock :: time
  sc_sent :: nat
  sc_replies :: "api_reply list"

definition plain_reply :: "int \<Rightarrow> string \<Rightarrow> api_reply" where
  "plain_reply status body = \<lparr>ar_StatusCode = status, ar_Header = (\<lambda>_. []), ar_Body = body, ar_BodyErr = None\<rparr>"

definition script_net :: "scripted internet" where
  "script_net = \<lparr>hx_now = (\<lambda>w. (sc_clock w, w)),
     hx_Sleep = (\<lambda>_ d w. (Inr (), w\<lparr>sc_clock := sc_clock w + d\<rparr>)), hx_ctxErr = (\<lambda>_ _. None),
     hx_Do = (\<lambda>_ _ _ w. case sc_replies w of
         [] \<Rightarrow> (Inl (URLError ''connection refused''), w\<lparr>sc_sent := sc_sent w + 1\<rparr>)
       | r # rs \<Rightarrow> (Inr r, w\<lparr>sc_sent := sc_sent w + 1, sc_replies := rs\<rparr>)),
     hx_urlErr = (\<lambda>_. None), hx_parse = (\<lambda>_. Some \<lparr>u_Scheme = ''https'', u_Host = ''api.github.com'', u_User = False\<rparr>),
     hx_String = (\<lambda>_ host. ''https://'' @ host), hx_jsonErr = (\<lambda>_. ''json'')\<rparr>"

definition blank_env :: "unit env" where
  "blank_env = \<lparr>e_now = (\<lambda>w. (0, w)), e_fault = (\<lambda>w. (None, w)), e_sha256 = id, e_order = (\<lambda>_ xs. xs)\<rparr>"

definition sample_client :: "scripted github_client" where
  "sample_client = \<lparr>gc_net = script_net, gc_baseURL = ''https://api.github.com'',
     gc_uploadBase = ''https://uploads.github.com'', gc_token = ''t'', gc_timeout = 30 * second,
     gc_Retry = DefaultRetryPolicy (gh_sleep script_net), gc_throttleMaxWait = defaultThrottleMaxWait,
     gc_throttleLowMark = defaultThrottleLowMark, gc_paceInterval = second\<rparr>"

definition sample_state :: "api_reply list \<Rightarrow> scripted github_net" where
  "sample_state rs = \<lparr>gn_limitsRemaining = 0, gn_limitsResetAt = time_zero, gn_paceLast = time_zero,
     gn_world = \<lparr>sc_clock = 0, sc_sent = 0, sc_replies = rs\<rparr>\<rparr>"

definition sample_release :: release where
  "sample_release = \<lparr>l_ID = 7, l_Tag = ''v1'', l_Name = ''One'', l_Body = ''a <b>'', l_Draft = True,
     l_Prerelease = False, l_CreatedAt = 0, l_Assets = []\<rparr>"

definition sample_comment :: comment where
  "sample_comment = \<lparr>c_ID = 3, c_IssueID = 4, c_Body = ''hi'', c_UpdatedAt = 0\<rparr>"

definition sample_pull :: pull_request where
  "sample_pull = \<lparr>p_ID = 1, p_Index = 2, p_Title = ''t'', p_Body = [], p_State = ''open'', p_Head = ''h'', p_Base = ''b'',
     p_Draft = False, p_Merged = False, p_UpdatedAt = 0\<rparr>"

text \<open>The client that \<open>New\<close> makes.\<close>

lemma gh_New_sample:
  "gh_New script_net ''https://api.github.com/'' ''t'' (30 * second) [gh_WithPacing second] = Inr sample_client"
  by (simp add: gh_New_def script_net_def sample_client_def gh_WithPacing_def retry_Validate_def DefaultRetryPolicy_def
      second_def uploadsBase_def HasPrefix_def TrimPrefix_def)

theorem github_writes_read_back_witness:
  "\<exists>w. decode_body script_net gh_release_decoder gh_release_zero (plain_reply 201 (Marshal (gh_releasePayload sample_release))) = Inr w
     \<and> release_Hash blank_env (gh_release_model w) = release_Hash blank_env sample_release"
proof -
  have "utf8_release_texts sample_release" "valid_utf8 (c_Body sample_comment)"
    by (simp_all add: utf8_release_texts_def sample_release_def sample_comment_def ascii_utf8 byte_def)
  moreover have "int (length (Marshal (gh_releasePayload sample_release))) < maxResponseBody"
    "int (length (Marshal (comment_payload sample_comment))) < maxResponseBody" by code_simp+
  ultimately show ?thesis
    using github_writes_read_back [of sample_release sample_comment
        "plain_reply 201 (Marshal (gh_releasePayload sample_release))"
        "plain_reply 201 (Marshal (comment_payload sample_comment))" script_net blank_env 4]
    by (auto simp: echoes_def plain_reply_def)
qed

theorem next_link_found_witness:
  "nextLink (render_links [(''https://a/x?page=1'', ''prev''), (''https://a/x?page=3'', ''next'')]) = ''https://a/x?page=3''"
  using next_link_found [of "[(''https://a/x?page=1'', ''prev''), (''https://a/x?page=3'', ''next'')]"]
  by (simp add: plain_text_def is_space_def quote_def)

theorem listing_requests_bounded_witness:
  "sc_sent (gn_world (snd (gh_ListIssues sample_client ''o'' ''n'' (sample_state [])))) \<le> 4000
   \<and> sc_sent (gn_world (snd (gh_ListRepositories sample_client ''o'' (sample_state [])))) \<le> 8000"
proof -
  have "counts_requests sample_client sc_sent"
    by (simp add: counts_requests_def sample_client_def script_net_def DefaultRetryPolicy_def gh_sleep_app split: list.split)
  from listing_requests_bounded [OF this] have
    "costs (\<lambda>s. sc_sent (gn_world s)) (1000 * nat (MaxAttempts (gc_Retry sample_client))) (gh_ListIssues sample_client ''o'' ''n'')"
    "costs (\<lambda>s. sc_sent (gn_world s)) (2000 * nat (MaxAttempts (gc_Retry sample_client))) (gh_ListRepositories sample_client ''o'')"
    by blast+
  from this [unfolded costs_def, THEN spec [of _ "sample_state []"]] show ?thesis
    by (simp add: sample_client_def DefaultRetryPolicy_def sample_state_def)
qed

theorem pacing_bounds_rate_witness:
  "second + second \<le> gn_paceLast (snd (gh_pace sample_client ((sample_state [])\<lparr>gn_paceLast := second\<rparr>)))"
proof -
  have clk: "keeps_time (gc_net sample_client) sc_clock"
    by (simp add: keeps_time_def sample_client_def script_net_def)
  let ?s = "(sample_state [])\<lparr>gn_paceLast := second\<rparr>"
  have "fst (gh_pace sample_client ?s) = Inr ()" by code_simp
  then have "gh_pace sample_client ?s = (Inr (), snd (gh_pace sample_client ?s))" by (simp add: prod_eq_iff)
  then have "paced sample_client sc_clock (Suc 0) ?s (snd (gh_pace sample_client ?s))"
    by (intro paced.call [OF paced.none]) (simp_all add: sample_state_def second_def)
  from pacing_bounds_rate [OF clk _ _ this] show ?thesis
    by (simp add: sample_client_def sample_state_def second_def)
qed

definition refusal_reply :: api_reply where
  "refusal_reply = plain_reply 422 ''A pull request already exists for o:h.''"

theorem refusal_is_classified_witness:
  "fst (gh_CreatePullRequest sample_client ''o'' ''n'' sample_pull (sample_state [refusal_reply])) = Inl ErrPullRequestExists"
proof -
  let ?payload = "projr (gh_pullRequestPayload sample_pull True)"
  let ?run = "gh_request sample_client ''POST'' (gh_repo sample_client ''o'' ''n'' ''/pulls'') (Some (Marshal ?payload)) (sample_state [refusal_reply])"
  define a where "a = \<lparr>gae_Method = ''POST'', gae_URL = ''https://api.github.com/repos/o/n/pulls'', gae_StatusCode = 422,
    gae_RequestID = [], gae_RetryAfter = 0, gae_rateLimited = False, gae_Body = ''A pull request already exists for o:h.''\<rparr>"
  have "(case fst ?run of Inl e \<Rightarrow> e = GitHubAPI a | Inr _ \<Rightarrow> False)" unfolding a_def by code_simp
  then have run: "?run = (Inl (GitHubAPI a), snd ?run)" by (simp add: prod_eq_iff split: sum.splits)
  have pay: "gh_pullRequestPayload sample_pull True = Inr ?payload"
    by (simp add: gh_pullRequestPayload_def pull_source_invalid_def sample_pull_def)
  have pol: "retry_Validate (gc_Retry sample_client) = Inr ()"
    by (simp add: sample_client_def DefaultRetryPolicy_def retry_Validate_def second_def)
  have ctx: "hx_ctxErr (gc_net sample_client) None (gn_world (sample_state [refusal_reply])) = None"
    by (simp add: sample_client_def script_net_def)
  have "Contains (gae_Body a) ''A pull request already exists for''" unfolding a_def by code_simp
  then show ?thesis
    using refusal_is_classified [OF pol ctx pay run] by (simp add: a_def)
qed

theorem github_hooks_never_wired_witness:
  "\<exists>e. fst (ensureHook (gh_wire_forge sample_client) \<lparr>tg_org = ''o'', tg_repo = []\<rparr> ''https://h'' ''s'' githubHookEvents [] False
     ''github:org/o'' \<lparr>rp_Created = [], rp_Updated = [], rp_Unchanged = [], rp_Skipped = []\<rparr> (sample_state [])) = Inl e"
  by (rule github_hooks_never_wired [THEN conjunct1]) (simp add: matched_hook_def)

end
