(* ===== verification/ForgejoClient.thy ===== *)
theory ForgejoClient
  imports GitHubClient Secrets
begin

text \<open>
  \<open>internal/forgejo/client.go\<close>. The client's one mutable field, the time of its last request, is
  part of the state; so is the local variable \<open>status\<close> of \<open>doJSONWithPolicy\<close>, which keeps the
  status of the last reply over the attempts of a call. A retry policy is a function of the
  context, because its \<open>Sleep\<close> receives it.
\<close>

section \<open>The client\<close>

record 'w forgejo_net =
  fn_paceLast :: time
  fn_status :: int
  fn_world :: 'w

type_synonym 'w forgejo_policy = "call_context \<Rightarrow> 'w forgejo_net retry_policy"

text \<open>\<open>fc_boundary\<close> is the random boundary of \<open>multipart.NewWriter\<close>.\<close>

record 'w forgejo_client =
  fc_net :: "'w internet"
  fc_baseURL :: string
  fc_token :: string
  fc_timeout :: duration
  fc_migrateTimeout :: duration
  fc_Retry :: "'w forgejo_policy"
  fc_paceInterval :: duration
  fc_boundary :: "'w \<Rightarrow> string \<times> 'w"

definition fj_net :: "('w, 'a) call \<Rightarrow> ('w forgejo_net, 'a) prog" where
  "fj_net f = (\<lambda>s. case f (fn_world s) of (r, w) \<Rightarrow> (r, s\<lparr>fn_world := w\<rparr>))"

definition fj_now :: "'w forgejo_client \<Rightarrow> ('w forgejo_net, time) prog" where
  "fj_now C = fj_net (\<lambda>w. case hx_now (fc_net C) w of (t, w') \<Rightarrow> (Inr t, w'))"

definition fj_sleep :: "'w internet \<Rightarrow> call_context \<Rightarrow> duration \<Rightarrow> ('w forgejo_net, unit) prog" where
  "fj_sleep X ctx d = fj_net (hx_Sleep X ctx d)"

definition defaultMigrateTimeout :: duration where "defaultMigrateTimeout = 30 * minute"

type_synonym 'w forgejo_option = "'w forgejo_client \<Rightarrow> 'w forgejo_client"

definition fj_WithRetry :: "'w forgejo_policy \<Rightarrow> 'w forgejo_option" where
  "fj_WithRetry policy c = c\<lparr>fc_Retry := policy\<rparr>"

definition fj_WithPacing :: "duration \<Rightarrow> 'w forgejo_option" where
  "fj_WithPacing interval c = c\<lparr>fc_paceInterval := interval\<rparr>"

definition fj_New ::
  "'w internet \<Rightarrow> ('w \<Rightarrow> string \<times> 'w) \<Rightarrow> string \<Rightarrow> string \<Rightarrow> duration \<Rightarrow> 'w forgejo_option list \<Rightarrow>
   go_error + 'w forgejo_client" where
  "fj_New X boundary baseURL token timeout options =
     (let trimmed = TrimSuffix (TrimRight baseURL slash) ''/api/v1'';
          invalid = Inl (Err (''invalid Forgejo API URL '' @ Quote baseURL))
      in case hx_parse X trimmed of
           None \<Rightarrow> invalid
         | Some parsed \<Rightarrow>
             if u_Scheme parsed = [] \<or> u_Host parsed = [] then invalid
             else if token = [] then Inl (Err ''Forgejo token is empty'')
             else if timeout \<le> 0 then Inl (Err ''Forgejo timeout must be positive'')
             else (let client = foldl (\<lambda>c option. option c)
                     \<lparr>fc_net = X, fc_baseURL = hx_String X trimmed (u_Host parsed), fc_token = token,
                      fc_timeout = timeout, fc_migrateTimeout = defaultMigrateTimeout,
                      fc_Retry = (\<lambda>ctx. DefaultRetryPolicy (fj_sleep X ctx)), fc_paceInterval = 0,
                      fc_boundary = boundary\<rparr> options
                   in case retry_Validate (fc_Retry client None) of
                        Inl e \<Rightarrow> Inl (Wrap ''Forgejo retry policy'' e)
                      | Inr _ \<Rightarrow> Inr client))"

definition fj_pace :: "'w forgejo_client \<Rightarrow> call_context \<Rightarrow> ('w forgejo_net, unit) prog" where
  "fj_pace C ctx =
     (if fc_paceInterval C \<le> 0 then ret ()
      else bnd (fj_now C) (\<lambda>now s.
        let wait = i64 (fc_paceInterval C - time_Sub now (fn_paceLast s)) in
        if wait > 0 then fj_sleep (fc_net C) ctx wait (s\<lparr>fn_paceLast := now + wait\<rparr>)
        else (Inr (), s\<lparr>fn_paceLast := now\<rparr>)))"

section \<open>Requests\<close>

definition fj_headers :: "'w forgejo_client \<Rightarrow> string \<Rightarrow> (string \<times> string) list" where
  "fj_headers C accept = [(''Accept'', accept), (''Authorization'', ''token '' @ fc_token C)]"

definition fj_request_of :: "'w forgejo_client \<Rightarrow> string \<Rightarrow> string \<Rightarrow> json option \<Rightarrow> api_request" where
  "fj_request_of C method endpoint body =
     \<lparr>aq_Method = method, aq_URL = endpoint,
      aq_Header = fj_headers C ''application/json'' @ (if body = None then [] else [(''Content-Type'', ''application/json'')]),
      aq_Body = map_option Marshal body\<rparr>"

definition fj_failure :: "string \<Rightarrow> string \<Rightarrow> api_reply \<Rightarrow> go_error" where
  "fj_failure method endpoint r = ForgejoAPI \<lparr>fae_Method = method, fae_URL = endpoint,
     fae_StatusCode = ar_StatusCode r, fae_RetryAfter = retryAfter (ar_Header r)\<rparr>"

definition set_status :: "int \<Rightarrow> ('w forgejo_net, unit) prog" where
  "set_status n = (\<lambda>s. (Inr (), s\<lparr>fn_status := n\<rparr>))"

text \<open>What becomes of a successful reply: nothing, or it is decoded.\<close>

type_synonym ('w, 'a) fj_destination = "api_reply \<Rightarrow> ('w forgejo_net, 'a) prog"

definition fj_discard :: "('w, unit) fj_destination" where
  "fj_discard r = ret ()"

definition fj_into :: "'w forgejo_client \<Rightarrow> 'a decoder \<Rightarrow> 'a \<Rightarrow> ('w, 'a) fj_destination" where
  "fj_into C d zero r = wrapE ''decode Forgejo response'' (of_sum (decode_body (fc_net C) d zero r))"

definition fj_Do :: "'w forgejo_client \<Rightarrow> call_context \<Rightarrow> 'w forgejo_policy \<Rightarrow> ('w forgejo_net, 'a) prog \<Rightarrow> ('w forgejo_net, 'a) prog" where
  "fj_Do C ctx policy attempt = Do (\<lambda>s. hx_ctxErr (fc_net C) ctx (fn_world s)) (policy ctx) attempt"

definition fj_request ::
  "'w forgejo_client \<Rightarrow> call_context \<Rightarrow> duration \<Rightarrow> string \<Rightarrow> string \<Rightarrow> json option \<Rightarrow> ('w, 'a) fj_destination \<Rightarrow>
   ('w forgejo_net, 'a) prog" where
  "fj_request C ctx timeout method endpoint body destination =
     bnd (fj_pace C ctx) (\<lambda>_.
     bnd (fj_net (client_Do (fc_net C) timeout ctx (fj_request_of C method endpoint body))) (\<lambda>r.
     bnd (set_status (ar_StatusCode r)) (\<lambda>_.
     if \<not> success r then throw (fj_failure method endpoint r) else destination r)))"

text \<open>The result of \<open>doJSONWithPolicy\<close> is the value or error; the status is read from the state.\<close>

definition doJSONWithPolicy ::
  "'w forgejo_client \<Rightarrow> call_context \<Rightarrow> duration \<Rightarrow> 'w forgejo_policy \<Rightarrow> string \<Rightarrow> string \<Rightarrow> json option \<Rightarrow>
   ('w, 'a) fj_destination \<Rightarrow> ('w forgejo_net, 'a) prog" where
  "doJSONWithPolicy C ctx timeout policy method endpoint body destination =
     bnd (set_status 0) (\<lambda>_. fj_Do C ctx policy (fj_request C ctx timeout method endpoint body destination))"

definition doJSONWith ::
  "'w forgejo_client \<Rightarrow> call_context \<Rightarrow> duration \<Rightarrow> string \<Rightarrow> string \<Rightarrow> json option \<Rightarrow> ('w, 'a) fj_destination \<Rightarrow>
   ('w forgejo_net, 'a) prog" where
  "doJSONWith C ctx timeout = doJSONWithPolicy C ctx timeout (fc_Retry C)"

definition doJSON ::
  "'w forgejo_client \<Rightarrow> string \<Rightarrow> string \<Rightarrow> json option \<Rightarrow> ('w, 'a) fj_destination \<Rightarrow> ('w forgejo_net, 'a) prog" where
  "doJSON C = doJSONWith C None (fc_timeout C)"

definition fj_repo :: "'w forgejo_client \<Rightarrow> string \<Rightarrow> string \<Rightarrow> string \<Rightarrow> string" where
  "fj_repo C owner name rest =
     fc_baseURL C @ ''/api/v1/repos/'' @ PathEscape owner @ ''/'' @ PathEscape name @ rest"

section \<open>Paging\<close>

text \<open>The loop of the listings: \<open>n\<close> pages are left, \<open>page\<close> is the next one, \<open>prev\<close> the first ID of the
  page before; \<open>check\<close> says whether a repeated first ID ends the listing, \<open>limit\<close> what follows
  after the last page allowed.\<close>

fun fj_pages ::
  "(int \<Rightarrow> ('s, 'a list) prog) \<Rightarrow> ('a \<Rightarrow> int) \<Rightarrow> bool \<Rightarrow> ('a list \<Rightarrow> ('s, 'a list) prog) \<Rightarrow> nat \<Rightarrow> int \<Rightarrow> int \<Rightarrow> 'a list \<Rightarrow>
   ('s, 'a list) prog" where
  "fj_pages fetch ident check limit 0 page prev acc = limit acc"
| "fj_pages fetch ident check limit (Suc n) page prev acc =
     bnd (fetch page) (\<lambda>batch.
       if check \<and> batch \<noteq> [] \<and> ident (hd batch) = prev then ret acc
       else if length batch < 50 then ret (acc @ batch)
       else fj_pages fetch ident check limit n (page + 1) (ident (hd batch)) (acc @ batch))"

definition too_many :: "string \<Rightarrow> 'a list \<Rightarrow> ('s, 'a list) prog" where
  "too_many what acc = throw (Err (''Forgejo '' @ what @ ''pagination exceeded 1000 pages''))"

definition fj_fetch :: "'w forgejo_client \<Rightarrow> 'a decoder \<Rightarrow> 'a \<Rightarrow> string \<Rightarrow> int \<Rightarrow> ('w forgejo_net, 'a list) prog" where
  "fj_fetch C d zero base page =
     doJSON C ''GET'' (base @ ''&page='' @ FormatInt page) None (fj_into C (dec_slice d zero) [])"

definition fj_listing ::
  "'w forgejo_client \<Rightarrow> 'a decoder \<Rightarrow> 'a \<Rightarrow> ('a \<Rightarrow> int) \<Rightarrow> string \<Rightarrow> string \<Rightarrow> ('w forgejo_net, 'a list) prog" where
  "fj_listing C d zero ident what base =
     fj_pages (fj_fetch C d zero base) ident True (too_many what) 1000 1 0 []"

section \<open>Wire formats\<close>

record fj_issue =
  fji_ID :: int
  fji_Index :: int
  fji_Title :: string
  fji_Body :: string
  fji_State :: string
  fji_UpdatedAt :: time
  fji_Labels :: "(int \<times> string) list"
  fji_PullRequest :: bool
  fji_Milestone :: "(int \<times> string) option"

definition fj_issue_zero :: fj_issue where
  "fj_issue_zero = \<lparr>fji_ID = 0, fji_Index = 0, fji_Title = [], fji_Body = [], fji_State = [],
     fji_UpdatedAt = time_zero, fji_Labels = [], fji_PullRequest = False, fji_Milestone = None\<rparr>"

text \<open>A label and a milestone are an ID with a name or a title.\<close>

definition fj_label_decoder :: "(int \<times> string) decoder" where
  "fj_label_decoder = dec_struct [member ''id'' dec_int fst apfst, member ''name'' dec_string snd apsnd]"

definition fj_milestone_decoder :: "(int \<times> string) decoder" where
  "fj_milestone_decoder = dec_struct [member ''id'' dec_int fst apfst, member ''title'' dec_string snd apsnd]"

definition fj_issue_decoder :: "fj_issue decoder" where
  "fj_issue_decoder = dec_struct
     [member ''id'' dec_int fji_ID fji_ID_update, member ''number'' dec_int fji_Index fji_Index_update,
      member ''title'' dec_string fji_Title fji_Title_update, member ''body'' dec_string fji_Body fji_Body_update,
      member ''state'' dec_string fji_State fji_State_update, member ''updated_at'' dec_time fji_UpdatedAt fji_UpdatedAt_update,
      member ''labels'' (dec_slice fj_label_decoder (0, [])) fji_Labels fji_Labels_update,
      member ''pull_request'' dec_any fji_PullRequest fji_PullRequest_update,
      member ''milestone'' (dec_pointer fj_milestone_decoder (0, [])) fji_Milestone fji_Milestone_update]"

definition fj_issue_model :: "fj_issue \<Rightarrow> issue" where
  "fj_issue_model i = \<lparr>i_ID = fji_ID i, i_Index = fji_Index i, i_Title = fji_Title i, i_Body = fji_Body i,
     i_State = fji_State i, i_Labels = map snd (fji_Labels i),
     i_Milestone = (case fji_Milestone i of Some m \<Rightarrow> snd m | None \<Rightarrow> []), i_UpdatedAt = fji_UpdatedAt i\<rparr>"

record fj_pull =
  fjp_ID :: int
  fjp_Number :: int
  fjp_LegacyIndex :: int
  fjp_Title :: string
  fjp_Body :: string
  fjp_State :: string
  fjp_Merged :: bool
  fjp_UpdatedAt :: time
  fjp_Head :: string
  fjp_Base :: string

definition fj_pull_zero :: fj_pull where
  "fj_pull_zero = \<lparr>fjp_ID = 0, fjp_Number = 0, fjp_LegacyIndex = 0, fjp_Title = [], fjp_Body = [], fjp_State = [],
     fjp_Merged = False, fjp_UpdatedAt = time_zero, fjp_Head = [], fjp_Base = []\<rparr>"

definition fj_pull_decoder :: "fj_pull decoder" where
  "fj_pull_decoder = dec_struct
     [member ''id'' dec_int fjp_ID fjp_ID_update, member ''number'' dec_int fjp_Number fjp_Number_update,
      member ''index'' dec_int fjp_LegacyIndex fjp_LegacyIndex_update,
      member ''title'' dec_string fjp_Title fjp_Title_update, member ''body'' dec_string fjp_Body fjp_Body_update,
      member ''state'' dec_string fjp_State fjp_State_update, member ''merged'' dec_bool fjp_Merged fjp_Merged_update,
      member ''updated_at'' dec_time fjp_UpdatedAt fjp_UpdatedAt_update,
      member ''head'' (dec_single ''ref'') fjp_Head fjp_Head_update,
      member ''base'' (dec_single ''ref'') fjp_Base fjp_Base_update]"

definition fj_pull_model :: "fj_pull \<Rightarrow> pull_request" where
  "fj_pull_model p = \<lparr>p_ID = fjp_ID p, p_Index = (if fjp_Number p \<le> 0 then fjp_LegacyIndex p else fjp_Number p),
     p_Title = fjp_Title p, p_Body = fjp_Body p, p_State = fjp_State p, p_Head = fjp_Head p, p_Base = fjp_Base p,
     p_Draft = False, p_Merged = fjp_Merged p, p_UpdatedAt = fjp_UpdatedAt p\<rparr>"

record fj_comment =
  fjc_ID :: int
  fjc_Body :: string
  fjc_UpdatedAt :: time

definition fj_comment_zero :: fj_comment where
  "fj_comment_zero = \<lparr>fjc_ID = 0, fjc_Body = [], fjc_UpdatedAt = time_zero\<rparr>"

definition fj_comment_decoder :: "fj_comment decoder" where
  "fj_comment_decoder = dec_struct
     [member ''id'' dec_int fjc_ID fjc_ID_update, member ''body'' dec_string fjc_Body fjc_Body_update,
      member ''updated_at'' dec_time fjc_UpdatedAt fjc_UpdatedAt_update]"

definition fj_comment_model :: "int \<Rightarrow> fj_comment \<Rightarrow> comment" where
  "fj_comment_model issueID c =
     \<lparr>c_ID = fjc_ID c, c_IssueID = issueID, c_Body = fjc_Body c, c_UpdatedAt = fjc_UpdatedAt c\<rparr>"

record fj_asset =
  fja_ID :: int
  fja_Name :: string
  fja_Size :: int

definition fj_asset_decoder :: "fj_asset decoder" where
  "fj_asset_decoder = dec_struct
     [member ''id'' dec_int fja_ID fja_ID_update, member ''name'' dec_string fja_Name fja_Name_update,
      member ''size'' dec_int fja_Size fja_Size_update]"

record fj_release =
  fjl_ID :: int
  fjl_TagName :: string
  fjl_Name :: string
  fjl_Body :: string
  fjl_Draft :: bool
  fjl_Prerelease :: bool
  fjl_CreatedAt :: time
  fjl_Assets :: "fj_asset list"

definition fj_release_zero :: fj_release where
  "fj_release_zero = \<lparr>fjl_ID = 0, fjl_TagName = [], fjl_Name = [], fjl_Body = [], fjl_Draft = False,
     fjl_Prerelease = False, fjl_CreatedAt = time_zero, fjl_Assets = []\<rparr>"

definition fj_release_decoder :: "fj_release decoder" where
  "fj_release_decoder = dec_struct
     [member ''id'' dec_int fjl_ID fjl_ID_update, member ''tag_name'' dec_string fjl_TagName fjl_TagName_update,
      member ''name'' dec_string fjl_Name fjl_Name_update, member ''body'' dec_string fjl_Body fjl_Body_update,
      member ''draft'' dec_bool fjl_Draft fjl_Draft_update,
      member ''prerelease'' dec_bool fjl_Prerelease fjl_Prerelease_update,
      member ''created_at'' dec_time fjl_CreatedAt fjl_CreatedAt_update,
      member ''attachments'' (dec_slice fj_asset_decoder \<lparr>fja_ID = 0, fja_Name = [], fja_Size = 0\<rparr>) fjl_Assets fjl_Assets_update]"

definition fj_release_model :: "fj_release \<Rightarrow> release" where
  "fj_release_model r = \<lparr>l_ID = fjl_ID r, l_Tag = fjl_TagName r, l_Name = fjl_Name r, l_Body = fjl_Body r,
     l_Draft = fjl_Draft r, l_Prerelease = fjl_Prerelease r, l_CreatedAt = fjl_CreatedAt r,
     l_Assets = map (\<lambda>a. \<lparr>a_ID = fja_ID a, a_Name = fja_Name a, a_Size = fja_Size a\<rparr>) (fjl_Assets r)\<rparr>"

record fj_repository =
  fjr_ID :: int
  fjr_Name :: string
  fjr_FullName :: string
  fjr_CloneURL :: string
  fjr_DefaultBranch :: string
  fjr_Private :: bool
  fjr_Internal :: bool
  fjr_Archived :: bool
  fjr_UpdatedAt :: time
  fjr_Owner :: string

definition fj_repository_zero :: fj_repository where
  "fj_repository_zero = \<lparr>fjr_ID = 0, fjr_Name = [], fjr_FullName = [], fjr_CloneURL = [], fjr_DefaultBranch = [],
     fjr_Private = False, fjr_Internal = False, fjr_Archived = False, fjr_UpdatedAt = time_zero, fjr_Owner = []\<rparr>"

definition fj_repository_decoder :: "fj_repository decoder" where
  "fj_repository_decoder = dec_struct
     [member ''id'' dec_int fjr_ID fjr_ID_update, member ''name'' dec_string fjr_Name fjr_Name_update,
      member ''full_name'' dec_string fjr_FullName fjr_FullName_update,
      member ''clone_url'' dec_string fjr_CloneURL fjr_CloneURL_update,
      member ''default_branch'' dec_string fjr_DefaultBranch fjr_DefaultBranch_update,
      member ''private'' dec_bool fjr_Private fjr_Private_update,
      member ''internal'' dec_bool fjr_Internal fjr_Internal_update,
      member ''archived'' dec_bool fjr_Archived fjr_Archived_update,
      member ''updated_at'' dec_time fjr_UpdatedAt fjr_UpdatedAt_update,
      member ''owner'' (dec_single ''login'') fjr_Owner fjr_Owner_update]"

definition fj_repository_model :: "fj_repository \<Rightarrow> repository" where
  "fj_repository_model r =
     \<lparr>r_ID = fjr_ID r, r_Owner = owner_or_prefix (fjr_Owner r) (fjr_FullName r), r_Name = fjr_Name r,
      r_FullName = fjr_FullName r, r_CloneURL = fjr_CloneURL r, r_DefaultBranch = fjr_DefaultBranch r,
      r_Visibility = (if fjr_Private r then VisibilityPrivate
        else if fjr_Internal r then VisibilityInternal else VisibilityPublic),
      r_Archived = fjr_Archived r, r_SizeKB = 0, r_UpdatedAt = fjr_UpdatedAt r\<rparr>"

end
