(* ===== verification/ForgejoOperations.thy ===== *)
theory ForgejoOperations
  imports ForgejoClient
begin

text \<open>
  The operations of \<open>internal/forgejo/client.go\<close>: listings, objects, migration, the identity and
  settings of a repository, secrets and webhooks; then the client behind the interfaces of the
  reconcilers.
\<close>

section \<open>Repositories\<close>

text \<open>\<open>strings.Split(s, sep)[0]\<close>.\<close>

fun before_sep :: "string \<Rightarrow> string \<Rightarrow> string" where
  "before_sep sep [] = []"
| "before_sep sep (c # cs) = (if HasPrefix (c # cs) sep then [] else c # before_sep sep cs)"

definition repositories_endpoint :: "'w forgejo_client \<Rightarrow> string \<Rightarrow> int \<Rightarrow> string" where
  "repositories_endpoint C path page =
     (let separator = (if Contains path ''?'' then ''&'' else ''?''); endpoint = fc_baseURL C @ path
      in if page > 1 then before_sep ''&page='' endpoint @ separator @ ''page='' @ FormatInt page else endpoint)"

text \<open>With the status of the last reply, or 0 after too many pages.\<close>

definition fj_listRepositories :: "'w forgejo_client \<Rightarrow> string \<Rightarrow> ('w forgejo_net, fj_repository list) prog" where
  "fj_listRepositories C path =
     fj_pages (\<lambda>page. doJSON C ''GET'' (repositories_endpoint C path page) None
         (fj_into C (dec_slice fj_repository_decoder fj_repository_zero) []))
       fjr_ID True (\<lambda>acc. bnd (set_status 0) (\<lambda>_. too_many [] acc)) 1000 1 0 []"

definition fj_ListRepositories :: "'w forgejo_client \<Rightarrow> string \<Rightarrow> ('w forgejo_net, repository list) prog" where
  "fj_ListRepositories C namespace =
     (if namespace = [] then throw (Err ''Forgejo namespace is empty'')
      else tryE (fj_listRepositories C (''/api/v1/orgs/'' @ PathEscape namespace @ ''/repos?limit=50&page=1'')) (\<lambda>r s.
        bnd (wrapE (''list Forgejo repositories for '' @ namespace)
              (case r of
                 Inl e \<Rightarrow> if fn_status s = 404
                     then fj_listRepositories C (''/api/v1/users/'' @ PathEscape namespace @ ''/repos?limit=50&page=1'')
                     else throw e
               | Inr repos \<Rightarrow> ret repos)) (\<lambda>repos.
        ret (map fj_repository_model repos)) s))"

definition adoptMigrated ::
  "'w forgejo_client \<Rightarrow> call_context \<Rightarrow> string \<Rightarrow> string \<Rightarrow> ('w forgejo_net, repository) prog" where
  "adoptMigrated C ctx owner name =
     bnd (wrapE (''adopt migrated repository '' @ owner @ ''/'' @ name)
       (doJSONWith C ctx (fc_timeout C) ''GET'' (fj_repo C owner name '''') None
         (fj_into C fj_repository_decoder fj_repository_zero))) (\<lambda>existing.
     ret (fj_repository_model existing))"

definition migrate_payload :: "repository \<Rightarrow> string \<Rightarrow> json" where
  "migrate_payload source githubToken = json_map
     [(''clone_addr'', JStr (r_CloneURL source)), (''repo_owner'', JStr (r_Owner source)), (''repo_name'', JStr (r_Name source)),
      (''service'', JStr ''github''), (''auth_token'', JStr githubToken),
      (''private'', JBool (r_Visibility source \<noteq> VisibilityPublic)), (''mirror'', JBool False), (''issues'', JBool True),
      (''labels'', JBool True), (''milestones'', JBool True), (''pull_requests'', JBool True), (''releases'', JBool True),
      (''wiki'', JBool True)]"

definition fj_MigrateRepository :: "'w forgejo_client \<Rightarrow> repository \<Rightarrow> string \<Rightarrow> ('w forgejo_net, repository) prog" where
  "fj_MigrateRepository C source githubToken =
     (if r_Owner source = [] \<or> r_Name source = [] \<or> r_CloneURL source = []
      then throw (Err ''source repository is incomplete'')
      else bnd (fj_now C) (\<lambda>now.
        let migrateCtx = Some (now + fc_migrateTimeout C);
            migratePolicy = (\<lambda>ctx. (fc_Retry C ctx)\<lparr>NetworkRetry := True\<rparr>) in
        tryE (doJSONWithPolicy C migrateCtx 0 migratePolicy ''POST'' (fc_baseURL C @ ''/api/v1/repos/migrate'')
                (Some (migrate_payload source githubToken)) (fj_into C fj_repository_decoder fj_repository_zero)) (\<lambda>res.
        case res of
          Inr created \<Rightarrow> ret (fj_repository_model created)
        | Inl e \<Rightarrow> (case as_forgejo e of
              Some a \<Rightarrow> if fae_StatusCode a = 409 then adoptMigrated C migrateCtx (r_Owner source) (r_Name source)
                else throw (Wrap (''migrate '' @ r_FullName source) e)
            | None \<Rightarrow> throw (Wrap (''migrate '' @ r_FullName source) e)))))"

definition fj_UpdateRepositoryIdentity ::
  "'w forgejo_client \<Rightarrow> string \<Rightarrow> string \<Rightarrow> string \<Rightarrow> string \<Rightarrow> ('w forgejo_net, unit) prog" where
  "fj_UpdateRepositoryIdentity C oldOwner oldName newOwner newName =
     (if oldOwner = [] \<or> oldName = [] \<or> newOwner = [] \<or> newName = []
      then throw (Err ''repository identity is incomplete'')
      else bnd (whenE (oldOwner \<noteq> newOwner) (wrapE ''transfer Forgejo repository''
             (doJSON C ''POST'' (fj_repo C oldOwner oldName ''/transfer'')
               (Some (json_map [(''new_owner'', JStr newOwner)])) fj_discard))) (\<lambda>_.
           let owner = (if oldOwner \<noteq> newOwner then newOwner else oldOwner) in
           whenE (oldName \<noteq> newName) (wrapE ''rename Forgejo repository''
             (doJSON C ''PATCH'' (fj_repo C owner oldName '''') (Some (json_map [(''name'', JStr newName)])) fj_discard))))"

definition fj_UpdateRepositorySettings :: "'w forgejo_client \<Rightarrow> repository \<Rightarrow> ('w forgejo_net, unit) prog" where
  "fj_UpdateRepositorySettings C r =
     (if r_Owner r = [] \<or> r_Name r = [] then throw (Err ''repository identity is incomplete'')
      else wrapE ''update Forgejo repository settings''
        (doJSON C ''PATCH'' (fj_repo C (r_Owner r) (r_Name r) '''')
          (Some (json_map [(''private'', JBool (r_Visibility r \<noteq> VisibilityPublic)), (''archived'', JBool (r_Archived r))]))
          fj_discard))"

section \<open>Issues\<close>

definition fj_ListIssues :: "'w forgejo_client \<Rightarrow> string \<Rightarrow> string \<Rightarrow> ('w forgejo_net, issue list) prog" where
  "fj_ListIssues C owner name =
     bnd (fj_listing C fj_issue_decoder fj_issue_zero fji_ID ''issue ''
       (fj_repo C owner name ''/issues?state=all&type=issues&limit=50'')) (\<lambda>items.
     ret (map fj_issue_model (filter (\<lambda>i. \<not> fji_PullRequest i) items)))"

definition fj_ensureLabels :: "'w forgejo_client \<Rightarrow> string \<Rightarrow> string \<Rightarrow> string list \<Rightarrow> ('w forgejo_net, int list) prog" where
  "fj_ensureLabels C owner name names =
     (let root = fj_repo C owner name ''/labels'' in
      bnd (doJSON C ''GET'' (root @ ''?limit=50&page=1'') None (fj_into C (dec_slice fj_label_decoder (0, [])) [])) (\<lambda>existing.
      bnd (foldE (\<lambda>label (byName, result).
             case map_of byName label of
               Some i \<Rightarrow> ret (byName, result @ [i])
             | None \<Rightarrow>
                 bnd (doJSON C ''POST'' root (Some (json_map [(''name'', JStr label), (''color'', JStr ''#ededed'')]))
                   (fj_into C fj_label_decoder (0, []))) (\<lambda>created.
                 ret ((label, fst created) # byName, result @ [fst created])))
           names (rev (map (\<lambda>(i, n). (n, i)) existing), [])) (\<lambda>(_, result).
      ret result)))"

definition fj_ensureMilestone :: "'w forgejo_client \<Rightarrow> string \<Rightarrow> string \<Rightarrow> string \<Rightarrow> ('w forgejo_net, int) prog" where
  "fj_ensureMilestone C owner name title =
     (let root = fj_repo C owner name ''/milestones'' in
      bnd (doJSON C ''GET'' (root @ ''?state=all&limit=50&page=1'') None
        (fj_into C (dec_slice fj_milestone_decoder (0, [])) [])) (\<lambda>existing.
      case List.find (\<lambda>m. snd m = title) existing of
        Some m \<Rightarrow> ret (fst m)
      | None \<Rightarrow>
          bnd (doJSON C ''POST'' root (Some (json_map [(''title'', JStr title), (''state'', JStr ''open'')]))
            (fj_into C fj_milestone_decoder (0, []))) (\<lambda>created. ret (fst created))))"

definition fj_issuePayload ::
  "'w forgejo_client \<Rightarrow> string \<Rightarrow> string \<Rightarrow> issue \<Rightarrow> bool \<Rightarrow> ('w forgejo_net, (string \<times> json) list \<times> int list) prog" where
  "fj_issuePayload C owner name source create =
     (if i_Title source = [] \<or> (i_State source \<noteq> ''open'' \<and> i_State source \<noteq> ''closed'')
      then throw (Err ''issue title or state is invalid'')
      else
        bnd (fj_ensureLabels C owner name (i_Labels source)) (\<lambda>labelIDs.
        bnd (if i_Milestone source \<noteq> [] then fj_ensureMilestone C owner name (i_Milestone source) else ret 0) (\<lambda>milestone.
        ret ([(''title'', JStr (i_Title source)), (''body'', JStr (i_Body source)),
              (if create then (''closed'', JBool (i_State source = ''closed'')) else (''state'', JStr (i_State source))),
              (''milestone'', json_int milestone)], labelIDs))))"

definition label_ids_json :: "int list \<Rightarrow> json" where
  "label_ids_json ids = JArr (map json_int ids)"

definition fj_CreateIssue :: "'w forgejo_client \<Rightarrow> string \<Rightarrow> string \<Rightarrow> issue \<Rightarrow> ('w forgejo_net, issue) prog" where
  "fj_CreateIssue C owner name source =
     bnd (fj_issuePayload C owner name source True) (\<lambda>(payload, labelIDs).
     bnd (doJSON C ''POST'' (fj_repo C owner name ''/issues'')
       (Some (json_map (payload @ [(''labels'', label_ids_json labelIDs)]))) (fj_into C fj_issue_decoder fj_issue_zero)) (\<lambda>i.
     ret (fj_issue_model i)))"

text \<open>The labels of the result: \<open>source.Labels[i]\<close> for each index of the identifiers. \<open>None\<close> is the panic of
  an index out of range, which the lemma \<open>labels_in_range\<close> excludes.\<close>

definition labels_at :: "int list \<Rightarrow> string list \<Rightarrow> (int \<times> string) list option" where
  "labels_at ids names = (if length names < length ids then None
     else Some (map (\<lambda>i. (ids ! i, names ! i)) [0..<length ids]))"

definition fj_UpdateIssue :: "'w forgejo_client \<Rightarrow> string \<Rightarrow> string \<Rightarrow> int \<Rightarrow> issue \<Rightarrow> ('w forgejo_net, issue) prog" where
  "fj_UpdateIssue C owner name index source =
     bnd (fj_issuePayload C owner name source False) (\<lambda>(payload, labelIDs).
     let root = fj_repo C owner name (''/issues/'' @ FormatInt index) in
     bnd (doJSON C ''PATCH'' root (Some (json_map payload)) (fj_into C fj_issue_decoder fj_issue_zero)) (\<lambda>updated.
     bnd (doJSON C ''PUT'' (root @ ''/labels'') (Some (json_map [(''labels'', label_ids_json labelIDs)])) fj_discard) (\<lambda>_.
     case labels_at labelIDs (i_Labels source) of
       None \<Rightarrow> throw (Err ''runtime error: index out of range'')
     | Some labels \<Rightarrow> ret (fj_issue_model (updated\<lparr>fji_Labels := labels\<rparr>)))))"

section \<open>Secrets\<close>

definition fj_SetActionSecret :: "'w forgejo_client \<Rightarrow> string \<Rightarrow> string \<Rightarrow> string \<Rightarrow> string \<Rightarrow> ('w forgejo_net, unit) prog" where
  "fj_SetActionSecret C owner name secretName v =
     (if owner = [] \<or> name = [] \<or> secretName = [] \<or> v = []
      then throw (Err ''action secret identity or value is empty'')
      else wrapE (''set Forgejo action secret '' @ Quote secretName)
        (doJSON C ''PUT'' (fj_repo C owner name (''/actions/secrets/'' @ PathEscape secretName))
          (Some (json_map [(''name'', JStr secretName), (''data'', JStr v)])) fj_discard))"

section \<open>Pull requests\<close>

text \<open>A 404 on the first page is the empty list of a repository without git data.\<close>

definition fj_pulls_page :: "'w forgejo_client \<Rightarrow> string \<Rightarrow> int \<Rightarrow> ('w forgejo_net, fj_pull list) prog" where
  "fj_pulls_page C base page =
     tryE (fj_fetch C fj_pull_decoder fj_pull_zero base page) (\<lambda>res.
     case res of
       Inr batch \<Rightarrow> ret batch
     | Inl e \<Rightarrow> (case as_forgejo e of
           Some a \<Rightarrow> if fae_StatusCode a = 404 \<and> page = 1 then ret [] else throw e
         | None \<Rightarrow> throw e))"

definition fj_ListPullRequests :: "'w forgejo_client \<Rightarrow> string \<Rightarrow> string \<Rightarrow> ('w forgejo_net, pull_request list) prog" where
  "fj_ListPullRequests C owner name =
     bnd (fj_pages (fj_pulls_page C (fj_repo C owner name ''/pulls?state=all&limit=50'')) fjp_ID True
       (too_many ''pull request '') 1000 1 0 []) (\<lambda>items. ret (map fj_pull_model items))"

definition fj_FindPullRequestByHead ::
  "'w forgejo_client \<Rightarrow> string \<Rightarrow> string \<Rightarrow> string \<Rightarrow> ('w forgejo_net, pull_request option) prog" where
  "fj_FindPullRequestByHead C owner name headRef =
     bnd (fj_ListPullRequests C owner name) (\<lambda>items. ret (List.find (\<lambda>p. p_Head p = headRef) items))"

definition fj_pullRequestPayload :: "pull_request \<Rightarrow> bool \<Rightarrow> go_error + json" where
  "fj_pullRequestPayload source create =
     (if pull_source_invalid source
      then Inl (Err ''pull request title, state, head, or base is invalid'')
      else Inr (json_map ([(''title'', JStr (p_Title source)), (''body'', JStr (p_Body source))]
        @ (if create then [(''head'', JStr (p_Head source)), (''base'', JStr (p_Base source))]
           else [(''state'', JStr (p_State source))]))))"

definition fj_write_pull ::
  "'w forgejo_client \<Rightarrow> string \<Rightarrow> string \<Rightarrow> pull_request \<Rightarrow> bool \<Rightarrow> ('w forgejo_net, pull_request) prog" where
  "fj_write_pull C method endpoint source create =
     bnd (of_sum (fj_pullRequestPayload source create)) (\<lambda>payload.
     bnd (doJSON C method endpoint (Some payload) (fj_into C fj_pull_decoder fj_pull_zero)) (\<lambda>p.
     ret (fj_pull_model p)))"

definition fj_CreatePullRequest ::
  "'w forgejo_client \<Rightarrow> string \<Rightarrow> string \<Rightarrow> pull_request \<Rightarrow> ('w forgejo_net, pull_request) prog" where
  "fj_CreatePullRequest C owner name source =
     fj_write_pull C ''POST'' (fj_repo C owner name ''/pulls'') source True"

definition fj_UpdatePullRequest ::
  "'w forgejo_client \<Rightarrow> string \<Rightarrow> string \<Rightarrow> int \<Rightarrow> pull_request \<Rightarrow> ('w forgejo_net, pull_request) prog" where
  "fj_UpdatePullRequest C owner name index source =
     fj_write_pull C ''PATCH'' (fj_repo C owner name (''/pulls/'' @ FormatInt index)) source False"

section \<open>Comments\<close>

text \<open>The base of this listing ends with the first query parameter.\<close>

definition fj_ListComments :: "'w forgejo_client \<Rightarrow> string \<Rightarrow> string \<Rightarrow> int \<Rightarrow> ('w forgejo_net, comment list) prog" where
  "fj_ListComments C owner name issueIndex =
     bnd (fj_listing C fj_comment_decoder fj_comment_zero fjc_ID ''comment ''
       (fj_repo C owner name (''/issues/'' @ FormatInt issueIndex @ ''/comments?limit=50''))) (\<lambda>items.
     ret (map (fj_comment_model issueIndex) items))"

definition fj_CreateComment :: "'w forgejo_client \<Rightarrow> string \<Rightarrow> string \<Rightarrow> int \<Rightarrow> comment \<Rightarrow> ('w forgejo_net, comment) prog" where
  "fj_CreateComment C owner name issueIndex source =
     bnd (doJSON C ''POST'' (fj_repo C owner name (''/issues/'' @ FormatInt issueIndex @ ''/comments''))
       (Some (comment_payload source)) (fj_into C fj_comment_decoder fj_comment_zero)) (\<lambda>c.
     ret (fj_comment_model issueIndex c))"

definition fj_UpdateComment :: "'w forgejo_client \<Rightarrow> string \<Rightarrow> string \<Rightarrow> int \<Rightarrow> comment \<Rightarrow> ('w forgejo_net, comment) prog" where
  "fj_UpdateComment C owner name commentID source =
     bnd (doJSON C ''PATCH'' (fj_repo C owner name (''/issues/comments/'' @ FormatInt commentID))
       (Some (comment_payload source)) (fj_into C fj_comment_decoder fj_comment_zero)) (\<lambda>c.
     ret (fj_comment_model (c_IssueID source) c))"

section \<open>Releases and their assets\<close>

definition fj_ListReleases :: "'w forgejo_client \<Rightarrow> string \<Rightarrow> string \<Rightarrow> ('w forgejo_net, release list) prog" where
  "fj_ListReleases C owner name =
     bnd (fj_listing C fj_release_decoder fj_release_zero fjl_ID ''release ''
       (fj_repo C owner name ''/releases?limit=50'')) (\<lambda>items. ret (map fj_release_model items))"

definition fj_releasePayload :: "release \<Rightarrow> (string \<times> json) list" where
  "fj_releasePayload r = [(''tag_name'', JStr (l_Tag r)), (''name'', JStr (l_Name r)), (''body'', JStr (l_Body r)),
     (''draft'', JBool (l_Draft r)), (''prerelease'', JBool (l_Prerelease r)), (''hide_archive_links'', JBool False)]"

definition fj_CreateRelease :: "'w forgejo_client \<Rightarrow> string \<Rightarrow> string \<Rightarrow> release \<Rightarrow> ('w forgejo_net, release) prog" where
  "fj_CreateRelease C owner name source =
     bnd (doJSON C ''POST'' (fj_repo C owner name ''/releases'') (Some (json_map (fj_releasePayload source)))
       (fj_into C fj_release_decoder fj_release_zero)) (\<lambda>r. ret (fj_release_model r))"

definition fj_UpdateRelease :: "'w forgejo_client \<Rightarrow> string \<Rightarrow> string \<Rightarrow> int \<Rightarrow> release \<Rightarrow> ('w forgejo_net, release) prog" where
  "fj_UpdateRelease C owner name i source =
     bnd (doJSON C ''PATCH'' (fj_repo C owner name (''/releases/'' @ FormatInt i))
       (Some (json_map (filter (\<lambda>kv. fst kv \<noteq> ''tag_name'') (fj_releasePayload source))))
       (fj_into C fj_release_decoder fj_release_zero)) (\<lambda>r. ret (fj_release_model r))"

definition fj_DownloadReleaseAsset ::
  "'w forgejo_client \<Rightarrow> string \<Rightarrow> string \<Rightarrow> int \<Rightarrow> int \<Rightarrow> ('w forgejo_net, string) prog" where
  "fj_DownloadReleaseAsset C owner name releaseID assetID =
     (let endpoint = fj_repo C owner name (''/releases/'' @ FormatInt releaseID @ ''/assets/'' @ FormatInt assetID) in
      fj_Do C None (fc_Retry C) (bnd (fj_net (client_Do (fc_net C) (fc_timeout C) None
          \<lparr>aq_Method = ''GET'', aq_URL = endpoint, aq_Header = fj_headers C ''application/octet-stream'', aq_Body = None\<rparr>)) (\<lambda>r.
        if \<not> success r then throw (fj_failure ''GET'' endpoint r)
        else of_sum (ReadAll (LimitReader maxResponseBody r)))))"

text \<open>\<open>multipart.Writer\<close> with one file; backslashes and quotes in its name are escaped.\<close>

definition crlf :: string where "crlf = [CHR 0x0D, CHR 0x0A]"

definition escapeQuotes :: "string \<Rightarrow> string" where
  "escapeQuotes s = concat (map (\<lambda>c. if c = backslash \<or> c = quote then [backslash, c] else [c]) s)"

definition multipart_body :: "string \<Rightarrow> string \<Rightarrow> string \<Rightarrow> string" where
  "multipart_body boundary assetName content =
     ''--'' @ boundary @ crlf
     @ ''Content-Disposition: form-data; name='' @ [quote] @ ''attachment'' @ [quote]
     @ ''; filename='' @ [quote] @ escapeQuotes assetName @ [quote] @ crlf
     @ ''Content-Type: application/octet-stream'' @ crlf @ crlf
     @ content @ crlf @ ''--'' @ boundary @ ''--'' @ crlf"

definition fj_UploadReleaseAsset ::
  "'w forgejo_client \<Rightarrow> string \<Rightarrow> string \<Rightarrow> int \<Rightarrow> string \<Rightarrow> string \<Rightarrow> ('w forgejo_net, unit) prog" where
  "fj_UploadReleaseAsset C owner name releaseID assetName content =
     (let endpoint = fj_repo C owner name (''/releases/'' @ FormatInt releaseID @ ''/assets?name='' @ QueryEscape assetName) in
      fj_Do C None (fc_Retry C) (
        bnd (fj_net (\<lambda>w. case fc_boundary C w of (b, w') \<Rightarrow> (Inr b, w'))) (\<lambda>boundary.
        bnd (fj_net (client_Do (fc_net C) (fc_timeout C) None
          \<lparr>aq_Method = ''POST'', aq_URL = endpoint,
           aq_Header = fj_headers C ''application/json'' @ [(''Content-Type'', ''multipart/form-data; boundary='' @ boundary)],
           aq_Body = Some (multipart_body boundary assetName content)\<rparr>)) (\<lambda>r.
        if \<not> success r then throw (fj_failure ''POST'' endpoint r) else ret ()))))"

section \<open>Webhooks\<close>

record fj_webhook =
  fjw_ID :: int
  fjw_Events :: "string list"
  fjw_Active :: bool
  fjw_URL :: string

definition fj_webhook_zero :: fj_webhook where
  "fj_webhook_zero = \<lparr>fjw_ID = 0, fjw_Events = [], fjw_Active = False, fjw_URL = []\<rparr>"

definition fj_webhook_decoder :: "fj_webhook decoder" where
  "fj_webhook_decoder = dec_struct
     [member ''id'' dec_int fjw_ID fjw_ID_update, member ''events'' (dec_slice dec_string []) fjw_Events fjw_Events_update,
      member ''active'' dec_bool fjw_Active fjw_Active_update, member ''config'' hook_config_decoder fjw_URL fjw_URL_update]"

definition fj_webhook_model :: "fj_webhook \<Rightarrow> hook" where
  "fj_webhook_model w = \<lparr>wh_ID = fjw_ID w, wh_URL = fjw_URL w, wh_Events = fjw_Events w, wh_Active = fjw_Active w\<rparr>"

text \<open>These two loops do not look for repeated pages, and end silently after 1000 pages.\<close>

definition fj_hook_pages :: "'w forgejo_client \<Rightarrow> string \<Rightarrow> ('w forgejo_net, fj_webhook list) prog" where
  "fj_hook_pages C base =
     fj_pages (fj_fetch C fj_webhook_decoder fj_webhook_zero base) fjw_ID False ret 1000 1 0 []"

definition fj_ListOrgWebhooks :: "'w forgejo_client \<Rightarrow> string \<Rightarrow> ('w forgejo_net, hook list option) prog" where
  "fj_ListOrgWebhooks C org =
     tryE (fj_hook_pages C (fc_baseURL C @ ''/api/v1/orgs/'' @ PathEscape org @ ''/hooks?limit=50'')) (\<lambda>res.
     case res of
       Inr hooks \<Rightarrow> ret (Some (map fj_webhook_model hooks))
     | Inl e \<Rightarrow> (case as_forgejo e of
           Some a \<Rightarrow> if fae_StatusCode a = 404 then ret None else throw (Wrap (''list Forgejo org webhooks for '' @ org) e)
         | None \<Rightarrow> throw (Wrap (''list Forgejo org webhooks for '' @ org) e)))"

definition fj_ListRepoWebhooks :: "'w forgejo_client \<Rightarrow> string \<Rightarrow> string \<Rightarrow> ('w forgejo_net, hook list) prog" where
  "fj_ListRepoWebhooks C owner name =
     bnd (wrapE (''list Forgejo webhooks for '' @ owner @ ''/'' @ name)
       (fj_hook_pages C (fj_repo C owner name ''/hooks?limit=50''))) (\<lambda>hooks. ret (map fj_webhook_model hooks))"

definition doWebhookWrite :: "'w forgejo_client \<Rightarrow> string \<Rightarrow> string \<Rightarrow> hook \<Rightarrow> string \<Rightarrow> ('w forgejo_net, unit) prog" where
  "doWebhookWrite C method endpoint hook secret =
     doJSON C method endpoint (Some (JObj [(''type'', JStr ''gitea''), (''config'', hook_config_json hook secret),
       (''events'', hook_events_json hook), (''active'', JBool (wh_Active hook))])) fj_discard"

definition fj_CreateOrgWebhook :: "'w forgejo_client \<Rightarrow> string \<Rightarrow> hook \<Rightarrow> string \<Rightarrow> ('w forgejo_net, unit) prog" where
  "fj_CreateOrgWebhook C org = doWebhookWrite C ''POST'' (fc_baseURL C @ ''/api/v1/orgs/'' @ PathEscape org @ ''/hooks'')"

definition fj_UpdateOrgWebhook :: "'w forgejo_client \<Rightarrow> string \<Rightarrow> int \<Rightarrow> hook \<Rightarrow> string \<Rightarrow> ('w forgejo_net, unit) prog" where
  "fj_UpdateOrgWebhook C org i =
     doWebhookWrite C ''PATCH'' (fc_baseURL C @ ''/api/v1/orgs/'' @ PathEscape org @ ''/hooks/'' @ FormatInt i)"

definition fj_CreateRepoWebhook ::
  "'w forgejo_client \<Rightarrow> string \<Rightarrow> string \<Rightarrow> hook \<Rightarrow> string \<Rightarrow> ('w forgejo_net, unit) prog" where
  "fj_CreateRepoWebhook C owner name = doWebhookWrite C ''POST'' (fj_repo C owner name ''/hooks'')"

definition fj_UpdateRepoWebhook ::
  "'w forgejo_client \<Rightarrow> string \<Rightarrow> string \<Rightarrow> int \<Rightarrow> hook \<Rightarrow> string \<Rightarrow> ('w forgejo_net, unit) prog" where
  "fj_UpdateRepoWebhook C owner name i = doWebhookWrite C ''PATCH'' (fj_repo C owner name (''/hooks/'' @ FormatInt i))"

section \<open>The client behind the interfaces of the reconcilers\<close>

definition fj_issue_forge :: "'w forgejo_client \<Rightarrow> 'w forgejo_net issue_forge" where
  "fj_issue_forge C = \<lparr>ListIssues = fj_ListIssues C, CreateIssue = fj_CreateIssue C, UpdateIssue = fj_UpdateIssue C\<rparr>"

definition fj_pull_forge :: "'w forgejo_client \<Rightarrow> 'w forgejo_net pull_forge" where
  "fj_pull_forge C = \<lparr>ListPullRequests = fj_ListPullRequests C, FindPullRequestByHead = fj_FindPullRequestByHead C,
     CreatePullRequest = fj_CreatePullRequest C, UpdatePullRequest = fj_UpdatePullRequest C\<rparr>"

definition fj_comment_forge :: "'w forgejo_client \<Rightarrow> 'w forgejo_net comment_forge" where
  "fj_comment_forge C = \<lparr>ListComments = fj_ListComments C, CreateComment = fj_CreateComment C, UpdateComment = fj_UpdateComment C\<rparr>"

definition fj_release_forge :: "'w forgejo_client \<Rightarrow> 'w forgejo_net release_forge" where
  "fj_release_forge C = \<lparr>ListReleases = fj_ListReleases C, CreateRelease = fj_CreateRelease C, UpdateRelease = fj_UpdateRelease C,
     DownloadReleaseAsset = fj_DownloadReleaseAsset C, UploadReleaseAsset = fj_UploadReleaseAsset C\<rparr>"

definition fj_discovery :: "'w forgejo_client \<Rightarrow> 'w forgejo_net discovery_forgejo" where
  "fj_discovery C = \<lparr>df_ListRepositories = fj_ListRepositories C, MigrateRepository = fj_MigrateRepository C,
     UpdateRepositoryIdentity = fj_UpdateRepositoryIdentity C, UpdateRepositorySettings = fj_UpdateRepositorySettings C\<rparr>"

definition fj_wire_forge :: "'w forgejo_client \<Rightarrow> 'w forgejo_net wire_forge" where
  "fj_wire_forge C = \<lparr>ListOrgWebhooks = fj_ListOrgWebhooks C, CreateOrgWebhook = fj_CreateOrgWebhook C,
     UpdateOrgWebhook = fj_UpdateOrgWebhook C, ListRepoWebhooks = fj_ListRepoWebhooks C,
     CreateRepoWebhook = fj_CreateRepoWebhook C, UpdateRepoWebhook = fj_UpdateRepoWebhook C,
     wf_ListRepositories = fj_ListRepositories C\<rparr>"

end
