(* ===== verification/ForgejoProperties.thy ===== *)
theory ForgejoProperties
  imports ForgejoOperations
begin

text \<open>
  Properties of the Forgejo client: its listings against servers that page, the URLs of secrets,
  migrations of private repositories, reading operations, and what is read back after writing.
\<close>

section \<open>Listings against a server\<close>

text \<open>The page \<open>k\<close> of a list: fifty items, or fewer at the end. A server answers a page past the
  end with nothing, or with the last page again.\<close>

definition page_of :: "'a list \<Rightarrow> nat \<Rightarrow> 'a list" where
  "page_of L k = take 50 (drop (50 * k) L)"

definition serves :: "(int \<Rightarrow> ('s, 'a list) prog) \<Rightarrow> 'a list \<Rightarrow> bool" where
  "serves fetch L \<longleftrightarrow> (\<forall>k s. \<exists>t. fetch (int k + 1) s = (Inr (page_of L k), t)
     \<or> (L \<noteq> [] \<and> length L \<le> 50 * k \<and> fetch (int k + 1) s = (Inr (page_of L ((length L - 1) div 50)), t)))"

lemma page_of_split: "take (50 * k) L @ page_of L k = take (50 * Suc k) L"
  by (simp add: page_of_def take_add [symmetric] add.commute)

lemma page_of_full: "50 * Suc k \<le> length L \<Longrightarrow> length (page_of L k) = 50"
  by (simp add: page_of_def)

lemma page_of_hd: "50 * k < length L \<Longrightarrow> page_of L k \<noteq> [] \<and> hd (page_of L k) = L ! (50 * k)"
  by (simp add: page_of_def hd_drop_conv_nth)

lemma distinct_idents:
  "distinct (map f L) \<Longrightarrow> i < length L \<Longrightarrow> j < length L \<Longrightarrow> i \<noteq> j \<Longrightarrow> f (L ! i) \<noteq> f (L ! j)"
  by (auto simp: distinct_conv_nth)

text \<open>A page that starts inside the list does not start with the first entry of the page before.\<close>

lemma fresh_page:
  assumes "distinct (map ident L)" and "0 \<notin> ident ` set L" and lt: "50 * k < length L"
    and prev: "prev = (if k = 0 then 0 else ident (L ! (50 * (k - 1))))"
  shows "ident (L ! (50 * k)) \<noteq> prev"
proof (cases "k = 0")
  case True
  have "L ! (50 * k) \<in> set L" using lt by simp
  with assms(2) prev True show ?thesis by (metis image_eqI)
next
  case False
  then have "50 * (k - 1) \<noteq> 50 * k" and "50 * (k - 1) < length L" using lt by auto
  with distinct_idents [OF assms(1)] lt have "ident (L ! (50 * (k - 1))) \<noteq> ident (L ! (50 * k))" by blast
  with False prev show ?thesis by simp
qed

lemma served_pages:
  assumes "serves fetch L" and "distinct (map ident L)" and "0 \<notin> ident ` set L"
    and "length L < 50 * (k + n)" and "50 * k \<le> length L"
    and "prev = (if k = 0 then 0 else ident (L ! (50 * (k - 1))))"
  shows "\<exists>t. fj_pages fetch ident True limit n (int k + 1) prev (take (50 * k) L) s = (Inr L, t)"
  using assms(4-)
proof (induction n arbitrary: k prev s)
  case 0
  then show ?case by simp
next
  case (Suc n)
  from assms(1) consider (honest) t where "fetch (int k + 1) s = (Inr (page_of L k), t)"
    | (clamped) t where "L \<noteq> []" "length L \<le> 50 * k" "fetch (int k + 1) s = (Inr (page_of L ((length L - 1) div 50)), t)"
    unfolding serves_def by blast
  moreover note fresh = fresh_page [OF assms(2,3) _ Suc.prems(3)]
  ultimately show ?case
  proof cases
    case honest
    consider (full) "50 * Suc k \<le> length L" | (short) "length L < 50 * Suc k" by linarith
    then show ?thesis
    proof cases
      case full
      then have hd: "page_of L k \<noteq> []" "hd (page_of L k) = L ! (50 * k)" using page_of_hd [of k L] by auto
      have "ident (L ! (50 * k)) \<noteq> prev" using fresh full by simp
      moreover have "\<exists>u. fj_pages fetch ident True limit n (int (Suc k) + 1) (ident (L ! (50 * k))) (take (50 * Suc k) L) t = (Inr L, u)"
        using Suc.prems(1) full by (intro Suc.IH) auto
      ultimately show ?thesis
        using honest hd page_of_full [OF full] page_of_split [of k L] by (simp add: bnd_app add.commute)
    next
      case short
      then have "length (page_of L k) < 50" by (auto simp: page_of_def)
      moreover have "take (50 * k) L @ page_of L k = L" using page_of_split [of k L] short by simp
      moreover have "ident (hd (page_of L k)) \<noteq> prev" if "page_of L k \<noteq> []"
      proof -
        from that have lt: "50 * k < length L" by (simp add: page_of_def)
        with fresh page_of_hd [of k L] show ?thesis by simp
      qed
      ultimately show ?thesis using honest by (auto simp: bnd_app ret_app)
    qed
  next
    case clamped
    with Suc.prems have len: "length L = 50 * k" by simp
    with clamped(1) have k: "k \<noteq> 0" by (cases k) auto
    then have last: "(length L - 1) div 50 = k - 1" using len by (auto simp: div_nat_eqI)
    have "page_of L (k - 1) \<noteq> []" "hd (page_of L (k - 1)) = L ! (50 * (k - 1))"
      using page_of_hd [of "k - 1" L] len k by auto
    with clamped last k Suc.prems(3) len show ?thesis by (simp add: bnd_app ret_app)
  qed
qed

lemma served_listing:
  assumes "serves fetch L" and "distinct (map ident L)" and "0 \<notin> ident ` set L" and "length L < 50000"
  shows "\<exists>t. fj_pages fetch ident True limit 1000 1 0 [] s = (Inr L, t)"
  using served_pages [OF assms(1-3), of 0 1000 0 limit s] assms(4) by simp

text \<open>C23: against a server that serves a list of issues in pages of fifty, with distinct nonzero IDs, the listing
  returns exactly the issues among them, once each and in order, also where the server answers
  a page past the end with the last page again.\<close>

theorem forgejo_issues_exact:
  assumes "serves (fj_fetch C fj_issue_decoder fj_issue_zero (fj_repo C owner name ''/issues?state=all&type=issues&limit=50'')) L"
    and "distinct (map fji_ID L)" and "0 \<notin> fji_ID ` set L" and "length L < 50000"
  shows "fst (fj_ListIssues C owner name s) = Inr (map fj_issue_model (filter (\<lambda>i. \<not> fji_PullRequest i) L))"
proof -
  obtain t where "fj_listing C fj_issue_decoder fj_issue_zero fji_ID ''issue ''
       (fj_repo C owner name ''/issues?state=all&type=issues&limit=50'') s = (Inr L, t)"
    using served_listing [OF assms] unfolding fj_listing_def by blast
  then show ?thesis by (simp add: fj_ListIssues_def bnd_app ret_app)
qed

section \<open>Endpoints\<close>

text \<open>the endpoint of a secret tells the repository and the name of the secret, whatever characters
  they have: two different secrets, or the same secret of two repositories, are never written to
  the same URL.\<close>

theorem secret_endpoint_unique:
  "fj_repo C o1 n1 (''/actions/secrets/'' @ PathEscape s1) = fj_repo C o2 n2 (''/actions/secrets/'' @ PathEscape s2)
   \<longleftrightarrow> o1 = o2 \<and> n1 = n2 \<and> s1 = s2"
  by (auto simp: fj_repo_def segments_inj)

section \<open>The network only matters where it is used\<close>

definition fj_on :: "(duration \<Rightarrow> call_context \<Rightarrow> api_request \<Rightarrow> ('w, api_reply) call) \<Rightarrow> 'w forgejo_client \<Rightarrow> 'w forgejo_client" where
  "fj_on D C = C\<lparr>fc_net := (fc_net C)\<lparr>hx_Do := D\<rparr>\<rparr>"

lemma fj_on_reads [simp]:
  "fj_now (fj_on D C) = fj_now C" "fj_sleep (fc_net (fj_on D C)) = fj_sleep (fc_net C)"
  "fc_timeout (fj_on D C) = fc_timeout C" "fc_token (fj_on D C) = fc_token C" "fc_baseURL (fj_on D C) = fc_baseURL C"
  "fc_paceInterval (fj_on D C) = fc_paceInterval C" "fc_Retry (fj_on D C) = fc_Retry C"
  "fc_migrateTimeout (fj_on D C) = fc_migrateTimeout C"
  "hx_ctxErr (fc_net (fj_on D C)) = hx_ctxErr (fc_net C)" "hx_jsonErr (fc_net (fj_on D C)) = hx_jsonErr (fc_net C)"
  by (simp_all add: fj_now_def fj_sleep_def [abs_def] fj_on_def)

lemma fj_on_defs [simp]:
  "fj_repo (fj_on D C) = fj_repo C" "fj_pace (fj_on D C) = fj_pace C" "fj_request_of (fj_on D C) = fj_request_of C"
  "fj_into (fj_on D C) = fj_into C"
  by (intro HOL.ext; simp only: fj_repo_def fj_pace_def fj_request_of_def fj_headers_def fj_into_def decode_body_def fj_on_reads)+

lemma fj_request_agrees:
  assumes "\<And>t x. D t x (fj_request_of C method endpoint body) = hx_Do (fc_net C) t x (fj_request_of C method endpoint body)"
  shows "doJSONWithPolicy (fj_on D C) ctx timeout policy method endpoint body destination
    = doJSONWithPolicy C ctx timeout policy method endpoint body destination"
proof -
  have "client_Do (fc_net (fj_on D C)) t x (fj_request_of C method endpoint body)
      = client_Do (fc_net C) t x (fj_request_of C method endpoint body)" for t x
    using assms by (simp add: client_Do_def fj_on_def split: option.split)
  then have "fj_request (fj_on D C) ctx timeout method endpoint body destination
      = fj_request C ctx timeout method endpoint body destination"
    unfolding fj_request_def fj_on_defs by simp
  then show ?thesis by (simp add: doJSONWithPolicy_def fj_Do_def)
qed

lemma gh_private_not_public:
  "ghr_Private w \<or> ghr_Visibility w \<noteq> ''public'' \<Longrightarrow> r_Visibility (gh_repository_model w) \<noteq> VisibilityPublic"
  by (auto simp: gh_repository_model_def)

text \<open>What a migration may send: reading requests, and a body whose member \<open>private\<close> is true.\<close>

definition asks_for_private :: "api_request \<Rightarrow> bool" where
  "asks_for_private rq \<longleftrightarrow> aq_Method rq = ''GET'' \<or>
     (\<exists>kvs. aq_Body rq = Some (Marshal (JObj kvs)) \<and> map_of kvs ''private'' = Some (JBool True))"

lemma migrate_payload_private:
  assumes "r_Visibility r \<noteq> VisibilityPublic"
  shows "\<exists>kvs. migrate_payload r tok = JObj kvs \<and> map_of kvs ''private'' = Some (JBool True)"
  using assms by (simp add: migrate_payload_def json_map_def less_eq_char_def less_char_def)

text \<open>C21: a repository that GitHub reports as private, or as anything but public, is migrated as private: every
  writing request that the migration sends asks for a private repository (a network
  that agrees on such requests and on reading ones cannot be told apart).\<close>

theorem private_stays_private:
  assumes "ghr_Private w \<or> ghr_Visibility w \<noteq> ''public''"
    and "r_Visibility r = r_Visibility (gh_repository_model w)"
    and "\<And>t x rq. asks_for_private rq \<Longrightarrow> D t x rq = hx_Do (fc_net C) t x rq"
  shows "fj_MigrateRepository (fj_on D C) r tok s = fj_MigrateRepository C r tok s"
proof -
  have "r_Visibility r \<noteq> VisibilityPublic" using gh_private_not_public [OF assms(1)] assms(2) by simp
  then obtain kvs where "migrate_payload r tok = JObj kvs" "map_of kvs ''private'' = Some (JBool True)"
    using migrate_payload_private by blast
  then have "asks_for_private (fj_request_of C ''POST'' e (Some (migrate_payload r tok)))" for e
    by (auto simp: asks_for_private_def fj_request_of_def)
  then have post: "doJSONWithPolicy (fj_on D C) ctx timeout policy ''POST'' e (Some (migrate_payload r tok)) (fj_into C fj_repository_decoder fj_repository_zero)
      = doJSONWithPolicy C ctx timeout policy ''POST'' e (Some (migrate_payload r tok)) (fj_into C fj_repository_decoder fj_repository_zero)"
    for ctx timeout policy e
    using assms(3) by (intro fj_request_agrees) blast
  have "asks_for_private (fj_request_of C ''GET'' e None)" for e
    by (simp add: asks_for_private_def fj_request_of_def)
  then have get: "doJSONWithPolicy (fj_on D C) ctx timeout policy ''GET'' e None (fj_into C fj_repository_decoder fj_repository_zero)
      = doJSONWithPolicy C ctx timeout policy ''GET'' e None (fj_into C fj_repository_decoder fj_repository_zero)"
    for ctx timeout policy e
    using assms(3) by (intro fj_request_agrees) blast
  have "adoptMigrated (fj_on D C) = adoptMigrated C"
    by (intro HOL.ext) (simp only: adoptMigrated_def doJSONWith_def fj_on_defs fj_on_reads get)
  with post show ?thesis
    by (simp only: fj_MigrateRepository_def fj_on_defs fj_on_reads)
qed

section \<open>Reading operations only read\<close>

definition agrees_on_get ::
  "(duration \<Rightarrow> call_context \<Rightarrow> api_request \<Rightarrow> ('w, api_reply) call) \<Rightarrow> 'w internet \<Rightarrow> bool" where
  "agrees_on_get D X \<longleftrightarrow> (\<forall>t x rq. aq_Method rq = ''GET'' \<longrightarrow> D t x rq = hx_Do X t x rq)"

lemma fj_get:
  assumes "agrees_on_get D (fc_net C)"
  shows "doJSON (fj_on D C) ''GET'' e None d = doJSON C ''GET'' e None d"
  unfolding doJSON_def doJSONWith_def fj_on_reads
  using assms by (intro fj_request_agrees) (simp add: agrees_on_get_def fj_request_of_def)

lemma fj_fetch_get: "agrees_on_get D (fc_net C) \<Longrightarrow> fj_fetch (fj_on D C) = fj_fetch C"
  by (intro HOL.ext) (simp add: fj_fetch_def fj_get)

lemma fj_reads:
  assumes "agrees_on_get D (fc_net C)"
  shows "fj_ListRepositories (fj_on D C) = fj_ListRepositories C" "fj_ListIssues (fj_on D C) = fj_ListIssues C"
    "fj_ListPullRequests (fj_on D C) = fj_ListPullRequests C" "fj_FindPullRequestByHead (fj_on D C) = fj_FindPullRequestByHead C"
    "fj_ListComments (fj_on D C) = fj_ListComments C" "fj_ListReleases (fj_on D C) = fj_ListReleases C"
    "fj_DownloadReleaseAsset (fj_on D C) = fj_DownloadReleaseAsset C"
    "fj_ListOrgWebhooks (fj_on D C) = fj_ListOrgWebhooks C" "fj_ListRepoWebhooks (fj_on D C) = fj_ListRepoWebhooks C"
proof -
  have "repositories_endpoint (fj_on D C) = repositories_endpoint C"
    by (intro HOL.ext) (simp only: repositories_endpoint_def fj_on_reads)
  then have "fj_listRepositories (fj_on D C) = fj_listRepositories C"
    by (intro HOL.ext) (simp only: fj_listRepositories_def fj_get [OF assms] fj_on_defs)
  then show "fj_ListRepositories (fj_on D C) = fj_ListRepositories C"
    by (intro HOL.ext) (simp only: fj_ListRepositories_def)
  show pulls: "fj_ListPullRequests (fj_on D C) = fj_ListPullRequests C"
    by (intro HOL.ext) (simp only: fj_ListPullRequests_def fj_pulls_page_def [abs_def] fj_fetch_get [OF assms] fj_on_defs)
  then show "fj_FindPullRequestByHead (fj_on D C) = fj_FindPullRequestByHead C"
    by (intro HOL.ext) (simp only: fj_FindPullRequestByHead_def)
  show "fj_ListIssues (fj_on D C) = fj_ListIssues C" "fj_ListComments (fj_on D C) = fj_ListComments C"
    "fj_ListReleases (fj_on D C) = fj_ListReleases C"
    by (intro HOL.ext; simp only: fj_ListIssues_def fj_ListComments_def fj_ListReleases_def fj_listing_def
        fj_fetch_get [OF assms] fj_on_defs)+
  show "fj_ListOrgWebhooks (fj_on D C) = fj_ListOrgWebhooks C" "fj_ListRepoWebhooks (fj_on D C) = fj_ListRepoWebhooks C"
    by (intro HOL.ext; simp only: fj_ListOrgWebhooks_def fj_ListRepoWebhooks_def fj_hook_pages_def
        fj_fetch_get [OF assms] fj_on_defs fj_on_reads)+
  have "client_Do (fc_net (fj_on D C)) t x \<lparr>aq_Method = ''GET'', aq_URL = e, aq_Header = h, aq_Body = None\<rparr>
      = client_Do (fc_net C) t x \<lparr>aq_Method = ''GET'', aq_URL = e, aq_Header = h, aq_Body = None\<rparr>" for t x e h
    using assms by (simp add: client_Do_def fj_on_def agrees_on_get_def split: option.split)
  then show "fj_DownloadReleaseAsset (fj_on D C) = fj_DownloadReleaseAsset C"
    by (intro HOL.ext) (simp only: fj_DownloadReleaseAsset_def fj_Do_def fj_headers_def fj_on_defs fj_on_reads)
qed

text \<open>The same for the GitHub client.\<close>

lemma gh_get:
  assumes "agrees_on_get D (gc_net C)"
  shows "gh_attempt (on_network D C) ''GET'' e None = gh_attempt C ''GET'' e None"
proof -
  have "client_Do (gc_net (on_network D C)) t x (gh_request_of C ''GET'' e None)
      = client_Do (gc_net C) t x (gh_request_of C ''GET'' e None)" for t x
    using assms by (simp add: client_Do_def on_network_def agrees_on_get_def gh_request_of_def split: option.split)
  then have "gh_request (on_network D C) ''GET'' e None = gh_request C ''GET'' e None"
    unfolding gh_request_def on_network_simps on_network_reads by simp
  then show ?thesis by (simp add: gh_attempt_def gh_Do_def) (simp add: on_network_def)
qed

lemma on_network_decodes: "decode_body (gc_net (on_network D C)) = decode_body (gc_net C)"
proof -
  have "hx_jsonErr (gc_net (on_network D C)) = hx_jsonErr (gc_net C)" by (simp add: on_network_def)
  then show ?thesis by (intro HOL.ext) (simp only: decode_body_def)
qed

lemma gh_pages_get:
  assumes "agrees_on_get D (gc_net C)"
  shows "gh_pages (on_network D C) d zero wrap limit n url acc = gh_pages C d zero wrap limit n url acc"
proof (induction n arbitrary: url acc)
  case 0
  show ?case by (simp add: gh_pages.simps [of _ _ _ _ _ 0])
next
  case (Suc n)
  show ?case
    by (simp only: gh_pages.simps [of _ _ _ _ _ "Suc n"] nat.case gh_get [OF assms] on_network_decodes Suc)
qed

lemma gh_reads:
  assumes "agrees_on_get D (gc_net C)"
  shows "gh_ListRepositories (on_network D C) = gh_ListRepositories C" "gh_ListIssues (on_network D C) = gh_ListIssues C"
    "gh_ListPullRequests (on_network D C) = gh_ListPullRequests C"
    "gh_FindPullRequestByHead (on_network D C) = gh_FindPullRequestByHead C"
    "gh_ListComments (on_network D C) = gh_ListComments C" "gh_ListReleases (on_network D C) = gh_ListReleases C"
    "gh_DownloadReleaseAsset (on_network D C) = gh_DownloadReleaseAsset C"
    "gh_ListOrgWebhooks (on_network D C) = gh_ListOrgWebhooks C" "gh_ListRepoWebhooks (on_network D C) = gh_ListRepoWebhooks C"
proof -
  have base: "gc_baseURL (on_network D C) = gc_baseURL C" by (simp add: on_network_def)
  have repo: "gh_repo (on_network D C) = gh_repo C"
    by (intro HOL.ext) (simp only: gh_repo_def base)
  have dec: "gh_decode (on_network D C) = gh_decode C"
    by (intro HOL.ext) (simp only: gh_decode_def on_network_decodes)
  note same = gh_listing_def gh_pages_get [OF assms] gh_get [OF assms] repo base dec
  show "gh_ListRepositories (on_network D C) = gh_ListRepositories C" "gh_ListIssues (on_network D C) = gh_ListIssues C"
    "gh_ListPullRequests (on_network D C) = gh_ListPullRequests C"
    "gh_FindPullRequestByHead (on_network D C) = gh_FindPullRequestByHead C"
    "gh_ListComments (on_network D C) = gh_ListComments C" "gh_ListReleases (on_network D C) = gh_ListReleases C"
    "gh_ListOrgWebhooks (on_network D C) = gh_ListOrgWebhooks C" "gh_ListRepoWebhooks (on_network D C) = gh_ListRepoWebhooks C"
    by (intro HOL.ext; simp only: gh_ListRepositories_def gh_getAll_def gh_ListIssues_def gh_ListPullRequests_def
        gh_FindPullRequestByHead_def gh_ListComments_def gh_ListReleases_def gh_ListOrgWebhooks_def
        gh_ListRepoWebhooks_def gh_listWebhooks_def same)+
  have "client_Do (gc_net (on_network D C)) t x \<lparr>aq_Method = ''GET'', aq_URL = e, aq_Header = h, aq_Body = None\<rparr>
      = client_Do (gc_net C) t x \<lparr>aq_Method = ''GET'', aq_URL = e, aq_Header = h, aq_Body = None\<rparr>" for t x e h
    using assms by (simp add: client_Do_def on_network_def agrees_on_get_def split: option.split)
  then show "gh_DownloadReleaseAsset (on_network D C) = gh_DownloadReleaseAsset C"
    by (intro HOL.ext) (simp add: gh_DownloadReleaseAsset_def gh_Do_def gh_headers_def repo, simp add: on_network_def)
qed

section \<open>Reading back what was written\<close>

lemma fj_release_json_sorted:
  "json_map (fj_releasePayload r) = JObj [(''body'', JStr (l_Body r)), (''draft'', JBool (l_Draft r)),
     (''hide_archive_links'', JBool False), (''name'', JStr (l_Name r)), (''prerelease'', JBool (l_Prerelease r)),
     (''tag_name'', JStr (l_Tag r))]"
  by (simp add: fj_releasePayload_def json_map_def less_eq_char_def less_char_def)

lemma fj_release_decodes:
  "fj_release_decoder (json_map (fj_releasePayload r)) fj_release_zero = Some (fj_release_zero\<lparr>fjl_Body := l_Body r,
     fjl_Draft := l_Draft r, fjl_Name := l_Name r, fjl_Prerelease := l_Prerelease r, fjl_TagName := l_Tag r\<rparr>)"
  by (simp add: fj_release_json_sorted fj_release_decoder_def find_field_def member_def dec_string_def dec_bool_def
      EqualFold_length)

lemma fj_releasePayload_ok: "utf8_release_texts r \<Longrightarrow> json_ok (json_map (fj_releasePayload r))"
  by (simp add: fj_release_json_sorted utf8_release_texts_def ascii_utf8 byte_def)

lemma fj_comment_decodes:
  "fj_comment_decoder (comment_payload c) fj_comment_zero = Some (fj_comment_zero\<lparr>fjc_Body := c_Body c\<rparr>)"
  by (simp add: comment_payload_def json_map_def fj_comment_decoder_def find_field_def member_def dec_string_def)

text \<open>The same for Forgejo: a release or a comment that comes back the way it was sent has the state
  hash of the original.\<close>

theorem forgejo_writes_read_back:
  assumes "utf8_release_texts r" and "valid_utf8 (c_Body c)"
    and "echoes rp1 (json_map (fj_releasePayload r))" and "echoes rp2 (comment_payload c)"
  shows "(\<exists>w. decode_body X fj_release_decoder fj_release_zero rp1 = Inr w
            \<and> release_Hash E (fj_release_model w) = release_Hash E r)
       \<and> (\<exists>w. decode_body X fj_comment_decoder fj_comment_zero rp2 = Inr w
            \<and> comment_Hash E (fj_comment_model i w) = comment_Hash E c)"
proof -
  have "decode_body X fj_release_decoder fj_release_zero rp1 = Inr (fj_release_zero\<lparr>fjl_Body := l_Body r,
     fjl_Draft := l_Draft r, fjl_Name := l_Name r, fjl_Prerelease := l_Prerelease r, fjl_TagName := l_Tag r\<rparr>)"
    using assms(3) by (simp add: echoes_def fj_release_decodes decode_body_Marshal [OF fj_releasePayload_ok [OF assms(1)]])
  moreover have "decode_body X fj_comment_decoder fj_comment_zero rp2 = Inr (fj_comment_zero\<lparr>fjc_Body := c_Body c\<rparr>)"
    using assms(4) by (simp add: echoes_def fj_comment_decodes decode_body_Marshal [OF comment_payload_ok [OF assms(2)]])
  ultimately show ?thesis
    by (simp add: release_Hash_def release_json_def fj_release_model_def comment_Hash_def fj_comment_model_def)
qed

section \<open>Labels\<close>

lemma fj_ensureLabels_length:
  assumes "fj_ensureLabels C owner name names s = (Inr ids, t)"
  shows "length ids = length names"
proof -
  let ?f = "\<lambda>label (byName, result).
             case map_of byName label of
               Some i \<Rightarrow> ret (byName, result @ [i])
             | None \<Rightarrow>
                 bnd (doJSON C ''POST'' (fj_repo C owner name ''/labels'')
                   (Some (json_map [(''name'', JStr label), (''color'', JStr ''#ededed'')]))
                   (fj_into C fj_label_decoder (0, []))) (\<lambda>created.
                 ret ((label, fst created) # byName, result @ [fst created]))"
  have fold: "foldE ?f ns (m, acc) s = (Inr (m', out), t) \<Longrightarrow> length out = length acc + length ns" for ns m acc s m' out t
    by (induction ns arbitrary: m acc s) (fastforce simp: bnd_Inr ret_Inr split: option.splits)+
  from assms obtain m u where "foldE ?f names (m, []) u = (Inr (fst (m, ids), ids), t) \<or> (\<exists>m'. foldE ?f names (m, []) u = (Inr (m', ids), t))"
    by (auto simp: fj_ensureLabels_def Let_def bnd_Inr ret_Inr)
  then show ?thesis using fold by fastforce
qed

text \<open>The identifiers are as many as the labels: no index of \<open>UpdateIssue\<close> is out of range.\<close>

lemma labels_in_range:
  assumes "fj_issuePayload C owner name source create s = (Inr (payload, ids), u)"
  shows "labels_at ids (i_Labels source) = Some (map (\<lambda>i. (ids ! i, i_Labels source ! i)) [0..<length (i_Labels source)])"
proof -
  from assms obtain v where "fj_ensureLabels C owner name (i_Labels source) s = (Inr ids, v)"
    by (auto simp: fj_issuePayload_def bnd_Inr ret_Inr throw_app split: if_splits)
  then have "length ids = length (i_Labels source)" by (rule fj_ensureLabels_length)
  then show ?thesis by (simp add: labels_at_def)
qed

text \<open>An issue that was updated on Forgejo is returned with exactly the labels that it was given, because every label
  was found or created first and the IDs were set in their order.\<close>

theorem updated_issue_has_labels:
  assumes "fj_UpdateIssue C owner name index source s = (Inr result, t)"
  shows "i_Labels result = i_Labels source"
proof -
  from assms obtain payload ids u where pay: "fj_issuePayload C owner name source False s = (Inr (payload, ids), u)"
    by (auto simp: fj_UpdateIssue_def Let_def bnd_Inr)
  from assms obtain updated where "result = fj_issue_model (updated\<lparr>fji_Labels :=
      map (\<lambda>i. (ids ! i, i_Labels source ! i)) [0..<length (i_Labels source)]\<rparr>)"
    by (auto simp: fj_UpdateIssue_def Let_def bnd_Inr ret_Inr pay labels_in_range [OF pay])
  then show ?thesis by (simp add: fj_issue_model_def map_nth comp_def)
qed

section \<open>Worked examples\<close>

text \<open>A network that gives the same reply to every request.\<close>

definition steady_net :: "api_reply \<Rightarrow> unit internet" where
  "steady_net r = \<lparr>hx_now = (\<lambda>w. (0, w)), hx_Sleep = (\<lambda>_ _ w. (Inr (), w)), hx_ctxErr = (\<lambda>_ _. None),
     hx_Do = (\<lambda>_ _ _ w. (Inr r, w)), hx_urlErr = (\<lambda>_. None), hx_parse = (\<lambda>_. Some \<lparr>u_Scheme = ''https'', u_Host = ''forge'', u_User = False\<rparr>),
     hx_String = (\<lambda>_ host. ''https://'' @ host), hx_jsonErr = (\<lambda>_. ''json'')\<rparr>"

definition sample_forgejo :: "api_reply \<Rightarrow> unit forgejo_client" where
  "sample_forgejo r = \<lparr>fc_net = steady_net r, fc_baseURL = ''https://forge'', fc_token = ''t'', fc_timeout = 30 * second,
     fc_migrateTimeout = defaultMigrateTimeout, fc_Retry = (\<lambda>ctx. DefaultRetryPolicy (fj_sleep (steady_net r) ctx)),
     fc_paceInterval = 0, fc_boundary = (\<lambda>w. (''b'', w))\<rparr>"

definition forgejo_start :: "unit forgejo_net" where
  "forgejo_start = \<lparr>fn_paceLast = time_zero, fn_status = 0, fn_world = ()\<rparr>"

text \<open>The client that \<open>New\<close> makes, of a URL that already has the suffix of the API.\<close>

lemma fj_New_sample:
  "fj_New (steady_net r) (\<lambda>w. (''b'', w)) ''https://forge/api/v1/'' ''t'' (30 * second) [] = Inr (sample_forgejo r)"
proof -
  have "TrimSuffix (TrimRight ''https://forge/api/v1/'' slash) ''/api/v1'' = ''https://forge''"
    by (simp add: TrimSuffix_def TrimRight_def TrimRightIf_def HasSuffix_def HasPrefix_def)
  then show ?thesis
    by (simp add: fj_New_def steady_net_def sample_forgejo_def retry_Validate_def DefaultRetryPolicy_def second_def)
qed

lemma steady_doJSON:
  assumes "success r" and "\<And>v. d r v = (Inr x, v)"
  shows "doJSON (sample_forgejo r) method (''https://forge'' @ p) body d s = (Inr x, s\<lparr>fn_status := ar_StatusCode r\<rparr>)"
proof -
  have scheme: "url_scheme (''https://forge'' @ p) = ''https''"
    by (simp add: url_scheme_def ToLower_def lower_char_def byte_def Let_def)
  have unit: "u\<lparr>fn_world := ()\<rparr> = u" for u :: "unit forgejo_net" by (cases u) simp
  have req: "fj_request (sample_forgejo r) None (30 * second) method (''https://forge'' @ p) body d u
      = (Inr x, u\<lparr>fn_status := ar_StatusCode r\<rparr>)" for u
    using assms scheme unit [of u]
    by (simp add: fj_request_def fj_pace_def client_Do_def fj_request_of_def sample_forgejo_def steady_net_def
        bnd_app ret_app fj_net_def set_status_def)
  show ?thesis
    using req by (simp add: doJSON_def doJSONWith_def doJSONWithPolicy_def fj_Do_def Do_def Do_loop.simps [of _ _ _ _ 0]
        sample_forgejo_def steady_net_def DefaultRetryPolicy_def retry_Validate_def second_def bnd_app set_status_def)
qed

definition issue_page :: api_reply where
  "issue_page = plain_reply 200 (Marshal (JArr [JObj [(''id'', json_int 5), (''number'', json_int 1), (''title'', JStr ''t''),
     (''state'', JStr ''open'')]]))"

definition listed_issue :: fj_issue where
  "listed_issue = fj_issue_zero\<lparr>fji_ID := 5, fji_Index := 1, fji_Title := ''t'', fji_State := ''open''\<rparr>"

theorem forgejo_issues_exact_witness:
  "fst (fj_ListIssues (sample_forgejo issue_page) ''o'' ''n'' forgejo_start) = Inr [fj_issue_model listed_issue]"
proof -
  let ?C = "sample_forgejo issue_page"
  let ?base = "fj_repo ?C ''o'' ''n'' ''/issues?state=all&type=issues&limit=50''"
  have dec: "decode_body (steady_net issue_page) (dec_slice fj_issue_decoder fj_issue_zero) [] issue_page = Inr [listed_issue]"
    by code_simp
  have ok: "success issue_page" by (simp add: issue_page_def plain_reply_def success_def)
  have status: "ar_StatusCode issue_page = 200" by (simp add: issue_page_def plain_reply_def)
  have net: "fc_net ?C = steady_net issue_page" "fc_baseURL ?C = ''https://forge''" by (simp_all add: sample_forgejo_def)
  have into: "fj_into ?C (dec_slice fj_issue_decoder fj_issue_zero) [] issue_page v = (Inr [listed_issue], v)" for v
    by (simp add: fj_into_def net dec wrapE_app of_sum_app)
  have "fj_fetch ?C fj_issue_decoder fj_issue_zero ?base k s = (Inr [listed_issue], s\<lparr>fn_status := 200\<rparr>)" for k s
    using steady_doJSON [OF ok, of "fj_into ?C (dec_slice fj_issue_decoder fj_issue_zero) []" "[listed_issue]" "''GET''"
        "''/api/v1/repos/'' @ PathEscape ''o'' @ ''/'' @ PathEscape ''n'' @ ''/issues?state=all&type=issues&limit=50&page='' @ FormatInt k" None s]
    by (simp add: fj_fetch_def fj_repo_def net into status)
  then have "serves (fj_fetch ?C fj_issue_decoder fj_issue_zero ?base) [listed_issue]"
    unfolding serves_def by (intro allI, case_tac k) (simp_all add: page_of_def)
  then show ?thesis
    using forgejo_issues_exact [of ?C "''o''" "''n''" "[listed_issue]" forgejo_start]
    by (simp add: listed_issue_def fj_issue_zero_def)
qed

theorem forgejo_writes_read_back_witness:
  "\<exists>w. decode_body script_net fj_release_decoder fj_release_zero (plain_reply 201 (Marshal (json_map (fj_releasePayload sample_release)))) = Inr w
     \<and> release_Hash blank_env (fj_release_model w) = release_Hash blank_env sample_release"
proof -
  have "utf8_release_texts sample_release" "valid_utf8 (c_Body sample_comment)"
    by (simp_all add: utf8_release_texts_def sample_release_def sample_comment_def ascii_utf8 byte_def)
  moreover have "int (length (Marshal (json_map (fj_releasePayload sample_release)))) < maxResponseBody"
    "int (length (Marshal (comment_payload sample_comment))) < maxResponseBody" by code_simp+
  ultimately show ?thesis
    using forgejo_writes_read_back [of sample_release sample_comment
        "plain_reply 201 (Marshal (json_map (fj_releasePayload sample_release)))"
        "plain_reply 201 (Marshal (comment_payload sample_comment))" script_net blank_env 4]
    by (auto simp: echoes_def plain_reply_def)
qed

definition secret_repository :: gh_repository where
  "secret_repository = gh_repository_zero\<lparr>ghr_Name := ''n'', ghr_FullName := ''o/n'', ghr_CloneURL := ''https://g/o/n'',
     ghr_Visibility := ''public'', ghr_Private := True\<rparr>"

text \<open>The network of this example refuses every request that does not ask for a private repository.\<close>

theorem private_stays_private_witness:
  "fj_MigrateRepository (fj_on (\<lambda>t x rq. if asks_for_private rq then hx_Do (steady_net issue_page) t x rq
        else throw (Err ''refused'')) (sample_forgejo issue_page))
      (gh_repository_model secret_repository) ''tok'' forgejo_start
    = fj_MigrateRepository (sample_forgejo issue_page) (gh_repository_model secret_repository) ''tok'' forgejo_start"
  by (rule private_stays_private [of secret_repository])
    (simp_all add: secret_repository_def gh_repository_zero_def sample_forgejo_def)

definition plain_issue :: issue where
  "plain_issue = \<lparr>i_ID = 1, i_Index = 1, i_Title = ''t'', i_Body = [], i_State = ''open'', i_Labels = [], i_Milestone = [],
     i_UpdatedAt = 0\<rparr>"

definition object_reply :: api_reply where
  "object_reply = plain_reply 200 (Marshal JNull)"

theorem updated_issue_has_labels_witness:
  "(case fst (fj_UpdateIssue (sample_forgejo object_reply) ''o'' ''n'' 1 plain_issue forgejo_start) of
      Inr result \<Rightarrow> i_Labels result = i_Labels plain_issue | Inl e \<Rightarrow> False)"
proof -
  let ?run = "fj_UpdateIssue (sample_forgejo object_reply) ''o'' ''n'' 1 plain_issue forgejo_start"
  have "(case fst ?run of Inr _ \<Rightarrow> True | Inl _ \<Rightarrow> False)" by code_simp
  then obtain result where run: "fst ?run = Inr result" by (cases "fst ?run") simp_all
  then have "?run = (Inr result, snd ?run)" by (simp add: prod_eq_iff)
  from updated_issue_has_labels [OF this] run show ?thesis by (simp only: sum.case)
qed

end
