(* ===== verification/Migrations.thy ===== *)
theory Migrations
  imports Tables
begin

text \<open>
  The opening of the state database (\<open>Open\<close> and \<open>migrate\<close> of \<open>internal/state/store.go\<close>). What the
  SQL scripts do to the database is a parameter (\<open>'d\<close> is its content beside the table
  \<open>schema_migrations\<close>, which the scripts leave alone); a transaction that is not committed
  leaves the database as it was. The tables that the scripts declare are those of the theory Tables.
\<close>

section \<open>The database\<close>

text \<open>\<open>mg_fault\<close> decides whether the next call of the driver fails; \<open>mg_script\<close> is the effect of a
  script, or the text of its error; \<open>mg_mkdir\<close> is \<open>os.MkdirAll\<close> on the directory of a path, and
  \<open>mg_open\<close> is \<open>sql.Open\<close>.\<close>

record ('d, 'w) sqlite =
  mg_mkdir :: "string \<Rightarrow> ('w, unit) call"
  mg_open :: "string \<Rightarrow> go_error option"
  mg_now :: "'w \<Rightarrow> time \<times> 'w"
  mg_fault :: "'w \<Rightarrow> string option \<times> 'w"
  mg_script :: "string \<Rightarrow> 'd \<Rightarrow> string + 'd"

record ('d, 'w) database =
  sc_versions :: "(int \<times> time) list"
  sc_data :: 'd
  sc_world :: 'w

record migration_file =
  mf_Name :: string
  mf_IsDir :: bool
  mf_Body :: "go_error + string"

text \<open>A call of the driver: it fails, or does its work.\<close>

definition driver :: "('d, 'w) sqlite \<Rightarrow> (('d, 'w) database \<Rightarrow> (go_error + 'a) \<times> ('d, 'w) database) \<Rightarrow> (('d, 'w) database, 'a) prog" where
  "driver M f = (\<lambda>s. case mg_fault M (sc_world s) of
     (Some msg, w) \<Rightarrow> (Inl (Err msg), s\<lparr>sc_world := w\<rparr>)
   | (None, w) \<Rightarrow> f (s\<lparr>sc_world := w\<rparr>))"

definition mg_outside :: "('w, 'a) call \<Rightarrow> (('d, 'w) database, 'a) prog" where
  "mg_outside f = (\<lambda>s. case f (sc_world s) of (r, w) \<Rightarrow> (r, s\<lparr>sc_world := w\<rparr>))"

section \<open>One migration\<close>

text \<open>The error of \<open>strconv.Atoi\<close>.\<close>

definition atoi_error :: "string \<Rightarrow> go_error" where
  "atoi_error s = (let digits = (case s of c # cs \<Rightarrow> if c = CHR ''-'' \<or> c = CHR ''+'' then cs else s | [] \<Rightarrow> [])
     in Err (''strconv.Atoi: parsing '' @ Quote s @ '': ''
          @ (if digits \<noteq> [] \<and> list_all (\<lambda>c. digit_val c \<noteq> None) digits then ''value out of range'' else ''invalid syntax'')))"

text \<open>The transaction: the new content is committed together with the version, or not at all.\<close>

definition apply_migration :: "('d, 'w) sqlite \<Rightarrow> int \<Rightarrow> string \<Rightarrow> (('d, 'w) database, unit) prog" where
  "apply_migration M version body =
     bnd (wrapE (''begin migration '' @ FormatInt version) (driver M (ret ()))) (\<lambda>_.
     bnd (wrapE (''apply migration '' @ FormatInt version) (driver M (\<lambda>s. case mg_script M body (sc_data s) of
           Inl msg \<Rightarrow> (Inl (Err msg), s) | Inr d \<Rightarrow> (Inr d, s)))) (\<lambda>d.
     bnd (mg_outside (\<lambda>w. case mg_now M w of (t, w') \<Rightarrow> (Inr t, w'))) (\<lambda>t.
     bnd (wrapE (''record migration '' @ FormatInt version) (driver M (\<lambda>s.
           if version \<in> fst ` set (sc_versions s)
           then (Inl (Err ''UNIQUE constraint failed: schema_migrations.version''), s) else (Inr (), s)))) (\<lambda>_.
     wrapE (''commit migration '' @ FormatInt version) (driver M (\<lambda>s.
       (Inr (), s\<lparr>sc_versions := sc_versions s @ [(version, t)], sc_data := d\<rparr>)))))))"

text \<open>The body of the loop.\<close>

definition migrate_file :: "('d, 'w) sqlite \<Rightarrow> migration_file \<Rightarrow> (('d, 'w) database, unit) prog" where
  "migrate_file M entry =
     (if mf_IsDir entry \<or> \<not> HasSuffix (mf_Name entry) ''.sql'' then ret ()
      else case Cut CHR ''_'' (mf_Name entry) of (prefix, _, ok) \<Rightarrow>
        if \<not> ok then throw (Err (''migration '' @ Quote (mf_Name entry) @ '' has no numeric prefix''))
        else case ParseInt prefix of
          None \<Rightarrow> throw (Wrap (''migration '' @ Quote (mf_Name entry) @ '' has invalid version'') (atoi_error prefix))
        | Some version \<Rightarrow>
            bnd (wrapE (''check migration '' @ FormatInt version)
              (driver M (\<lambda>s. (Inr (version \<in> fst ` set (sc_versions s)), s)))) (\<lambda>exists.
            if exists then ret ()
            else bnd (wrapE (''read migration '' @ FormatInt version) (of_sum (mf_Body entry))) (\<lambda>body.
              apply_migration M version body)))"

definition migrate :: "('d, 'w) sqlite \<Rightarrow> migration_file list \<Rightarrow> (('d, 'w) database, unit) prog" where
  "migrate M entries =
     bnd (wrapE ''create migration table'' (driver M (ret ()))) (\<lambda>_.
     forE (migrate_file M) (sort_key mf_Name entries))"

text \<open>\<open>Open\<close> on a path; the directory of migrations is embedded in the program.\<close>

definition state_Open :: "('d, 'w) sqlite \<Rightarrow> migration_file list \<Rightarrow> string \<Rightarrow> (('d, 'w) database, unit) prog" where
  "state_Open M entries path =
     (if path = [] then throw (Err ''state path is empty'')
      else bnd (wrapE ''create state directory'' (mg_outside (mg_mkdir M path))) (\<lambda>_.
        case mg_open M path of Some e \<Rightarrow> throw (Wrap ''open sqlite state'' e)
        | None \<Rightarrow> bnd (wrapE ''configure sqlite state'' (driver M (ret ()))) (\<lambda>_. migrate M entries)))"

section \<open>What is pending\<close>

definition file_version :: "migration_file \<Rightarrow> int option" where
  "file_version entry =
     (if mf_IsDir entry \<or> \<not> HasSuffix (mf_Name entry) ''.sql'' then None
      else case Cut CHR ''_'' (mf_Name entry) of (prefix, _, ok) \<Rightarrow> if ok then ParseInt prefix else None)"

text \<open>The abstract specification: the versions, with their scripts, that a database with
  the given versions lacks.\<close>

fun pending :: "int set \<Rightarrow> migration_file list \<Rightarrow> (int \<times> string) list" where
  "pending vs [] = []"
| "pending vs (f # fs) =
     (case (file_version f, mf_Body f) of
        (Some v, Inr body) \<Rightarrow> if v \<in> vs then pending vs fs else (v, body) # pending (insert v vs) fs
      | _ \<Rightarrow> pending vs fs)"

fun run_scripts :: "('d, 'w) sqlite \<Rightarrow> (int \<times> string) list \<Rightarrow> 'd \<Rightarrow> string + 'd" where
  "run_scripts M [] d = Inr d"
| "run_scripts M (m # ms) d = (case mg_script M (snd m) d of Inl e \<Rightarrow> Inl e | Inr d' \<Rightarrow> run_scripts M ms d')"

text \<open>A step of the specification: these migrations were carried out, in this order.\<close>

definition carried_out :: "('d, 'w) sqlite \<Rightarrow> (int \<times> string) list \<Rightarrow> ('d, 'w) database \<Rightarrow> ('d, 'w) database \<Rightarrow> bool" where
  "carried_out M ms s t \<longleftrightarrow> map fst (sc_versions t) = map fst (sc_versions s) @ map fst ms
     \<and> run_scripts M ms (sc_data s) = Inr (sc_data t)"

section \<open>Migrating implements the specification\<close>

lemma driver_cases:
  assumes "driver M f s = (r, t)"
  obtains w where "f (s\<lparr>sc_world := w\<rparr>) = (r, t)" | w e where "r = Inl e" "t = s\<lparr>sc_world := w\<rparr>"
  using assms by (auto simp: driver_def split: prod.splits option.splits)

lemma carried_out_none: "carried_out M [] s t \<longleftrightarrow> map fst (sc_versions t) = map fst (sc_versions s) \<and> sc_data t = sc_data s"
  by (auto simp: carried_out_def)

lemma carried_out_append:
  assumes "carried_out M ms s t" and "carried_out M ns t u"
  shows "carried_out M (ms @ ns) s u"
proof -
  have "run_scripts M ms d = Inr d' \<Longrightarrow> run_scripts M (ms @ ns) d = run_scripts M ns d'" for d d'
    by (induction ms arbitrary: d) (auto split: sum.splits)
  with assms show ?thesis by (simp add: carried_out_def)
qed

lemma apply_migration_atomic:
  assumes "apply_migration M version body s = (r, t)"
  shows "if r = Inr () then carried_out M [(version, body)] s t else carried_out M [] s t"
  using assms
  by (auto simp: apply_migration_def driver_def mg_outside_def bnd_app wrapE_app ret_app carried_out_def
      split: prod.splits sum.splits option.splits if_splits)

lemma migrate_file_step:
  assumes "migrate_file M f s = (r, t)"
  shows "if r = Inr () then carried_out M (pending (fst ` set (sc_versions s)) [f]) s t else carried_out M [] s t"
proof (cases "file_version f")
  case None
  then show ?thesis using assms
    by (auto simp: migrate_file_def file_version_def carried_out_none ret_app throw_app split: prod.splits if_splits option.splits)
next
  case (Some version)
  let ?check = "wrapE (''check migration '' @ FormatInt version) (driver M (\<lambda>s. (Inr (version \<in> fst ` set (sc_versions s)), s)))"
  have body: "migrate_file M f = bnd ?check (\<lambda>exists. if exists then ret ()
      else bnd (wrapE (''read migration '' @ FormatInt version) (of_sum (mf_Body f))) (apply_migration M version))"
    using Some by (auto simp: migrate_file_def file_version_def split: prod.splits if_splits)
  obtain q u where check: "?check s = (q, u)" by fastforce
  then have same: "sc_versions u = sc_versions s" "sc_data u = sc_data s"
    and q: "q = Inr (version \<in> fst ` set (sc_versions s)) \<or> (\<exists>e. q = Inl e)"
    by (auto simp: driver_def wrapE_app split: prod.splits option.splits)
  have shift: "carried_out M ms u t = carried_out M ms s t" for ms by (simp add: carried_out_def same)
  from q show ?thesis
  proof
    assume known: "q = Inr (version \<in> fst ` set (sc_versions s))"
    show ?thesis
    proof (cases "version \<in> fst ` set (sc_versions s)")
      case True
      then have "r = Inr ()" "t = u" using assms check known by (simp_all add: body bnd_app ret_app)
      then show ?thesis using Some True by (simp add: carried_out_none same split: sum.split)
    next
      case False
      with assms check known have rest: "bnd (wrapE (''read migration '' @ FormatInt version) (of_sum (mf_Body f)))
          (apply_migration M version) u = (r, t)" by (simp add: body bnd_app)
      show ?thesis
      proof (cases "mf_Body f")
        case (Inl e)
        with rest have "r = Inl (Wrap (''read migration '' @ FormatInt version) e)" "t = u"
          by (simp_all add: bnd_app wrapE_app of_sum_app)
        then show ?thesis by (simp add: carried_out_none same)
      next
        case (Inr script)
        with rest have "apply_migration M version script u = (r, t)" by (simp add: bnd_app wrapE_app of_sum_app)
        from apply_migration_atomic [OF this] show ?thesis using Some Inr False by (simp add: shift split: if_splits)
      qed
    qed
  next
    assume "\<exists>e. q = Inl e"
    with assms check have "\<exists>e. r = Inl e" "t = u" by (auto simp: body bnd_app)
    then show ?thesis by (auto simp: carried_out_none same)
  qed
qed

lemma pending_Cons: "pending vs (f # fs) = pending vs [f] @ pending (vs \<union> fst ` set (pending vs [f])) fs"
  by (auto split: option.split sum.split)

lemma migrate_files:
  "forE (migrate_file M) fs s = (r, t) \<Longrightarrow>
     \<exists>ms rest. pending (fst ` set (sc_versions s)) fs = ms @ rest \<and> carried_out M ms s t \<and> (r = Inr () \<longrightarrow> rest = [])"
proof (induction fs arbitrary: s)
  case (Cons f fs)
  obtain q u where step: "migrate_file M f s = (q, u)" by fastforce
  note first = migrate_file_step [OF step]
  show ?case
  proof (cases q)
    case (Inl e)
    with Cons.prems step have "t = u" "r = Inl e" by (auto simp: bnd_app)
    with first Inl show ?thesis
      by (intro exI [of _ "[]"] exI [of _ "pending (fst ` set (sc_versions s)) (f # fs)"]) (simp del: pending.simps)
  next
    case (Inr v)
    let ?now = "pending (fst ` set (sc_versions s)) [f]"
    from Inr first have one: "carried_out M ?now s u" by simp
    then have versions: "fst ` set (sc_versions u) = fst ` set (sc_versions s) \<union> fst ` set ?now"
      unfolding carried_out_def by (metis image_Un image_set set_append)
    from Inr step Cons.prems have "forE (migrate_file M) fs u = (r, t)" by (simp add: bnd_app)
    from Cons.IH [OF this] obtain ms rest where
      "pending (fst ` set (sc_versions u)) fs = ms @ rest" and run: "carried_out M ms u t" "r = Inr () \<longrightarrow> rest = []" by blast
    then have "pending (fst ` set (sc_versions s)) (f # fs) = (?now @ ms) @ rest"
      unfolding pending_Cons [of _ f fs] versions by (simp del: pending.simps)
    with carried_out_append [OF one run(1)] run(2) show ?thesis by blast
  qed
qed (simp add: ret_app carried_out_none)

lemma pending_resumes: "pending vs fs = ms @ rest \<Longrightarrow> pending (vs \<union> fst ` set ms) fs = rest"
proof (induction fs arbitrary: vs ms)
  case (Cons f fs)
  show ?case
  proof (cases "pending vs [f]")
    case Nil
    then show ?thesis using Cons.IH [of vs ms] Cons.prems
      by (auto split: option.splits sum.splits if_splits)
  next
    case (Cons m now)
    then obtain v body where f: "file_version f = Some v" "mf_Body f = Inr body" "v \<notin> vs"
      by (auto split: option.splits sum.splits if_splits)
    with Cons.prems have rest: "(v, body) # pending (insert v vs) fs = ms @ rest" by simp
    show ?thesis
    proof (cases ms)
      case Nil
      with Cons.prems show ?thesis by simp
    next
      case (Cons m ms')
      with rest have "m = (v, body)" "pending (insert v vs) fs = ms' @ rest" by simp_all
      with Cons.IH [of "insert v vs" ms'] f Cons show ?thesis by simp
    qed
  qed
qed simp

lemma pending_fresh: "distinct (map fst (pending vs fs)) \<and> vs \<inter> fst ` set (pending vs fs) = {}"
proof (induction fs arbitrary: vs)
  case (Cons f fs)
  show ?case
  proof (cases "pending vs [f]")
    case Nil
    with Cons.IH [of vs] show ?thesis by (auto split: option.splits sum.splits if_splits)
  next
    case (Cons m now)
    then obtain v body where "file_version f = Some v" "mf_Body f = Inr body" "v \<notin> vs"
      by (auto split: option.splits sum.splits if_splits)
    with Cons.IH [of "insert v vs"] show ?thesis by auto
  qed
qed simp

text \<open>C5: migrating, whether it succeeds or fails at any call of the driver or at any file, carries out a
  first part of what was pending, in the order of the names, each version at most once and
  together with its script; what remains is pending for the next start, and after a success
  nothing is.\<close>

theorem migrations_resume:
  assumes "migrate M entries s = (r, t)" and "distinct (map fst (sc_versions s))"
  shows "\<exists>ms. carried_out M ms s t \<and> distinct (map fst (sc_versions t))
    \<and> pending (fst ` set (sc_versions s)) (sort_key mf_Name entries) = ms @ pending (fst ` set (sc_versions t)) (sort_key mf_Name entries)
    \<and> (r = Inr () \<longrightarrow> pending (fst ` set (sc_versions t)) (sort_key mf_Name entries) = [])"
proof -
  let ?fs = "sort_key mf_Name entries" and ?vs = "fst ` set (sc_versions s)"
  have "\<exists>ms rest. pending ?vs ?fs = ms @ rest \<and> carried_out M ms s t \<and> (r = Inr () \<longrightarrow> rest = [])"
  proof (cases "fst (wrapE ''create migration table'' (driver M (ret ())) s)")
    case (Inl e)
    with assms(1) show ?thesis
      by (intro exI [of _ "[]"] exI [of _ "pending ?vs ?fs"])
        (auto simp: migrate_def driver_def wrapE_app bnd_app ret_app carried_out_none split: prod.splits option.splits)
  next
    case (Inr v)
    then obtain w where "forE (migrate_file M) ?fs (s\<lparr>sc_world := w\<rparr>) = (r, t)"
      using assms(1) by (auto simp: migrate_def driver_def wrapE_app bnd_app ret_app split: prod.splits option.splits)
    from migrate_files [OF this] show ?thesis by (simp add: carried_out_def)
  qed
  then obtain ms rest where split: "pending ?vs ?fs = ms @ rest" and run: "carried_out M ms s t" "r = Inr () \<longrightarrow> rest = []"
    by blast
  from run have "fst ` set (sc_versions t) = ?vs \<union> fst ` set ms"
    unfolding carried_out_def by (metis image_Un image_set set_append)
  then have "pending (fst ` set (sc_versions t)) ?fs = rest" using pending_resumes [OF split] by simp
  moreover have "distinct (map fst (sc_versions t))"
    using pending_fresh [of ?vs ?fs] assms(2) run(1) unfolding split carried_out_def by auto
  ultimately show ?thesis using split run by auto
qed

section \<open>Worked example\<close>

text \<open>Scripts that append their text, one of which fails.\<close>

definition sample_sqlite :: "(string list, unit) sqlite" where
  "sample_sqlite = \<lparr>mg_mkdir = (\<lambda>_ w. (Inr (), w)), mg_open = (\<lambda>_. None), mg_now = (\<lambda>w. (5, w)), mg_fault = (\<lambda>w. (None, w)),
     mg_script = (\<lambda>body d. if body = ''bad'' then Inl ''syntax error'' else Inr (d @ [body]))\<rparr>"

definition sample_entries :: "migration_file list" where
  "sample_entries = map (\<lambda>(name, body). \<lparr>mf_Name = name, mf_IsDir = False, mf_Body = Inr body\<rparr>)
     [(''003_third.sql'', ''bad''), (''embed.go'', ''code''), (''002_second.sql'', ''b''), (''001_first.sql'', ''a'')]"

definition blank_database :: "(string list, unit) database" where
  "blank_database = \<lparr>sc_versions = [], sc_data = [], sc_world = ()\<rparr>"

lemma sample_migrated:
  "migrate sample_sqlite sample_entries blank_database =
     (Inl (Wrap ''apply migration 3'' (Err ''syntax error'')), \<lparr>sc_versions = [(1, 5), (2, 5)], sc_data = [''a'', ''b''], sc_world = ()\<rparr>)"
  by code_simp

theorem migrations_resume_witness:
  "\<exists>ms. carried_out sample_sqlite ms blank_database \<lparr>sc_versions = [(1, 5), (2, 5)], sc_data = [''a'', ''b''], sc_world = ()\<rparr>
     \<and> pending {} (sort_key mf_Name sample_entries) = ms @ pending {1, 2} (sort_key mf_Name sample_entries)"
  using migrations_resume [OF sample_migrated] by (auto simp: blank_database_def)

end
