(* ===== verification/Timestamps.thy ===== *)
theory Timestamps
  imports Json
begin

text \<open>
  Timestamps as the program stores them: the text of a time in the layout
  \<open>time.RFC3339Nano\<close> (\<open>RFC3339Nano\<close>, from \<open>Tables\<close>) is read back by \<open>parse_time\<close> (from
  \<open>Json\<close>) as the same time, for every instant of the years 1970 to 9999. The lemmas are the
  inverse of the calendar (\<open>civil_inverse\<close>), of the padded numbers (\<open>fixed_digits_pad\<close>) and
  of the fraction without its trailing zeros (\<open>parse_fraction_fraction\<close>).
\<close>

section \<open>The calendar\<close>

lemma div_between:
  fixes a b q :: int
  assumes "b * q \<le> a" "a < b * q + b"
  shows "a div b = q"
proof -
  have "a div b = (b * q + (a - b * q)) div b" by simp
  also have "\<dots> = q + (a - b * q) div b" using assms by (subst div_mult_self4) auto
  also have "(a - b * q) div b = 0" using assms by simp
  finally show ?thesis by simp
qed

text \<open>The terms of \<open>civil\<close>: the year of the era, counted from March, the day in that year, and
  its month and day.\<close>

definition year_of :: "int \<Rightarrow> int" where
  "year_of doe = (doe - doe div 1460 + doe div 36524 - doe div 146096) div 365"

definition day_of :: "int \<Rightarrow> int" where
  "day_of doe = doe - (365 * year_of doe + year_of doe div 4 - year_of doe div 100)"

text \<open>The day of an era in centuries, spans of four years and a rest: the leap days are at the end
  of their span.\<close>

lemma era_split:
  fixes doe :: int
  assumes "0 \<le> doe" "doe < 146097"
  obtains c f s where "doe = 36524 * c + 1461 * f + s" "0 \<le> c" "c \<le> 3" "0 \<le> f" "f \<le> 24"
    "0 \<le> s" "s \<le> 1460" "f = 24 \<and> s = 1460 \<longrightarrow> c = 3"
proof -
  define c where "c = min 3 (doe div 36524)"
  define f where "f = min 24 ((doe - 36524 * c) div 1461)"
  have c: "0 \<le> c" "c \<le> 3" "36524 * c \<le> doe" "doe \<le> 36524 * c + 36524" "c \<noteq> 3 \<Longrightarrow> doe < 36524 * c + 36524"
    using assms unfolding c_def by linarith+
  then have "0 \<le> f" "f \<le> 24" "1461 * f \<le> doe - 36524 * c" "doe - 36524 * c \<le> 1461 * f + 1460"
    unfolding f_def by linarith+
  with c show thesis by (intro that [of c f "doe - 36524 * c - 1461 * f"]) linarith+
qed

lemma year_split:
  assumes doe: "doe = 36524 * c + 1461 * f + s" and c: "0 \<le> c" "c \<le> 3" and f: "0 \<le> f" "f \<le> 24"
    and s: "0 \<le> s" "s \<le> 1460" and last: "f = 24 \<and> s = 1460 \<longrightarrow> c = 3"
  shows "year_of doe = 100 * c + 4 * f + min 3 (s div 365)"
    and "day_of doe = s - 365 * min 3 (s div 365)"
proof -
  define e where "e = (if 24 * c + f + s \<ge> 1460 then 1 else 0 :: int)"
  define g where "g = min 3 (s div 365)"
  have g: "0 \<le> g" "g \<le> 3" "(s - e) div 365 = g"
    using s c f unfolding g_def e_def by (auto split: if_splits)
  have "doe div 1460 = 25 * c + f + e"
    using c f s unfolding doe e_def by (intro div_between) auto
  moreover have "doe div 36524 - doe div 146096 = c"
  proof (cases "doe = 146096")
    case False
    then have "doe < 36524 * c + 36524" "doe < 146096" "0 \<le> doe" using c f s last unfolding doe by linarith+
    then have "doe div 36524 = c" "doe div 146096 = 0" using f s unfolding doe by (auto intro!: div_between)
    then show ?thesis by simp
  qed (use c f s doe in simp)
  ultimately have "year_of doe = (365 * (100 * c + 4 * f) + (s - e)) div 365"
    unfolding year_of_def by (simp add: doe algebra_simps)
  also have "\<dots> = 100 * c + 4 * f + g" using g by (subst div_mult_self4) auto
  finally show y: "year_of doe = 100 * c + 4 * f + min 3 (s div 365)" by (simp add: g_def)
  have "year_of doe div 4 = 25 * c + f" "year_of doe div 100 = c"
    using g c f unfolding y g_def [symmetric] by (auto intro!: div_between)
  then show "day_of doe = s - 365 * min 3 (s div 365)"
    unfolding day_of_def using y doe by linarith
qed

definition month_of :: "int \<Rightarrow> int \<times> int" where
  "month_of doy =
     (let mp = (5 * doy + 2) div 153 in (if mp < 10 then mp + 3 else mp - 9, doy - (153 * mp + 2) div 5 + 1))"

definition month_ok :: "int \<Rightarrow> bool" where
  "month_ok doy \<longleftrightarrow> (case month_of doy of (m, d) \<Rightarrow>
     1 \<le> m \<and> m \<le> 12 \<and> 1 \<le> d \<and> d \<le> (if m = 2 then if doy = 365 then 29 else 28
        else if m = 4 \<or> m = 6 \<or> m = 9 \<or> m = 11 then 30 else 31)
     \<and> (153 * (m + (if m > 2 then - 3 else 9)) + 2) div 5 + d - 1 = doy \<and> (m \<le> 2 \<longleftrightarrow> 306 \<le> doy))"

lemma month_split:
  assumes "0 \<le> doy" "doy \<le> 365"
  shows "month_ok doy"
proof -
  define mp where "mp = (5 * doy + 2) div 153"
  have b: "153 * mp \<le> 5 * doy + 2" "5 * doy + 2 < 153 * mp + 153"
    unfolding mp_def by linarith+
  then have "0 \<le> mp" "mp \<le> 11" using assms by linarith+
  then have "mp = 0 \<or> mp = 1 \<or> mp = 2 \<or> mp = 3 \<or> mp = 4 \<or> mp = 5 \<or> mp = 6 \<or> mp = 7 \<or> mp = 8 \<or> mp = 9
    \<or> mp = 10 \<or> mp = 11" by presburger
  then show ?thesis
    using b assms unfolding month_ok_def month_of_def mp_def [symmetric] Let_def by (elim disjE) simp_all
qed

lemma civil_unfold:
  "civil days = (let era = (days + 719468) div 146097; doe = (days + 719468) mod 146097;
       (m, d) = month_of (day_of doe) in (year_of doe + era * 400 + (if m \<le> 2 then 1 else 0), m, d))"
  unfolding civil_def month_of_def day_of_def year_of_def Let_def prod.case by (rule HOL.refl)

lemma era_year:
  fixes doe :: int
  assumes "0 \<le> doe" "doe < 146097"
  shows "0 \<le> year_of doe" "year_of doe \<le> 399" "0 \<le> day_of doe" "day_of doe \<le> 365"
    and "day_of doe = 365 \<Longrightarrow> leap_year (year_of doe + era * 400 + 1)"
proof -
  obtain c f s where doe: "doe = 36524 * c + 1461 * f + s"
    and b: "0 \<le> c" "c \<le> 3" "0 \<le> f" "f \<le> 24" "0 \<le> s" "s \<le> 1460" "f = 24 \<and> s = 1460 \<longrightarrow> c = 3"
    using era_split [OF assms] by metis
  define g where "g = min 3 (s div 365)"
  note y = year_split [OF doe b, folded g_def]
  have g: "0 \<le> g" "g \<le> 3" "0 \<le> s - 365 * g" "s - 365 * g \<le> 365" "s - 365 * g = 365 \<Longrightarrow> s = 1460"
    using b unfolding g_def by linarith+
  show "0 \<le> year_of doe" "year_of doe \<le> 399" "0 \<le> day_of doe" "day_of doe \<le> 365"
    unfolding y using g b by linarith+
  assume "day_of doe = 365"
  then have "s = 1460" "g = 3" unfolding y using g by linarith+
  then have e: "year_of doe + era * 400 + 1 = 4 * (25 * (c + 4 * era) + f + 1)" unfolding y by simp
  show "leap_year (year_of doe + era * 400 + 1)"
  proof (cases "f = 24")
    case True
    then have "year_of doe + era * 400 + 1 = 400 * (era + 1)" using b(7) \<open>s = 1460\<close> e by simp
    then show ?thesis by (simp add: leap_year_def)
  next
    case False
    define k where "k = c + 4 * era"
    have e: "year_of doe + era * 400 + 1 = 4 * (f + 1) + 100 * k" using e by (simp add: k_def)
    have "(4 * (f + 1) + 100 * k) mod 4 = 0" by presburger
    moreover have r: "(4 * (f + 1) + 100 * k) mod 100 = 4 * (f + 1)" using False b by simp
    have "(4 * (f + 1) + 100 * k) mod 100 \<noteq> 0" unfolding r using b by simp
    ultimately show ?thesis unfolding leap_year_def e by (intro conjI disjI1)
  qed
qed

lemma civil_inverse:
  assumes "civil days = (y, m, d)"
  shows "days_from_civil y m d = days" "1 \<le> m" "m \<le> 12" "1 \<le> d" "d \<le> days_in y m"
proof -
  define era where "era = (days + 719468) div 146097"
  define doe where "doe = (days + 719468) mod 146097"
  have doe: "0 \<le> doe" "doe < 146097" unfolding doe_def by simp_all
  note ey = era_year [OF doe]
  obtain m' d' where md: "month_of (day_of doe) = (m', d')" by fastforce
  have c: "m = m'" "d = d'" "y = year_of doe + era * 400 + (if m \<le> 2 then 1 else 0)"
    using assms md unfolding civil_unfold era_def [symmetric] doe_def [symmetric] by (auto simp: Let_def)
  have mo: "1 \<le> m" "m \<le> 12" "1 \<le> d"
    "d \<le> (if m = 2 then if day_of doe = 365 then 29 else 28
        else if m = 4 \<or> m = 6 \<or> m = 9 \<or> m = 11 then 30 else 31)"
    "(153 * (m + (if m > 2 then - 3 else 9)) + 2) div 5 + d - 1 = day_of doe"
    using month_split [OF ey(3,4)] md c(1,2) unfolding month_ok_def by (auto split: if_splits)
  show "1 \<le> m" "m \<le> 12" "1 \<le> d" by (fact mo)+
  show "d \<le> days_in y m"
    using mo(4) ey(5) [of era] c(3) unfolding days_in_def by (auto split: if_splits)
  have "(if m \<le> 2 then y - 1 else y) = year_of doe + 400 * era" using c(3) by simp
  moreover have "(year_of doe + 400 * era) div 400 = era" "(year_of doe + 400 * era) mod 400 = year_of doe"
    using ey(1,2) by simp_all
  moreover have "days + 719468 = era * 146097 + doe" unfolding era_def doe_def by simp
  ultimately show "days_from_civil y m d = days"
    unfolding days_from_civil_def Let_def mo(5) by (simp add: day_of_def)
qed

lemma civil_years:
  assumes "civil days = (y, m, d)" and "0 \<le> days" "days \<le> 2932896"
  shows "0 \<le> y" "y \<le> 9999"
proof -
  define era where "era = (days + 719468) div 146097"
  define doe where "doe = (days + 719468) mod 146097"
  have doe: "0 \<le> doe" "doe < 146097" unfolding doe_def by simp_all
  note ey = era_year [OF doe]
  have split: "days + 719468 = era * 146097 + doe" unfolding era_def doe_def by simp
  have era: "4 \<le> era" "era \<le> 24" using split doe assms(2,3) by linarith+
  obtain m' d' where md: "month_of (day_of doe) = (m', d')" by fastforce
  have y: "y = year_of doe + era * 400 + (if m \<le> 2 then 1 else 0)" and m: "m = m'"
    using assms(1) md unfolding civil_unfold era_def [symmetric] doe_def [symmetric] by (auto simp: Let_def)
  show "0 \<le> y" using y ey(1) era by simp
  have "m \<le> 2 \<longleftrightarrow> 306 \<le> day_of doe" using month_split [OF ey(3,4)] md m by (simp add: month_ok_def)
  moreover have "day_of doe \<le> 305" if "era = 24" "year_of doe = 399"
    using that split assms(3) by (simp add: day_of_def)
  ultimately show "y \<le> 9999" using y ey(2) era by (cases "era = 24"; cases "year_of doe = 399") auto
qed

section \<open>Padded numbers\<close>

lemma length_show_nat: "n < 10 ^ k \<Longrightarrow> 0 < k \<Longrightarrow> length (show_nat n) \<le> k"
proof (induction k arbitrary: n)
  case (Suc k)
  show ?case
  proof (cases "n < 10")
    case True
    then show ?thesis by (simp add: show_nat.simps [of n])
  next
    case False
    then have "0 < k" using Suc.prems by (cases k) auto
    moreover have "n div 10 < 10 ^ k" using Suc.prems by (simp add: div_less_iff_less_mult mult.commute)
    ultimately have "0 < k" "n div 10 < 10 ^ k" .
    with Suc.IH False show ?thesis by (simp add: show_nat.simps [of n])
  qed
qed simp

lemma digits_val_zeros: "digits_val 0 (replicate j (CHR ''0'') @ s) = digits_val 0 s"
  by (induction j) (simp_all add: digit_val_def)

lemma pad_zeros: "\<exists>j. pad k n = replicate j (CHR ''0'') @ show_nat (nat n)"
  by (auto simp: pad_def Let_def)

lemma pad_length: "n < 10 ^ k \<Longrightarrow> 0 < k \<Longrightarrow> length (pad k n) = k"
  using length_show_nat [of "nat n" k] by (cases "0 \<le> n") (auto simp: pad_def Let_def nat_less_iff)

lemma is_dec_zero: "is_dec (CHR ''0'')"
  by (simp add: is_dec_def digit_val_def)

lemma pad_digits: "c \<in> set (pad k n) \<Longrightarrow> is_dec c"
  using is_dec_show is_dec_zero by (auto simp: pad_def Let_def)

lemma digits_val_pad: "digits_val 0 (pad k n) = Some (nat n)"
  using pad_zeros [of k n] by (auto simp: digits_val_zeros digits_val_show)

lemma fixed_digits_pad:
  assumes "lo \<le> n" "n \<le> hi" "0 \<le> lo" "hi < 10 ^ k" "0 < k"
  shows "fixed_digits k lo hi (pad k n @ r) = Some (n, r)"
proof -
  have l: "length (pad k n) = k" using assms by (intro pad_length) auto
  then have "parse_nat (pad k n) = Some (nat n)" using assms(5) by (auto simp: parse_nat_def digits_val_pad)
  then show ?thesis using assms l by (simp add: fixed_digits_def)
qed

section \<open>The fraction\<close>

lemma digits_val_foldl:
  "\<forall>c \<in> set s. is_dec c \<Longrightarrow>
     digits_val a s = Some v \<Longrightarrow> foldl (\<lambda>n c. 10 * n + int (byte c - 48)) (int a) s = int v"
proof (induction s arbitrary: a)
  case (Cons c s)
  then obtain d where "digit_val c = Some d" "d = byte c - 48"
    by (auto simp: is_dec_def digit_val_def byte_def Let_def split: if_splits)
  with Cons.prems Cons.IH [of "10 * a + d"] show ?case by simp
qed simp

lemma TrimRight_split: "\<exists>j. s = TrimRight s c @ replicate j c"
proof -
  have "takeWhile (\<lambda>x. x = c) (rev s) = replicate (length (takeWhile (\<lambda>x. x = c) (rev s))) c"
    by (metis (full_types) replicate_length_same set_takeWhileD)
  then have "rev s = replicate (length (takeWhile (\<lambda>x. x = c) (rev s))) c @ dropWhile (\<lambda>x. x = c) (rev s)"
    by (metis takeWhile_dropWhile_id)
  then have "s = TrimRight s c @ replicate (length (takeWhile (\<lambda>x. x = c) (rev s))) c"
    unfolding TrimRight_def TrimRightIf_def by (metis rev_append rev_replicate rev_rev_ident)
  then show ?thesis by blast
qed

lemma nanoseconds_pad:
  assumes "0 \<le> n" "n < 10 ^ 9"
  shows "nanoseconds (TrimRight (pad 9 n) (CHR ''0'')) = n"
proof -
  obtain j where j: "pad 9 n = TrimRight (pad 9 n) (CHR ''0'') @ replicate j (CHR ''0'')"
    using TrimRight_split by metis
  have l: "length (pad 9 n) = 9" using assms by (intro pad_length) auto
  then have le: "length (TrimRight (pad 9 n) (CHR ''0'')) + j = 9" using j by (metis length_append length_replicate)
  then have "take 9 (TrimRight (pad 9 n) (CHR ''0'') @ replicate 9 (CHR ''0'')) = pad 9 n"
    by (subst (2) j) (simp add: min_def)
  then show ?thesis
    using digits_val_foldl [of "pad 9 n" 0 "nat n"] pad_digits digits_val_pad assms by (simp add: nanoseconds_def)
qed

lemma parse_fraction_fraction:
  assumes "0 \<le> n" "n < 10 ^ 9"
  shows "parse_fraction (fraction n @ ''Z'') = (n, ''Z'')"
proof (cases "n = 0")
  case True
  then show ?thesis by (simp add: fraction_def parse_fraction_def)
next
  case False
  define ds where "ds = TrimRight (pad 9 n) (CHR ''0'')"
  have "set ds \<subseteq> set (pad 9 n)"
    using set_dropWhileD unfolding ds_def TrimRight_def TrimRightIf_def by fastforce
  then have dec: "\<forall>c \<in> set ds. is_dec c" using pad_digits by blast
  have "nanoseconds ds = n" using nanoseconds_pad [OF assms] by (simp add: ds_def)
  moreover from this have "ds \<noteq> []" using False by (auto simp: nanoseconds_def numeral_eq_Suc byte_def)
  moreover have "\<not> is_dec (CHR ''Z'')" by (simp add: is_dec_def digit_val_def)
  ultimately show ?thesis using dec False
    by (cases ds) (auto simp: fraction_def ds_def [symmetric] parse_fraction_def takeWhile_append dropWhile_append)
qed

section \<open>A stored time\<close>

text \<open>The instants of the years 1970 to 9999.\<close>

definition storable :: "time \<Rightarrow> bool" where
  "storable t \<longleftrightarrow> 0 \<le> t \<and> t < 253402300800 * second"

lemma clock_split:
  fixes tod :: int
  assumes "0 \<le> tod" "tod < 86400"
  shows "0 \<le> tod div 3600" "tod div 3600 \<le> 23" "0 \<le> tod div 60 mod 60" "tod div 60 mod 60 \<le> 59"
    "0 \<le> tod mod 60" "tod mod 60 \<le> 59"
    "tod div 3600 * 3600 + tod div 60 mod 60 * 60 + tod mod 60 = tod"
proof -
  show "tod div 60 mod 60 \<le> 59" "tod mod 60 \<le> 59" by (simp_all flip: zle_add1_eq_le)
  have "tod div 3600 = tod div 60 div 60" by (simp flip: zdiv_zmult2_eq)
  then show "tod div 3600 * 3600 + tod div 60 mod 60 * 60 + tod mod 60 = tod"
    using div_mult_mod_eq [of "tod div 60" 60] div_mult_mod_eq [of tod 60] by linarith
qed (use assms in auto)

lemma parse_time_RFC3339Nano:
  assumes "storable t"
  shows "parse_time (RFC3339Nano t) = Some t"
proof -
  define secs where "secs = t div second"
  define days where "days = secs div 86400"
  define tod where "tod = secs mod 86400"
  obtain y m d where c: "civil days = (y, m, d)" by (metis prod_cases3)
  have secs: "0 \<le> secs" "secs < 253402300800" and ns: "0 \<le> t mod second" "t mod second < 10 ^ 9"
    using assms unfolding storable_def secs_def second_def by auto
  then have days: "0 \<le> days" "days \<le> 2932896" unfolding days_def by auto
  have tod: "0 \<le> tod" "tod < 86400" unfolding tod_def by simp_all
  define h mi se where "h = tod div 3600" and "mi = tod div 60 mod 60" and "se = tod mod 60"
  note cs = clock_split [OF tod, folded h_def mi_def se_def]
  note ci = civil_inverse [OF c] and cy = civil_years [OF c days]
  have "days_in y m \<le> 31" by (simp add: days_in_def)
  then have hi: "days_in y m < 10 ^ 2" by simp
  have fixed:
    "fixed_digits 4 0 9999 (pad 4 y @ r) = Some (y, r)"
    "fixed_digits 2 1 12 (pad 2 m @ r) = Some (m, r)"
    "fixed_digits 2 1 (days_in y m) (pad 2 d @ r) = Some (d, r)"
    "fixed_digits 2 0 23 (pad 2 h @ r) = Some (h, r)"
    "fixed_digits 2 0 59 (pad 2 mi @ r) = Some (mi, r)"
    "fixed_digits 2 0 59 (pad 2 se @ r) = Some (se, r)" for r
    by (rule fixed_digits_pad; use cy ci(2-5) hi cs in simp)+
  have "(days * 86400 + (h * 3600 + mi * 60 + se)) * second + t mod second = t"
    unfolding cs(7) days_def tod_def by (simp add: secs_def)
  then have sum: "(days * 86400 + h * 3600 + mi * 60 + se - 0) * second + t mod second = t"
    by (simp only: add.assoc diff_zero)
  have rfc: "RFC3339Nano t = pad 4 y @ CHR ''-'' # pad 2 m @ CHR ''-'' # pad 2 d @ CHR ''T'' #
         pad 2 h @ colon # pad 2 mi @ colon # pad 2 se @ fraction (t mod second) @ ''Z''"
    unfolding RFC3339Nano_def Let_def secs_def [symmetric] days_def [symmetric] tod_def [symmetric] c
      h_def [symmetric] mi_def [symmetric] se_def [symmetric] by simp
  show ?thesis
    unfolding rfc parse_time_def
    by (simp only: fixed skip_char_def parse_fraction_fraction [OF ns] parse_zone_def ci(1) sum
        bind.bind_lunit prod.case list.case Let_def option.map if_True HOL.refl)
qed

text \<open>A year of five digits is written, and refused when it is read.\<close>

lemma year_10000_unreadable: "parse_time (RFC3339Nano (253402300800 * second)) = None"
proof -
  have "civil 2932897 = (10000, 1, 1)" by code_simp
  moreover have "pad 4 10000 = ''10000''"
    by (simp add: pad_def show_nat.simps [of 10000] show_nat.simps [of 1000] show_nat.simps [of 100]
        show_nat.simps [of 10] show_nat.simps [of "Suc 0"] digit_def byte_def flip: byte_eq)
  ultimately have "RFC3339Nano (253402300800 * second) = ''10000-'' @ pad 2 1 @ ''-'' @ pad 2 1 @ ''T''
      @ pad 2 0 @ '':'' @ pad 2 0 @ '':'' @ pad 2 0 @ ''Z''"
    by (simp add: RFC3339Nano_def second_def fraction_def)
  moreover have "fixed_digits 4 0 9999 (''10000'' @ r) = Some (1000, ''0'' @ r)" for r
    by (simp add: fixed_digits_def parse_nat_def digit_val_def)
  ultimately show ?thesis by (simp add: parse_time_def skip_char_def)
qed

lemma append_less: "(ys :: 'a :: linorder list) < zs \<Longrightarrow> xs @ ys < xs @ zs"
  by (induction xs) simp_all

text \<open>The stored texts are not in the order of the times: the text of a whole second comes after
  those of the fractions that follow it, for a full stop comes before the letter Z.\<close>

lemma whole_second_sorts_last:
  assumes "t mod second = 0" "0 < n" "n < second"
  shows "RFC3339Nano (t + n) < RFC3339Nano t"
proof -
  have s: "0 < second" by (simp add: second_def)
  have "t + n = n + second * (t div second)" using mult_div_mod_eq [of second t] assms(1) by simp
  then have "(t + n) div second = t div second" "(t + n) mod second = n"
    using assms s div_mult_self2 [of second n "t div second"] mod_mult_self2 [of n second "t div second"] by (simp_all add: add.commute)
  moreover have "fraction n @ ''Z'' < fraction 0 @ ''Z''"
    using assms(2) by (simp add: fraction_def less_char_def)
  ultimately show ?thesis
    unfolding RFC3339Nano_def Let_def assms(1)
    by (auto split: prod.splits intro!: append_less)
qed

end
