(* ===== verification/StoreRows.thy ===== *)
theory StoreRows
  imports Store Timestamps
begin

text \<open>
  The columns of the mapping tables (\<open>migrations/*.sql\<close>): what an upsert of
  \<open>internal/state/store.go\<close> binds for a mapping, and what \<open>scanRepository\<close> and the loops over
  the rows make of the columns again. A time is stored as its text, a flag as 0 or 1. The
  locale \<open>stored_table\<close> states when a table of columns stands for a table of mappings, and
  shows that the upserts and the reading of the rows then agree with the operations of
  \<open>Store\<close> on the mappings; it is interpreted on the five mapping tables.
\<close>

section \<open>Columns\<close>

definition boolInt :: "bool \<Rightarrow> int" where
  "boolInt b = (if b then 1 else 0)"

text \<open>The conversion of the column to \<open>model.Visibility\<close>; the constraint of the column admits the
  three texts only.\<close>

definition stored_visibility :: "string \<Rightarrow> visibility" where
  "stored_visibility s =
     (if s = ''public'' then VisibilityPublic else if s = ''internal'' then VisibilityInternal else VisibilityPrivate)"

record repository_row =
  c_github_id :: int
  c_github_full_name :: string
  c_forgejo_owner :: string
  c_forgejo_name :: string
  c_visibility :: string
  c_archived :: int
  c_size_kb :: int
  c_last_state_hash :: string
  c_updated_at :: string

text \<open>The arguments that \<open>UpsertRepository\<close> binds.\<close>

definition repository_columns :: "repository_mapping \<Rightarrow> repository_row" where
  "repository_columns m =
     \<lparr>c_github_id = rm_GitHubID m, c_github_full_name = rm_GitHubFullName m,
      c_forgejo_owner = rm_ForgejoOwner m, c_forgejo_name = rm_ForgejoName m,
      c_visibility = visibility_text (rm_Visibility m), c_archived = boolInt (rm_Archived m),
      c_size_kb = rm_SizeKB m, c_last_state_hash = rm_LastStateHash m,
      c_updated_at = RFC3339Nano (rm_UpdatedAt m)\<rparr>"

text \<open>\<open>time.Parse(time.RFC3339Nano, _)\<close> on a text that the layout can produce; the error of any
  other text is the argument \<open>perr\<close>.\<close>

definition Parse_time :: "(string \<Rightarrow> go_error) \<Rightarrow> string \<Rightarrow> go_error + time" where
  "Parse_time perr s = (case parse_time s of None \<Rightarrow> Inl (perr s) | Some t \<Rightarrow> Inr t)"

definition scanRepository :: "(string \<Rightarrow> go_error) \<Rightarrow> repository_row \<Rightarrow> go_error + repository_mapping" where
  "scanRepository perr row =
     (case Parse_time perr (c_updated_at row) of
        Inl e \<Rightarrow> Inl (Wrap ''parse mapping time'' e)
      | Inr parsed \<Rightarrow> Inr
          \<lparr>rm_GitHubID = c_github_id row, rm_GitHubFullName = c_github_full_name row,
           rm_ForgejoOwner = c_forgejo_owner row, rm_ForgejoName = c_forgejo_name row,
           rm_Visibility = stored_visibility (c_visibility row), rm_Archived = (c_archived row \<noteq> 0),
           rm_SizeKB = c_size_kb row, rm_LastStateHash = c_last_state_hash row, rm_UpdatedAt = parsed\<rparr>)"

text \<open>A row of a listing.\<close>

definition listed_repository :: "(string \<Rightarrow> go_error) \<Rightarrow> repository_row \<Rightarrow> go_error + repository_mapping" where
  "listed_repository perr row =
     (case scanRepository perr row of
        Inl e \<Rightarrow> Inl (Wrap ''scan repository mapping'' e) | Inr m \<Rightarrow> Inr m)"

text \<open>The other tables have only numbers and texts: the columns in the order of the statement.\<close>

type_synonym pair_row = "int \<times> int \<times> int \<times> int \<times> int \<times> string \<times> string"

definition issue_columns :: "issue_mapping \<Rightarrow> pair_row" where
  "issue_columns m = (im_RepositoryGitHubID m, im_GitHubID m, im_ForgejoID m, im_GitHubIndex m,
     im_ForgejoIndex m, im_LastStateHash m, RFC3339Nano (im_UpdatedAt m))"

definition scan_issue :: "(string \<Rightarrow> go_error) \<Rightarrow> pair_row \<Rightarrow> go_error + issue_mapping" where
  "scan_issue perr = (\<lambda>(rid, gid, fid, gi, fi, h, updated).
     case Parse_time perr updated of
       Inl e \<Rightarrow> Inl (Wrap ''parse issue mapping time'' e)
     | Inr t \<Rightarrow> Inr \<lparr>im_RepositoryGitHubID = rid, im_GitHubID = gid, im_ForgejoID = fid, im_GitHubIndex = gi,
         im_ForgejoIndex = fi, im_LastStateHash = h, im_UpdatedAt = t\<rparr>)"

definition pull_columns :: "pull_request_mapping \<Rightarrow> pair_row" where
  "pull_columns m = (pm_RepositoryGitHubID m, pm_GitHubID m, pm_ForgejoID m, pm_GitHubIndex m,
     pm_ForgejoIndex m, pm_LastStateHash m, RFC3339Nano (pm_UpdatedAt m))"

definition scan_pull :: "(string \<Rightarrow> go_error) \<Rightarrow> pair_row \<Rightarrow> go_error + pull_request_mapping" where
  "scan_pull perr = (\<lambda>(rid, gid, fid, gi, fi, h, updated).
     case Parse_time perr updated of
       Inl e \<Rightarrow> Inl (Wrap ''parse pull request mapping time'' e)
     | Inr t \<Rightarrow> Inr \<lparr>pm_RepositoryGitHubID = rid, pm_GitHubID = gid, pm_ForgejoID = fid, pm_GitHubIndex = gi,
         pm_ForgejoIndex = fi, pm_LastStateHash = h, pm_UpdatedAt = t\<rparr>)"

type_synonym comment_row = "int \<times> int \<times> int \<times> int \<times> string \<times> string"

definition comment_columns :: "comment_mapping \<Rightarrow> comment_row" where
  "comment_columns m = (cm_RepositoryGitHubID m, cm_IssueGitHubID m, cm_GitHubID m, cm_ForgejoID m,
     cm_LastStateHash m, RFC3339Nano (cm_UpdatedAt m))"

definition scan_comment :: "(string \<Rightarrow> go_error) \<Rightarrow> comment_row \<Rightarrow> go_error + comment_mapping" where
  "scan_comment perr = (\<lambda>(rid, iid, gid, fid, h, updated).
     case Parse_time perr updated of
       Inl e \<Rightarrow> Inl (Wrap ''parse comment mapping time'' e)
     | Inr t \<Rightarrow> Inr \<lparr>cm_RepositoryGitHubID = rid, cm_IssueGitHubID = iid, cm_GitHubID = gid,
         cm_ForgejoID = fid, cm_LastStateHash = h, cm_UpdatedAt = t\<rparr>)"

type_synonym release_row = "int \<times> int \<times> int \<times> string \<times> string \<times> string"

definition release_columns :: "release_mapping \<Rightarrow> release_row" where
  "release_columns m = (lm_RepositoryGitHubID m, lm_GitHubID m, lm_ForgejoID m, lm_Tag m,
     lm_LastStateHash m, RFC3339Nano (lm_UpdatedAt m))"

definition scan_release :: "(string \<Rightarrow> go_error) \<Rightarrow> release_row \<Rightarrow> go_error + release_mapping" where
  "scan_release perr = (\<lambda>(rid, gid, fid, tag, h, updated).
     case Parse_time perr updated of
       Inl e \<Rightarrow> Inl (Wrap ''parse release mapping time'' e)
     | Inr t \<Rightarrow> Inr \<lparr>lm_RepositoryGitHubID = rid, lm_GitHubID = gid, lm_ForgejoID = fid, lm_Tag = tag,
         lm_LastStateHash = h, lm_UpdatedAt = t\<rparr>)"

section \<open>Reading the rows of a query\<close>

text \<open>The loop \<open>for rows.Next()\<close> of the listings: the first row that cannot be read ends the listing.\<close>

fun scan_rows :: "('r \<Rightarrow> go_error + 'm) \<Rightarrow> 'r list \<Rightarrow> go_error + 'm list" where
  "scan_rows scan [] = Inr []"
| "scan_rows scan (r # rs) =
     (case scan r of Inl e \<Rightarrow> Inl e
      | Inr m \<Rightarrow> (case scan_rows scan rs of Inl e \<Rightarrow> Inl e | Inr ms \<Rightarrow> Inr (m # ms)))"

text \<open>Upserts one after the other; one that breaks a constraint leaves the table as it is.\<close>

fun upserts :: "('r \<Rightarrow> 'k) \<Rightarrow> ('r \<Rightarrow> 'u) \<Rightarrow> string \<Rightarrow> 'r list \<Rightarrow> 'r list \<Rightarrow> 'r list" where
  "upserts pk uq columns [] t = t"
| "upserts pk uq columns (r # rs) t =
     upserts pk uq columns rs (case sql_upsert pk uq columns r t of Inl _ \<Rightarrow> t | Inr t' \<Rightarrow> t')"

lemma upserts_mem: "x \<in> set (upserts pk uq c rs t) \<Longrightarrow> x \<in> set rs \<or> x \<in> set t"
proof (induction rs arbitrary: t)
  case (Cons r rs)
  from Cons.IH Cons.prems sql_upsert_mem [of pk uq c r t] show ?case
    by (fastforce split: sum.splits)
qed simp

lemma upserts_keyed: "keyed pk uq t \<Longrightarrow> keyed pk uq (upserts pk uq c rs t)"
  by (induction rs arbitrary: t) (auto intro: sql_upsert_keyed split: sum.splits)

section \<open>A table of columns stands for a table of mappings\<close>

locale stored_table =
  fixes columns :: "'m \<Rightarrow> 'r" and scan :: "'r \<Rightarrow> go_error + 'm" and stamp :: "'m \<Rightarrow> time"
    and pk :: "'m \<Rightarrow> 'k" and uq :: "'m \<Rightarrow> 'u" and row_pk :: "'r \<Rightarrow> 'k" and row_uq :: "'r \<Rightarrow> 'u"
  assumes scan_columns: "storable (stamp m) \<Longrightarrow> scan (columns m) = Inr m"
    and row_pk_columns: "row_pk (columns m) = pk m"
    and row_uq_columns: "row_uq (columns m) = uq m"
begin

lemma columns_inject: "storable (stamp m) \<Longrightarrow> storable (stamp m') \<Longrightarrow> columns m = columns m' \<Longrightarrow> m = m'"
  using scan_columns by (metis sum.inject(2))

lemma scan_rows_columns: "\<forall>m \<in> set ms. storable (stamp m) \<Longrightarrow> scan_rows scan (map columns ms) = Inr ms"
  by (induction ms) (simp_all add: scan_columns)

lemma sql_upsert_columns:
  "sql_upsert row_pk row_uq c (columns m) (map columns t) = map_sum id (map columns) (sql_upsert pk uq c m t)"
  unfolding sql_upsert_def by (simp add: list_ex_iff row_pk_columns row_uq_columns)

lemma upserts_columns:
  "upserts row_pk row_uq c (map columns ms) (map columns t) = map columns (upserts pk uq c ms t)"
proof (induction ms arbitrary: t)
  case (Cons m ms)
  then show ?case by (cases "sql_upsert pk uq c m t") (simp_all add: sql_upsert_columns)
qed simp

lemma find_columns:
  "List.find (\<lambda>r. row_pk r = k) (map columns t) = map_option columns (List.find (\<lambda>m. pk m = k) t)"
  by (induction t) (simp_all add: row_pk_columns)

lemma written_rows_read_back:
  assumes "\<forall>m \<in> set ms. storable (stamp m)"
  shows "scan_rows scan (upserts row_pk row_uq c (map columns ms) []) = Inr (upserts pk uq c ms [])"
  using upserts_columns [of c ms "[]"] upserts_mem [of _ pk uq c ms "[]"] assms
  by (simp add: scan_rows_columns)

end

lemma Parse_time_RFC3339Nano [simp]: "storable t \<Longrightarrow> Parse_time perr (RFC3339Nano t) = Inr t"
  by (simp add: Parse_time_def parse_time_RFC3339Nano)

lemma stored_visibility_text [simp]: "stored_visibility (visibility_text v) = v"
  by (cases v) (simp_all add: stored_visibility_def)

lemma boolInt_nonzero [simp]: "boolInt b \<noteq> 0 \<longleftrightarrow> b"
  by (simp add: boolInt_def)

interpretation repository_rows: stored_table repository_columns "listed_repository perr" rm_UpdatedAt
  repository_pk repository_uq c_github_id "\<lambda>r. (c_forgejo_owner r, c_forgejo_name r)" for perr
  by unfold_locales (simp_all add: listed_repository_def scanRepository_def repository_columns_def)

interpretation issue_rows: stored_table issue_columns "scan_issue perr" im_UpdatedAt issue_pk issue_uq
  "\<lambda>(rid, gid, fid, _). (rid, gid)" "\<lambda>(rid, gid, fid, _). (rid, fid)" for perr
  by unfold_locales (simp_all add: scan_issue_def issue_columns_def)

interpretation pull_rows: stored_table pull_columns "scan_pull perr" pm_UpdatedAt pull_pk pull_uq
  "\<lambda>(rid, gid, fid, _). (rid, gid)" "\<lambda>(rid, gid, fid, _). (rid, fid)" for perr
  by unfold_locales (simp_all add: scan_pull_def pull_columns_def)

interpretation comment_rows: stored_table comment_columns "scan_comment perr" cm_UpdatedAt comment_pk comment_uq
  "\<lambda>(rid, iid, gid, fid, _). (rid, gid)" "\<lambda>(rid, iid, gid, fid, _). (rid, fid)" for perr
  by unfold_locales (simp_all add: scan_comment_def comment_columns_def)

interpretation release_rows: stored_table release_columns "scan_release perr" lm_UpdatedAt release_pk release_uq
  "\<lambda>(rid, gid, fid, _). (rid, gid)" "\<lambda>(rid, gid, fid, _). (rid, fid)" for perr
  by unfold_locales (simp_all add: scan_release_def release_columns_def)

section \<open>The order of the conflicts\<close>

text \<open>\<open>ListConflicts\<close> orders by the stored text: a conflict of a whole second is listed after one
  of the same second that is younger.\<close>

lemma conflicts_listed_out_of_order:
  assumes "t_conflicts d = [k, k']" "k_ResolvedAt k = None" "k_ResolvedAt k' = None" "k_ID k < k_ID k'"
    and "k_CreatedAt k mod second = 0" "k_CreatedAt k' = k_CreatedAt k + n" "0 < n" "n < second"
  shows "unresolved d = [k', k]"
  using whole_second_sorts_last [OF assms(5,7,8)] assms
  by (simp add: unresolved_def)

section \<open>What is written is read back\<close>

abbreviation repository_row_uq :: "repository_row \<Rightarrow> string \<times> string" where
  "repository_row_uq r \<equiv> (c_forgejo_owner r, c_forgejo_name r)"
abbreviation pair_row_pk :: "pair_row \<Rightarrow> int \<times> int" where
  "pair_row_pk \<equiv> \<lambda>(rid, gid, fid, _). (rid, gid)"
abbreviation pair_row_uq :: "pair_row \<Rightarrow> int \<times> int" where
  "pair_row_uq \<equiv> \<lambda>(rid, gid, fid, _). (rid, fid)"
abbreviation comment_row_pk :: "comment_row \<Rightarrow> int \<times> int" where
  "comment_row_pk \<equiv> \<lambda>(rid, iid, gid, fid, _). (rid, gid)"
abbreviation comment_row_uq :: "comment_row \<Rightarrow> int \<times> int" where
  "comment_row_uq \<equiv> \<lambda>(rid, iid, gid, fid, _). (rid, fid)"
abbreviation release_row_pk :: "release_row \<Rightarrow> int \<times> int" where
  "release_row_pk \<equiv> \<lambda>(rid, gid, fid, _). (rid, gid)"
abbreviation release_row_uq :: "release_row \<Rightarrow> int \<times> int" where
  "release_row_uq \<equiv> \<lambda>(rid, gid, fid, _). (rid, fid)"

text \<open>C19: What is written to a mapping table is read back. Carry out any sequence of upserts on
  the columns of the mappings, from an empty table, each with its primary key, its uniqueness
  constraint and the replacement of an older row: scanning the rows that result gives exactly
  the mappings that the same upserts leave in the table of mappings, with every number, text,
  visibility and flag as it was and every time to the nanosecond. No row fails to be read. The
  times are those of the years 1970 to 9999; a later year is written with five digits, which
  the reading refuses.\<close>

theorem mappings_read_back:
  assumes "\<forall>m \<in> set rs. storable (rm_UpdatedAt m)" "\<forall>m \<in> set is. storable (im_UpdatedAt m)"
    "\<forall>m \<in> set ps. storable (pm_UpdatedAt m)" "\<forall>m \<in> set cs. storable (cm_UpdatedAt m)"
    "\<forall>m \<in> set ls. storable (lm_UpdatedAt m)"
  shows "scan_rows (listed_repository perr)
        (upserts c_github_id repository_row_uq u (map repository_columns rs) [])
      = Inr (upserts repository_pk repository_uq u rs [])
    \<and> scan_rows (scan_issue perr) (upserts pair_row_pk pair_row_uq u (map issue_columns is) [])
      = Inr (upserts issue_pk issue_uq u is [])
    \<and> scan_rows (scan_pull perr) (upserts pair_row_pk pair_row_uq u (map pull_columns ps) [])
      = Inr (upserts pull_pk pull_uq u ps [])
    \<and> scan_rows (scan_comment perr) (upserts comment_row_pk comment_row_uq u (map comment_columns cs) [])
      = Inr (upserts comment_pk comment_uq u cs [])
    \<and> scan_rows (scan_release perr) (upserts release_row_pk release_row_uq u (map release_columns ls) [])
      = Inr (upserts release_pk release_uq u ls [])"
  using assms by (intro conjI repository_rows.written_rows_read_back issue_rows.written_rows_read_back
    pull_rows.written_rows_read_back comment_rows.written_rows_read_back
    release_rows.written_rows_read_back)

definition sample_stored :: "string \<Rightarrow> time \<Rightarrow> repository_mapping" where
  "sample_stored nm t = \<lparr>rm_GitHubID = 7, rm_GitHubFullName = ''me/a'', rm_ForgejoOwner = ''me'',
     rm_ForgejoName = nm, rm_Visibility = VisibilityInternal, rm_Archived = True, rm_SizeKB = 12,
     rm_LastStateHash = ''h'', rm_UpdatedAt = t\<rparr>"

text \<open>A row of noon on a leap day, replaced by one of the last nanosecond of 9999.\<close>

theorem mappings_read_back_witness:
  "scan_rows (listed_repository (\<lambda>_. Err ''parse error''))
     (upserts c_github_id repository_row_uq ''''
       (map repository_columns [sample_stored ''a'' 1709208000499999999,
          sample_stored ''b'' 253402300799999999999]) [])
   = Inr [sample_stored ''b'' 253402300799999999999]"
  using mappings_read_back [of "[sample_stored ''a'' 1709208000499999999,
      sample_stored ''b'' 253402300799999999999]" "[]" "[]" "[]" "[]" "\<lambda>_. Err ''parse error''" "''''"]
  by (simp add: sample_stored_def storable_def second_def sql_upsert_def)

end
