(* ===== verification/Console.thy ===== *)
theory Console
  imports Engine Json Wiring
begin

text \<open>
  What the commands of \<open>cmd/forge-sync\<close> write to standard output: \<open>printInventory\<close>, and
  \<open>writeJSON\<close> (\<open>json.Encoder\<close> with an indentation of two spaces) of the structs that the
  commands print. A command's outcome is that text, with the error that the command
  returns. A nil slice is written as \<open>null\<close>; every slice printed here is nil when it is empty.
\<close>

section \<open>Indented JSON\<close>

definition indentation :: "nat \<Rightarrow> string" where
  "indentation n = newline # replicate (2 * n) CHR '' ''"

definition indented_list :: "string \<Rightarrow> string \<Rightarrow> nat \<Rightarrow> string list \<Rightarrow> string" where
  "indented_list opening closing n items =
     (if items = [] then opening @ closing
      else opening @ indentation (Suc n) @ Join items ('','' @ indentation (Suc n)) @ indentation n @ closing)"

primrec Indent :: "json \<Rightarrow> nat \<Rightarrow> string" where
  "Indent JNull = (\<lambda>n. ''null'')"
| "Indent (JBool b) = (\<lambda>n. json_bool b)"
| "Indent (JNum x) = (\<lambda>n. x)"
| "Indent (JStr s) = (\<lambda>n. json_string s)"
| "Indent (JArr xs) = (\<lambda>n. indented_list ''['' '']'' n (map (\<lambda>f. f (Suc n)) (map Indent xs)))"
| "Indent (JObj fs) = (\<lambda>n. indented_list ''{'' ''}'' n
     (map (\<lambda>(name, f). json_string name @ '': '' @ f (Suc n)) (map (map_prod id Indent) fs)))"

section \<open>The printed structs\<close>

definition json_slice :: "('a \<Rightarrow> json) \<Rightarrow> 'a list \<Rightarrow> json" where
  "json_slice f xs = (if xs = [] then JNull else JArr (map f xs))"

text \<open>A field with the tag \<open>omitempty\<close>.\<close>

definition omitempty :: "string \<Rightarrow> ('a \<Rightarrow> json) \<Rightarrow> 'a list \<Rightarrow> (string \<times> json) list" where
  "omitempty name f xs = (if xs = [] then [] else [(name, JArr (map f xs))])"

definition time_value :: "time \<Rightarrow> json" where
  "time_value t = JStr (RFC3339Nano t)"

definition stats_value :: "stats \<Rightarrow> json" where
  "stats_value t = JObj (map (\<lambda>(name, n). (name, json_int (int n)))
     [(''Repositories'', st_Repositories t), (''Issues'', st_Issues t), (''PullRequests'', st_PullRequests t),
      (''Comments'', st_Comments t), (''Releases'', st_Releases t), (''Conflicts'', st_Conflicts t),
      (''Deliveries'', st_Deliveries t), (''Runs'', st_Runs t)])"

definition inventory_value :: "inventory \<Rightarrow> json" where
  "inventory_value v = JObj [(''github_repositories'', json_int (v_GitHubRepositories v)),
     (''forgejo_repositories'', json_int (v_ForgejoRepositories v)), (''missing'', json_int (v_Missing v)),
     (''in_sync'', json_int (v_InSync v)), (''conflicted'', json_int (v_Conflicted v))]"

definition action_value :: "action \<Rightarrow> json" where
  "action_value a = JObj [(''Ref'', JStr (act_Ref a)), (''SHA'', JStr (act_SHA a)),
     (''From'', JStr (forge_name (act_From a))), (''To'', JStr (forge_name (act_To a)))]"

definition result_value :: "repository_result \<Rightarrow> json" where
  "result_value r = JObj ([(''repository'', JStr (res_Repository r))] @ omitempty ''actions'' action_value (res_Actions r)
     @ [(''conflicts'', json_int (int (res_Conflicts r)))])"

definition report_value :: "sync_report \<Rightarrow> json" where
  "report_value r = JObj ([(''inventory'', inventory_value (rep_Inventory r))]
     @ omitempty ''repositories'' result_value (rep_Repositories r))"

definition conflict_value :: "conflict \<Rightarrow> json" where
  "conflict_value k = JObj [(''ID'', json_int (k_ID k)), (''Kind'', JStr (k_Kind k)), (''Repository'', JStr (k_Repository k)),
     (''ObjectKey'', JStr (k_ObjectKey k)), (''GitHubState'', JStr (k_GitHubState k)), (''ForgejoState'', JStr (k_ForgejoState k)),
     (''LastKnownState'', JStr (k_LastKnownState k)), (''CreatedAt'', time_value (k_CreatedAt k)),
     (''ResolvedAt'', case k_ResolvedAt k of None \<Rightarrow> JNull | Some t \<Rightarrow> time_value t)]"

definition repository_value :: "repository_mapping \<Rightarrow> json" where
  "repository_value m = JObj [(''GitHubID'', json_int (rm_GitHubID m)), (''GitHubFullName'', JStr (rm_GitHubFullName m)),
     (''ForgejoOwner'', JStr (rm_ForgejoOwner m)), (''ForgejoName'', JStr (rm_ForgejoName m)),
     (''Visibility'', JStr (visibility_text (rm_Visibility m))), (''Archived'', JBool (rm_Archived m)),
     (''SizeKB'', json_int (rm_SizeKB m)), (''LastStateHash'', JStr (rm_LastStateHash m)),
     (''UpdatedAt'', time_value (rm_UpdatedAt m))]"

definition issue_mapping_value :: "issue_mapping \<Rightarrow> json" where
  "issue_mapping_value m = JObj [(''RepositoryGitHubID'', json_int (im_RepositoryGitHubID m)),
     (''GitHubID'', json_int (im_GitHubID m)), (''ForgejoID'', json_int (im_ForgejoID m)),
     (''GitHubIndex'', json_int (im_GitHubIndex m)), (''ForgejoIndex'', json_int (im_ForgejoIndex m)),
     (''LastStateHash'', JStr (im_LastStateHash m)), (''UpdatedAt'', time_value (im_UpdatedAt m))]"

definition wiring_value :: "report \<Rightarrow> json" where
  "wiring_value r = JObj ([(''created'', json_slice JStr (rp_Created r)), (''updated'', json_slice JStr (rp_Updated r)),
     (''unchanged'', json_slice JStr (rp_Unchanged r))] @ omitempty ''skipped'' JStr (rp_Skipped r))"

text \<open>The report that a run stores is the one that the command prints, without the white space.\<close>

lemma Marshal_omitempty:
  "map (map_prod id Marshal) (omitempty name f xs) =
     (if xs = [] then [] else [(name, json_array (map (Marshal \<circ> f) xs))])"
  by (simp add: omitempty_def json_array_def)

lemma Marshal_report: "Marshal (report_value r) = report_json r"
proof -
  have "Marshal \<circ> action_value = action_json"
    by (intro HOL.ext) (simp add: action_value_def action_json_def)
  then have "Marshal \<circ> result_value = result_json"
    by (intro HOL.ext) (simp add: result_value_def result_json_def Marshal_omitempty json_int_def)
  moreover have "Marshal (inventory_value v) = inventory_json v" for v
    by (simp add: inventory_value_def inventory_json_def json_int_def)
  ultimately show ?thesis
    by (simp add: report_value_def report_json_def Marshal_omitempty)
qed

section \<open>Writing\<close>

type_synonym outcome = "string \<times> go_error option"

text \<open>\<open>writeJSON\<close>; its argument tells how writing to standard output ends.\<close>

definition writeJSON :: "(string \<Rightarrow> go_error option) \<Rightarrow> json \<Rightarrow> outcome" where
  "writeJSON stdout v = (let text = Indent v 0 @ [newline] in (text, stdout text))"

definition printInventory :: "sync_report \<Rightarrow> string" where
  "printInventory r = (let v = rep_Inventory r in
     ''GitHub repositories: '' @ FormatInt (v_GitHubRepositories v) @ [newline]
     @ ''Forgejo repositories: '' @ FormatInt (v_ForgejoRepositories v) @ [newline]
     @ ''Missing: '' @ FormatInt (v_Missing v) @ [newline]
     @ ''In sync: '' @ FormatInt (v_InSync v) @ [newline]
     @ ''Conflicted: '' @ FormatInt (v_Conflicted v) @ [newline])"

lemma Indent_example: "Indent (JObj [(''a'', JArr [JNum ''1'', JNull]), (''b'', JArr []), (''c'', JObj [])]) 0
  = ''{'' @ [newline] @ ''  \"a\": ['' @ [newline] @ ''    1,'' @ [newline] @ ''    null'' @ [newline] @ ''  ],'' @ [newline]
    @ ''  \"b\": [],'' @ [newline] @ ''  \"c\": {}'' @ [newline] @ ''}''"
  by code_simp

end
