(* ===== verification/Application.thy ===== *)
theory Application
  imports Console Configuration ForgejoProperties
begin

text \<open>
  \<open>cmd/forge-sync/main.go\<close>: the program. \<open>openRuntime\<close> puts the two API clients behind the
  interfaces of the reconcilers and builds the engine; \<open>run\<close> is the dispatch of the command
  line. The world of the reconcilers is the state of the GitHub client around that of the Forgejo
  client around everything outside (\<open>'v\<close>).

  \<open>serve\<close> is modelled over the sequence of the things that happen to it, the startup cycle, ticks
  and requests, and over what ends it, the end of the listener or a signal; a server that nothing
  ends does not return. Each event is one step; the real program runs them in goroutines, whose
  interleaving inside a step is not modelled. What is logged, and the headers of responses, are
  left out.
\<close>

section \<open>The outside\<close>

type_synonym 'v forges = "'v forgejo_net github_net"

datatype service_event =
    StartupCycle
  | PeriodicCycle
  | Incoming http_request

datatype service_end =
    ListenerEnded "go_error option"
  | Interrupted

text \<open>
  \<open>ou_git\<close> is the git host with the time limit of a synchronization; \<open>ou_openErr\<close> is the result
  of \<open>state.Open\<close> on a path, \<open>ou_stdout\<close> that of writing a text to standard output,
  \<open>ou_events\<close> what happens to the server until \<open>ou_end\<close> ends it, \<open>ou_shutdown\<close> the result of
  \<open>Server.Shutdown\<close>. The listener ends with \<open>None\<close> when it ends with \<open>http.ErrServerClosed\<close>.
\<close>

record 'v outside =
  ou_net :: "'v internet"
  ou_boundary :: "'v \<Rightarrow> string \<times> 'v"
  ou_env :: "'v forges env"
  ou_git :: "duration \<Rightarrow> 'v forges host"
  ou_schedule :: "nat \<Rightarrow> nat"
  ou_decode :: "string \<Rightarrow> go_error + string"
  ou_environment :: environment
  ou_openErr :: "string \<Rightarrow> go_error option"
  ou_stdout :: "string \<Rightarrow> go_error option"
  ou_events :: "service_event list"
  ou_end :: service_end
  ou_shutdown :: "go_error option"

text \<open>The network as the GitHub client sees it, beside the state of the Forgejo client.\<close>

definition lift_net :: "'v internet \<Rightarrow> 'v forgejo_net internet" where
  "lift_net X = \<lparr>hx_now = (\<lambda>s. case hx_now X (fn_world s) of (t, w) \<Rightarrow> (t, s\<lparr>fn_world := w\<rparr>)),
     hx_Sleep = (\<lambda>ctx d. fj_net (hx_Sleep X ctx d)), hx_ctxErr = (\<lambda>ctx s. hx_ctxErr X ctx (fn_world s)),
     hx_Do = (\<lambda>timeout ctx rq. fj_net (hx_Do X timeout ctx rq)), hx_urlErr = hx_urlErr X, hx_parse = hx_parse X,
     hx_String = hx_String X, hx_jsonErr = hx_jsonErr X\<rparr>"

text \<open>The operations of the Forgejo client, beside the state of the GitHub client.\<close>

definition beside_issues :: "'w issue_forge \<Rightarrow> 'w github_net issue_forge" where
  "beside_issues F = \<lparr>ListIssues = (\<lambda>o' n. gh_net (ListIssues F o' n)), CreateIssue = (\<lambda>o' n i. gh_net (CreateIssue F o' n i)),
     UpdateIssue = (\<lambda>o' n k i. gh_net (UpdateIssue F o' n k i))\<rparr>"

definition beside_comments :: "'w comment_forge \<Rightarrow> 'w github_net comment_forge" where
  "beside_comments F = \<lparr>ListComments = (\<lambda>o' n k. gh_net (ListComments F o' n k)),
     CreateComment = (\<lambda>o' n k c. gh_net (CreateComment F o' n k c)), UpdateComment = (\<lambda>o' n k c. gh_net (UpdateComment F o' n k c))\<rparr>"

definition beside_pulls :: "'w pull_forge \<Rightarrow> 'w github_net pull_forge" where
  "beside_pulls F = \<lparr>ListPullRequests = (\<lambda>o' n. gh_net (ListPullRequests F o' n)),
     FindPullRequestByHead = (\<lambda>o' n h. gh_net (FindPullRequestByHead F o' n h)),
     CreatePullRequest = (\<lambda>o' n p. gh_net (CreatePullRequest F o' n p)),
     UpdatePullRequest = (\<lambda>o' n k p. gh_net (UpdatePullRequest F o' n k p))\<rparr>"

definition beside_releases :: "'w release_forge \<Rightarrow> 'w github_net release_forge" where
  "beside_releases F = \<lparr>ListReleases = (\<lambda>o' n. gh_net (ListReleases F o' n)),
     CreateRelease = (\<lambda>o' n l. gh_net (CreateRelease F o' n l)), UpdateRelease = (\<lambda>o' n k l. gh_net (UpdateRelease F o' n k l)),
     DownloadReleaseAsset = (\<lambda>o' n k a. gh_net (DownloadReleaseAsset F o' n k a)),
     UploadReleaseAsset = (\<lambda>o' n k a c. gh_net (UploadReleaseAsset F o' n k a c))\<rparr>"

definition beside_discovery :: "'w discovery_forgejo \<Rightarrow> 'w github_net discovery_forgejo" where
  "beside_discovery F = \<lparr>df_ListRepositories = (\<lambda>ns. gh_net (df_ListRepositories F ns)),
     MigrateRepository = (\<lambda>r tok. gh_net (MigrateRepository F r tok)),
     UpdateRepositoryIdentity = (\<lambda>a b c d. gh_net (UpdateRepositoryIdentity F a b c d)),
     UpdateRepositorySettings = (\<lambda>r. gh_net (UpdateRepositorySettings F r))\<rparr>"

definition beside_hooks :: "'w wire_forge \<Rightarrow> 'w github_net wire_forge" where
  "beside_hooks F = \<lparr>ListOrgWebhooks = (\<lambda>n. gh_net (ListOrgWebhooks F n)), CreateOrgWebhook = (\<lambda>n h s. gh_net (CreateOrgWebhook F n h s)),
     UpdateOrgWebhook = (\<lambda>n i h s. gh_net (UpdateOrgWebhook F n i h s)), ListRepoWebhooks = (\<lambda>o' n. gh_net (ListRepoWebhooks F o' n)),
     CreateRepoWebhook = (\<lambda>o' n h s. gh_net (CreateRepoWebhook F o' n h s)),
     UpdateRepoWebhook = (\<lambda>o' n i h s. gh_net (UpdateRepoWebhook F o' n i h s)),
     wf_ListRepositories = (\<lambda>n. gh_net (wf_ListRepositories F n))\<rparr>"

section \<open>Opening the runtime\<close>

record 'v application =
  ap_engine :: "'v forges engine"
  ap_github :: "'v forgejo_net github_client"
  ap_forgejo :: "'v forgejo_client"

text \<open>The retry policy of the configuration, with the sleep of a client.\<close>

definition policy_of :: "'c config \<Rightarrow> (duration \<Rightarrow> ('s, unit) prog) \<Rightarrow> 's retry_policy" where
  "policy_of cfg sleep = (let p = APIRetry cfg in
     \<lparr>MaxAttempts = MaxAttempts p, BaseDelay = BaseDelay p, MaxDelay = MaxDelay p,
      RateLimitMaxDelay = RateLimitMaxDelay p, NetworkRetry = NetworkRetry p, Sleep = sleep\<rparr>)"

definition open_github :: "'v outside \<Rightarrow> 'c config \<Rightarrow> go_error + 'v forgejo_net github_client" where
  "open_github O' cfg = (let X = lift_net (ou_net O')
     in gh_New X (GitHubAPI cfg) (GitHubToken cfg) (RequestTimeout cfg)
          [gh_WithRetry (policy_of cfg (gh_sleep X)), gh_WithPacing (GitHubMinInterval cfg)])"

definition open_forgejo :: "'v outside \<Rightarrow> 'c config \<Rightarrow> go_error + 'v forgejo_client" where
  "open_forgejo O' cfg = fj_New (ou_net O') (ou_boundary O') (ForgejoAPI cfg) (ForgejoToken cfg) (RequestTimeout cfg)
     [fj_WithRetry (\<lambda>ctx. policy_of cfg (fj_sleep (ou_net O') ctx)), fj_WithPacing (ForgejoMinInterval cfg)]"

text \<open>The reconcilers; the settings that \<open>reconcile.New\<close> adds are still empty.\<close>

definition reconcilers :: "'v outside \<Rightarrow> 'c config \<Rightarrow> 'v forgejo_net github_client \<Rightarrow> 'v forgejo_client \<Rightarrow> 'v forges engine" where
  "reconcilers O' cfg github forgejo =
     \<lparr>en_repositories = \<lparr>rr_github = gh_discovery github, rr_forgejo = beside_discovery (fj_discovery forgejo),
        rr_githubToken = GitHubToken cfg, rr_ownerMap = ForgejoOwnerMap cfg, rr_repoMap = ForgejoRepoMap cfg\<rparr>,
      en_issues = \<lparr>ir_github = gh_issue_forge github, ir_forgejo = beside_issues (fj_issue_forge forgejo)\<rparr>,
      en_comments = \<lparr>cr_github = gh_comment_forge github, cr_forgejo = beside_comments (fj_comment_forge forgejo)\<rparr>,
      en_pulls = \<lparr>pr_github = gh_pull_forge github, pr_forgejo = beside_pulls (fj_pull_forge forgejo)\<rparr>,
      en_releases = \<lparr>lr_github = gh_release_forge github, lr_forgejo = beside_releases (fj_release_forge forgejo),
        lr_maxAssetSize = MaxAssetSizeBytes cfg\<rparr>,
      en_setSecret = (\<lambda>o' n k v. gh_net (fj_SetActionSecret forgejo o' n k v)), en_secrets = ActionSecrets cfg,
      en_git = ou_git O' (GitTimeout cfg), en_namespaces = [], en_githubToken = [], en_forgejoToken = [], en_cloneBase = [],
      en_maxConcurrency = 0, en_maxRefSizeKB = 0, en_schedule = ou_schedule O', en_decode = ou_decode O'\<rparr>"

text \<open>\<open>Inr None\<close> is a panic of one of the constructors.\<close>

definition openRuntime :: "'v outside \<Rightarrow> 'c config \<Rightarrow> go_error + 'v application option" where
  "openRuntime O' cfg =
     (case ou_openErr O' (StatePath cfg) of Some e \<Rightarrow> Inl e
      | None \<Rightarrow> (case open_github O' cfg of Inl e \<Rightarrow> Inl e
      | Inr github \<Rightarrow> (case open_forgejo O' cfg of Inl e \<Rightarrow> Inl e
      | Inr forgejo \<Rightarrow> Inr (
          if GitHubToken cfg = [] \<or> GitTimeout cfg \<le> 0 then None
          else map_option (\<lambda>engine. \<lparr>ap_engine = engine, ap_github = github, ap_forgejo = forgejo\<rparr>)
            (new_engine (reconcilers O' cfg github forgejo) (Namespaces cfg) (GitHubToken cfg) (ForgejoToken cfg)
               (ForgejoAPI cfg) (MaxConcurrency cfg) (MaxRefSizeKB cfg))))))"

section \<open>The command line\<close>

definition usageError :: go_error where
  "usageError = Err (''usage: forge-sync {status|bootstrap [--dry-run]|discover|reconcile [owner/repo]|inspect owner/repo|''
     @ ''conflicts [resolve <id>]|wire-webhooks [--dry-run]|serve}'')"

text \<open>\<open>strconv.ParseBool\<close>, and \<open>FlagSet.Parse\<close> of a set whose one flag is the boolean
  \<open>dry-run\<close>: its value and the arguments that are left.\<close>

definition ParseBool :: "string \<Rightarrow> bool option" where
  "ParseBool s = (if s \<in> {''1'', ''t'', ''T'', ''TRUE'', ''true'', ''True''} then Some True
     else if s \<in> {''0'', ''f'', ''F'', ''FALSE'', ''false'', ''False''} then Some False else None)"

definition set_flag :: "string \<Rightarrow> go_error + bool" where
  "set_flag name = (case Cut CHR ''='' name of (flag, given, hasValue) \<Rightarrow>
     if flag = ''dry-run''
     then (if \<not> hasValue then Inr True
           else case ParseBool given of Some b \<Rightarrow> Inr b
             | None \<Rightarrow> Inl (Err (''invalid boolean value '' @ Quote given @ '' for -'' @ flag @ '': parse error'')))
     else if flag = ''help'' \<or> flag = ''h'' then Inl (Err ''flag: help requested'')
     else Inl (Err (''flag provided but not defined: -'' @ flag)))"

fun parse_flags :: "bool \<Rightarrow> string list \<Rightarrow> go_error + bool \<times> string list" where
  "parse_flags dryRun [] = Inr (dryRun, [])"
| "parse_flags dryRun (a # as) =
     (if length a < 2 \<or> hd a \<noteq> CHR ''-'' then Inr (dryRun, a # as)
      else if a = ''--'' then Inr (dryRun, as)
      else let name = drop (if a ! 1 = CHR ''-'' then 2 else 1) a
           in if hd name = CHR ''-'' \<or> hd name = CHR ''='' then Inl (Err (''bad flag syntax: '' @ a))
              else case set_flag name of Inl e \<Rightarrow> Inl e | Inr b \<Rightarrow> parse_flags b as)"

text \<open>\<open>Engine.Reconcile\<close> with both of its results: a run that fails has a report as well.\<close>

definition Reconcile_reporting ::
  "'w env \<Rightarrow> 'w engine \<Rightarrow> string \<Rightarrow> bool \<Rightarrow> ('w sys, sync_report \<times> go_error option) prog" where
  "Reconcile_reporting E N scope dryRun =
     (let scope = (if scope = [] then ''all'' else scope)
      in tryE (BeginRun E scope dryRun) (\<lambda>started. case started of
           Inl e \<Rightarrow> ret (\<lparr>rep_Inventory = empty_inventory, rep_Repositories = []\<rparr>, Some e)
         | Inr runID \<Rightarrow>
             bnd (reconcile_body E N scope dryRun) (\<lambda>(report, finalErr).
             tryE (CompleteRun E runID (report_json report) finalErr) (\<lambda>completed.
             ret (report, case finalErr of Some e \<Rightarrow> Some e
               | None \<Rightarrow> (case completed of Inl e \<Rightarrow> Some e | Inr _ \<Rightarrow> None))))))"

text \<open>An early return of an error writes nothing.\<close>

definition or_error :: "('w sys, outcome) prog \<Rightarrow> ('w sys, outcome) prog" where
  "or_error m = tryE m (\<lambda>r. ret (case r of Inl e \<Rightarrow> ([], Some e) | Inr out \<Rightarrow> out))"

definition fails :: "go_error \<Rightarrow> ('w sys, outcome) prog" where
  "fails e = ret ([], Some e)"

definition status_command :: "'v outside \<Rightarrow> ('v forges sys, outcome) prog" where
  "status_command O' = or_error (bnd (Stats (ou_env O')) (\<lambda>t. ret (writeJSON (ou_stdout O') (stats_value t))))"

definition bootstrap_command :: "'v outside \<Rightarrow> 'v application \<Rightarrow> string list \<Rightarrow> ('v forges sys, outcome) prog" where
  "bootstrap_command O' A arguments =
     (case parse_flags False arguments of Inl e \<Rightarrow> fails e
      | Inr (dryRun, rest) \<Rightarrow>
          if rest \<noteq> [] then fails usageError
          else bnd (Reconcile_reporting (ou_env O') (ap_engine A) ''all'' dryRun) (\<lambda>(report, err).
            ret (printInventory report, err)))"

definition discover_command :: "'v outside \<Rightarrow> 'v application \<Rightarrow> ('v forges sys, outcome) prog" where
  "discover_command O' A = (let E = ou_env O'; N = ap_engine A in with_state (\<lambda>s.
     tryE (Discover E (en_repositories N) (en_namespaces N) False) (\<lambda>r. ret (case r of
       Inr v \<Rightarrow> (printInventory \<lparr>rep_Inventory = v, rep_Repositories = []\<rparr>, None)
     | Inl e \<Rightarrow> (printInventory \<lparr>rep_Inventory = Discover_reached E (en_repositories N) False (en_namespaces N) (empty_inventory, {}) s,
         rep_Repositories = []\<rparr>, Some e)))))"

definition reconcile_command :: "'v outside \<Rightarrow> 'v application \<Rightarrow> string \<Rightarrow> ('v forges sys, outcome) prog" where
  "reconcile_command O' A scope =
     bnd (Reconcile_reporting (ou_env O') (ap_engine A) scope False) (\<lambda>(report, err).
     ret (case writeJSON (ou_stdout O') (report_value report) of (text, writeErr) \<Rightarrow>
       (text, if writeErr \<noteq> None \<and> err = None then writeErr else err)))"

definition inspect :: "'v outside \<Rightarrow> string \<Rightarrow> ('v forges sys, outcome) prog" where
  "inspect O' fullName = (let E = ou_env O' in or_error (
     bnd (ListRepositories E) (\<lambda>mappings.
     case List.find (\<lambda>m. EqualFold (rm_GitHubFullName m) fullName) mappings of
       None \<Rightarrow> throw (Err (''repository '' @ Quote fullName @ '' is not mapped''))
     | Some mapping \<Rightarrow>
         bnd (ListIssueMappings E (rm_GitHubID mapping)) (\<lambda>issueMappings.
         bnd (ListConflicts E) (\<lambda>conflicts.
         ret (writeJSON (ou_stdout O') (json_map
           [(''repository'', repository_value mapping), (''issues'', json_slice issue_mapping_value issueMappings),
            (''conflicts'', json_slice conflict_value (filter (\<lambda>k. EqualFold (k_Repository k) fullName) conflicts))])))))))"

definition conflicts_command :: "'v outside \<Rightarrow> string list \<Rightarrow> ('v forges sys, outcome) prog" where
  "conflicts_command O' arguments =
     (case arguments of
        [] \<Rightarrow> or_error (bnd (ListConflicts (ou_env O')) (\<lambda>conflicts.
          ret (writeJSON (ou_stdout O') (json_slice conflict_value conflicts))))
      | [verb, number] \<Rightarrow>
          if verb \<noteq> ''resolve'' then fails usageError
          else (case ParseInt number of
            None \<Rightarrow> fails usageError
          | Some i \<Rightarrow>
              if i \<le> 0 then fails usageError
              else or_error (bnd (ResolveConflict (ou_env O') i) (\<lambda>resolved. case resolved of
                None \<Rightarrow> throw (Err (''no unresolved conflict with id '' @ FormatInt i))
              | Some conflict \<Rightarrow> ret (writeJSON (ou_stdout O') (conflict_value conflict)))))
      | _ \<Rightarrow> fails usageError)"

definition wiring_of :: "'c config \<Rightarrow> 'v application \<Rightarrow> 'v forges wiring" where
  "wiring_of cfg A = \<lparr>wg_github = gh_wire_forge (ap_github A), wg_forgejo = beside_hooks (fj_wire_forge (ap_forgejo A)),
     wg_namespaces = Namespaces cfg\<rparr>"

definition wireWebhooks :: "'v outside \<Rightarrow> 'c config \<Rightarrow> 'v application \<Rightarrow> bool \<Rightarrow> ('v forges sys, outcome) prog" where
  "wireWebhooks O' cfg A dryRun =
     or_error (bnd (ext (Wire (wiring_of cfg A) (GitHubWebhookURL cfg) (ForgejoWebhookURL cfg)
         (GitHubWebhookSecret cfg) (ForgejoWebhookSecret cfg) dryRun)) (\<lambda>rep.
       ret (writeJSON (ou_stdout O') (wiring_value rep))))"

section \<open>The server\<close>

text \<open>A path that \<open>http.ServeMux\<close> would clean: it answers such a request itself, with a redirect
  to the clean path (whose text is left out here).\<close>

definition clean_path :: "string \<Rightarrow> bool" where
  "clean_path p = (case Split slash p of
       [] # s # ss \<Rightarrow> list_all (\<lambda>x. x \<noteq> [] \<and> x \<noteq> ''.'' \<and> x \<noteq> ''..'') (butlast (s # ss))
         \<and> last (s # ss) \<notin> {''.'', ''..''}
     | _ \<Rightarrow> False)"

definition Ping :: "'w env \<Rightarrow> ('w sys, unit) prog" where
  "Ping E = db_query E (\<lambda>_. ())"

definition healthz :: "'w env \<Rightarrow> http_request \<Rightarrow> ('w sys, http_response) prog" where
  "healthz E request =
     (if rq_Method request \<noteq> ''GET'' then ret \<lparr>hr_status = 405, hr_text = []\<rparr>
      else tryE (Ping E) (\<lambda>r. ret (case r of
        Inl _ \<Rightarrow> http_Error ''unhealthy'' 503
      | Inr _ \<Rightarrow> \<lparr>hr_status = 200, hr_text = ''{\"status\":\"ok\"}'' @ [newline]\<rparr>)))"

definition metrics_text :: "stats \<Rightarrow> string" where
  "metrics_text t = concat (map (\<lambda>(name, n). ''forge_sync_'' @ name @ '' '' @ FormatInt (int n) @ [newline])
     [(''repositories'', st_Repositories t), (''issues'', st_Issues t), (''pull_requests'', st_PullRequests t),
      (''comments'', st_Comments t), (''releases'', st_Releases t), (''conflicts'', st_Conflicts t),
      (''webhook_deliveries'', st_Deliveries t), (''reconciliation_runs'', st_Runs t)])"

definition metrics :: "'w env \<Rightarrow> ('w sys, http_response) prog" where
  "metrics E = tryE (Stats E) (\<lambda>r. ret (case r of
     Inl _ \<Rightarrow> http_Error ''metrics unavailable'' 503
   | Inr t \<Rightarrow> \<lparr>hr_status = 200, hr_text = metrics_text t\<rparr>))"

definition mux :: "'w env \<Rightarrow> webhook_server \<Rightarrow> 'w engine \<Rightarrow> http_request \<Rightarrow> ('w sys, http_response) prog" where
  "mux E W N request = (let path = rq_Path request in
     if rq_Method request \<noteq> ''CONNECT'' \<and> \<not> clean_path path then ret \<lparr>hr_status = 301, hr_text = []\<rparr>
     else if path = ''/webhooks/github'' \<or> path = ''/webhooks/forgejo'' then ServeHTTP E W (ProcessWebhook E N) request
     else if path = ''/healthz'' then healthz E request
     else if path = ''/metrics'' then metrics E
     else ret (http_Error ''404 page not found'' 404))"

definition webhook_server_of :: "'c config \<Rightarrow> webhook_server option" where
  "webhook_server_of cfg =
     (if GitHubWebhookSecret cfg = [] \<or> ForgejoWebhookSecret cfg = [] \<or> MaxWebhookBody cfg \<le> 0 then None
      else Some \<lparr>ws_githubSecret = GitHubWebhookSecret cfg, ws_forgejoSecret = ForgejoWebhookSecret cfg,
        ws_maxBody = MaxWebhookBody cfg\<rparr>)"

text \<open>The responses to the requests, and the error that \<open>serve\<close> returns when it is ended. Once the
  context has ended the scheduler starts no cycle; the server still runs until it is shut down.\<close>

definition ending :: "go_error option \<Rightarrow> service_end \<Rightarrow> go_error option" where
  "ending shutdown e = (case e of ListenerEnded err \<Rightarrow> err | Interrupted \<Rightarrow> shutdown)"

fun serve_events ::
  "'w env \<Rightarrow> webhook_server \<Rightarrow> 'w engine \<Rightarrow> go_error option \<Rightarrow> service_event list \<Rightarrow>
   ('w sys, http_response list \<times> go_error option) prog" where
  "serve_events E W N result [] = ret ([], result)"
| "serve_events E W N result (StartupCycle # events) =
     tryE (Reconcile E N ''all'' False) (\<lambda>_. serve_events E W N result events)"
| "serve_events E W N result (PeriodicCycle # events) =
     (\<lambda>s. if stopped N s then serve_events E W N result events s
      else tryE (Reconcile E N ''all'' False) (\<lambda>_. serve_events E W N result events) s)"
| "serve_events E W N result (Incoming request # events) =
     bnd (mux E W N request) (\<lambda>response.
     bnd (serve_events E W N result events) (\<lambda>(responses, err). ret (response # responses, err)))"

text \<open>\<open>None\<close> is a panic of \<open>webhooks.New\<close> or \<open>NewScheduler\<close>.\<close>

definition serve :: "'v outside \<Rightarrow> 'c config \<Rightarrow> 'v application \<Rightarrow> ('v forges sys, outcome option) prog" where
  "serve O' cfg A =
     (case webhook_server_of cfg of None \<Rightarrow> ret None
      | Some W \<Rightarrow>
          if ReconcileInterval cfg \<le> 0 then ret None
          else bnd (serve_events (ou_env O') W (ap_engine A) (ending (ou_shutdown O') (ou_end O')) (ou_events O')) (\<lambda>(_, err).
            ret (Some ([], err))))"

section \<open>The program\<close>

definition ended :: "('w sys, outcome) prog \<Rightarrow> ('w sys, outcome option) prog" where
  "ended m = bnd m (\<lambda>out. ret (Some out))"

text \<open>\<open>NewWiring\<close> panics without namespaces.\<close>

definition wire_command :: "'v outside \<Rightarrow> 'c config \<Rightarrow> 'v application \<Rightarrow> string list \<Rightarrow> ('v forges sys, outcome option) prog" where
  "wire_command O' cfg A arguments =
     (case parse_flags False arguments of Inl e \<Rightarrow> ended (fails e)
      | Inr (dryRun, rest) \<Rightarrow>
          if rest \<noteq> [] then ended (fails usageError)
          else if Namespaces cfg = [] then ret None else ended (wireWebhooks O' cfg A dryRun))"

definition dispatch :: "'v outside \<Rightarrow> 'c config \<Rightarrow> 'v application \<Rightarrow> string \<Rightarrow> string list \<Rightarrow> ('v forges sys, outcome option) prog" where
  "dispatch O' cfg A command arguments =
     (if command = ''status'' then ended (if arguments \<noteq> [] then fails usageError else status_command O')
      else if command = ''bootstrap'' then ended (bootstrap_command O' A arguments)
      else if command = ''discover'' then ended (if arguments \<noteq> [] then fails usageError else discover_command O' A)
      else if command = ''reconcile'' then ended (case arguments of
          [] \<Rightarrow> reconcile_command O' A ''all'' | [scope] \<Rightarrow> reconcile_command O' A scope | _ \<Rightarrow> fails usageError)
      else if command = ''inspect'' then ended (case arguments of
          [fullName] \<Rightarrow> inspect O' fullName | _ \<Rightarrow> fails usageError)
      else if command = ''conflicts'' then ended (conflicts_command O' arguments)
      else if command = ''wire-webhooks'' then wire_command O' cfg A arguments
      else if command = ''serve'' then (if arguments \<noteq> [] then ended (fails usageError) else serve O' cfg A)
      else ended (fails usageError))"

text \<open>The function \<open>run\<close>; it is \<open>None\<close> where the program panics.\<close>

definition run_main :: "'v outside \<Rightarrow> string list \<Rightarrow> ('v forges sys, outcome option) prog" where
  "run_main O' arguments =
     (case arguments of [] \<Rightarrow> ended (fails usageError)
      | command # rest \<Rightarrow> (case FromEnvironment (ou_environment O') (\<lambda>_ (w :: unit). (Inr (), w)) of
          Inl e \<Rightarrow> ended (fails e)
        | Inr cfg \<Rightarrow> (case openRuntime O' cfg of
            Inl e \<Rightarrow> ended (fails e)
          | Inr None \<Rightarrow> ret None
          | Inr (Some A) \<Rightarrow> dispatch O' cfg A command rest)))"

text \<open>A process starts with clients that know of no request and of no rate limit.\<close>

definition started :: "store \<Rightarrow> 'v \<Rightarrow> 'v forges sys" where
  "started d v = \<lparr>db = d, world = \<lparr>gn_limitsRemaining = 0, gn_limitsResetAt = time_zero, gn_paceLast = time_zero,
     gn_world = \<lparr>fn_paceLast = time_zero, fn_status = 0, fn_world = v\<rparr>\<rparr>\<rparr>"

end
