(* ===== verification/ApplicationProperties.thy ===== *)
theory ApplicationProperties
  imports Application
begin

text \<open>
  Properties of the program as a whole: a configuration that it accepts satisfies every constructor, the
  commands that claim to read only read, and whatever command is run, or whatever happens to the
  server, the store stays well-formed and loses nothing.
\<close>

section \<open>The report and the result of a run\<close>

text \<open>\<open>Reconcile\<close> is the reporting run without the report of a failure.\<close>

lemma Reconcile_projection:
  "Reconcile E N scope dryRun s = (case Reconcile_reporting E N scope dryRun s of
     (Inr (report, None), t) \<Rightarrow> (Inr report, t) | (Inr (_, Some e), t) \<Rightarrow> (Inl e, t) | (Inl e, t) \<Rightarrow> (Inl e, t))"
  by (auto simp: Reconcile_def Reconcile_reporting_def bnd_app tryE_app ret_app throw_app Let_def
      split: prod.splits sum.splits option.splits)

lemma Reconcile_reporting_returns: "\<exists>v t. Reconcile_reporting E N scope dryRun s = (Inr v, t)"
proof -
  define scope' where "scope' = (if scope = [] then ''all'' else scope)"
  obtain started u where started: "BeginRun E scope' dryRun s = (started, u)" by fastforce
  obtain v t where "reconcile_body E N scope' dryRun u = (Inr v, t)" using reconcile_body_returns by blast
  with started show ?thesis
    by (simp add: Reconcile_reporting_def scope'_def [symmetric] bnd_app tryE_app ret_app Let_def split: prod.split sum.split)
qed

section \<open>The constructors\<close>

lemma FromEnvironment_valid: "FromEnvironment e sleep = Inr cfg \<Longrightarrow> Validate e cfg = Inr ()"
  by (auto simp: FromEnvironment_def Let_def split: sum.splits)

lemma Validate_settings:
  assumes "Validate e cfg = Inr ()"
  shows "Namespaces cfg \<noteq> []" "1 \<le> MaxConcurrency cfg" "0 < GitTimeout cfg" "0 < ReconcileInterval cfg" "0 < MaxWebhookBody cfg"
    and "filter (\<lambda>nv. snd nv = []) (ce_order e (required cfg)) = []"
  using assms by (auto simp: Validate_def first_error_Inr Let_def minute_def second_def)

lemma gh_New_token: "gh_New X url token timeout options = Inr C \<Longrightarrow> token \<noteq> []"
  by (auto simp: gh_New_def Let_def split: option.splits if_splits)

lemma fj_New_token: "fj_New X b url token timeout options = Inr C \<Longrightarrow> token \<noteq> []"
  by (auto simp: fj_New_def Let_def split: option.splits if_splits)

lemma openRuntime_no_panic: "Validate e cfg = Inr () \<Longrightarrow> openRuntime O' cfg \<noteq> Inr None"
  using Validate_settings [of e cfg]
  by (auto simp: openRuntime_def open_github_def open_forgejo_def new_engine_def Let_def
      dest!: gh_New_token fj_New_token split: option.splits sum.splits)

lemma webhook_server_ok:
  assumes "Validate e cfg = Inr ()" and "\<And>m. mset (ce_order e m) = mset m"
  shows "webhook_server_of cfg \<noteq> None"
proof -
  have "set (ce_order e (required cfg)) = set (required cfg)" by (metis assms(2) mset_eq_setD)
  then show ?thesis using Validate_settings [OF assms(1)]
    by (auto simp: webhook_server_of_def filter_empty_conv required_def)
qed

text \<open>Programs that return, whatever they return.\<close>

definition returns :: "('s, 'a) prog \<Rightarrow> ('a \<Rightarrow> bool) \<Rightarrow> bool" where
  "returns m P \<longleftrightarrow> (\<forall>s. \<exists>v t. m s = (Inr v, t) \<and> P v)"

lemma returns_ret: "P v \<Longrightarrow> returns (ret v) P" by (simp add: returns_def ret_app)

lemma returns_bnd: "returns m P \<Longrightarrow> (\<And>v. P v \<Longrightarrow> returns (k v) Q) \<Longrightarrow> returns (bnd m k) Q"
  unfolding returns_def bnd_app by (metis (no_types, lifting) old.prod.case sum.case(2))

lemma returns_tryE: "(\<And>r. returns (k r) Q) \<Longrightarrow> returns (tryE m k) Q"
  unfolding returns_def tryE_app by (metis surj_pair old.prod.case)

lemma returns_with_state: "(\<And>s. returns (m s) P) \<Longrightarrow> returns (with_state m) P"
  by (simp add: returns_def with_state_def)

lemma returns_any: "returns m P \<Longrightarrow> returns m (\<lambda>_. True)" by (fastforce simp: returns_def)

abbreviation completes :: "('s, 'a) prog \<Rightarrow> bool" where
  "completes m \<equiv> returns m (\<lambda>_. True)"

lemma completes_report: "completes (Reconcile_reporting E N scope dryRun)"
  using Reconcile_reporting_returns [of E N scope dryRun] by (auto simp: returns_def)

lemma completes_or_error: "completes (or_error m)"
  by (simp add: or_error_def returns_tryE returns_ret)

lemma completes_fails: "completes (fails e)" by (simp add: fails_def returns_ret)

lemmas completes_rules = completes_or_error completes_fails completes_report

lemma completes_command:
  "completes (status_command O')" "completes (bootstrap_command O' A args)" "completes (discover_command O' A)"
  "completes (reconcile_command O' A scope)" "completes (inspect O' name)" "completes (conflicts_command O' args)"
  "completes (wireWebhooks O' cfg A dryRun)"
  by (auto simp: status_command_def bootstrap_command_def discover_command_def reconcile_command_def inspect_def
      conflicts_command_def wireWebhooks_def Let_def
      intro!: completes_rules returns_ret returns_with_state returns_tryE returns_bnd [OF completes_report]
      split: sum.split prod.split list.split option.split)

definition no_panic :: "outcome option \<Rightarrow> bool" where
  "no_panic v \<longleftrightarrow> v \<noteq> None"

lemma no_panic_Some: "no_panic (Some v)" by (simp add: no_panic_def)

lemma ended_some: "completes m \<Longrightarrow> returns (ended m) no_panic"
  unfolding ended_def by (rule returns_bnd, assumption) (rule returns_ret, rule no_panic_Some)

lemma completes_mux: "completes (mux E W N request)"
  by (auto simp: mux_def healthz_def metrics_def ServeHTTP_def deliver_def Let_def
      intro!: returns_ret returns_tryE split: sum.split prod.split bool.split)

lemma completes_events: "completes (serve_events E W N result events)"
proof (induction events)
  case (Cons event events)
  have periodic: "completes (\<lambda>s. if stopped N s then serve_events E W N result events s
      else tryE (Reconcile E N ''all'' False) (\<lambda>_. serve_events E W N result events) s)"
    using Cons returns_tryE [of "\<lambda>_. serve_events E W N result events" "\<lambda>_. True" "Reconcile E N ''all'' False"]
    by (auto simp: returns_def)
  show ?case
    using Cons periodic
    by (cases event) (auto intro!: returns_ret returns_tryE returns_bnd [OF completes_mux] returns_bnd [OF Cons])
qed (simp add: returns_ret)

lemma serve_some:
  assumes "Validate e cfg = Inr ()" and "\<And>m. mset (ce_order e m) = mset m"
  shows "returns (serve O' cfg A) no_panic"
  using webhook_server_ok [OF assms] Validate_settings [OF assms(1)]
  by (auto simp: serve_def intro!: returns_bnd [OF completes_events] returns_ret no_panic_Some split: option.split)

lemma dispatch_some:
  assumes "Validate e cfg = Inr ()" and "\<And>m. mset (ce_order e m) = mset m"
  shows "returns (dispatch O' cfg A command arguments) no_panic"
proof -
  note steps = ended_some completes_fails completes_command serve_some [OF assms]
  have wire: "returns (wire_command O' cfg A arguments) no_panic"
    using Validate_settings(1) [OF assms(1)]
    by (auto simp: wire_command_def intro!: steps split: sum.split)
  have reconcile: "completes (case arguments of [] \<Rightarrow> reconcile_command O' A ''all''
      | [scope] \<Rightarrow> reconcile_command O' A scope | _ \<Rightarrow> fails usageError)"
    and inspect: "completes (case arguments of [fullName] \<Rightarrow> inspect O' fullName | _ \<Rightarrow> fails usageError)"
    by (auto intro!: steps split: list.split)
  show ?thesis unfolding dispatch_def using wire reconcile inspect
    by (simp add: steps)
qed

text \<open>C4: a configuration that is accepted satisfies every constructor. Whatever the environment says, if
  \<open>FromEnvironment\<close> returns a configuration then opening the runtime on it does not panic (the
  clients, the reconcilers, the git synchronizer, the engine), nor do the webhook handler
  (secrets and a body limit), the scheduler (a positive interval) and the wiring (namespaces).
  So no run of the program, whatever its command line, ends in the panic of a constructor.\<close>

theorem constructors_satisfied:
  assumes "\<And>m. mset (ce_order (ou_environment O') m) = mset m"
  shows "(\<forall>cfg. FromEnvironment (ou_environment O') (\<lambda>_ (w :: unit). (Inr (), w)) = Inr cfg \<longrightarrow>
      openRuntime O' cfg \<noteq> Inr None \<and> webhook_server_of cfg \<noteq> None
      \<and> 0 < ReconcileInterval cfg \<and> Namespaces cfg \<noteq> [])
    \<and> fst (run_main O' arguments s) \<noteq> Inr None"
proof (intro conjI allI impI)
  have "returns (run_main O' arguments) no_panic"
    unfolding run_main_def
    by (auto intro!: ended_some completes_fails dispatch_some [OF _ assms]
        dest: FromEnvironment_valid openRuntime_no_panic split: list.split sum.split option.split)
  then obtain v t where "run_main O' arguments s = (Inr v, t)" "no_panic v" unfolding returns_def by blast
  then show "fst (run_main O' arguments s) \<noteq> Inr None" by (auto simp: no_panic_def)
next
  fix cfg assume "FromEnvironment (ou_environment O') (\<lambda>_ (w :: unit). (Inr (), w)) = Inr cfg"
  then have valid: "Validate (ou_environment O') cfg = Inr ()" by (rule FromEnvironment_valid)
  show "openRuntime O' cfg \<noteq> Inr None" by (rule openRuntime_no_panic [OF valid])
  show "webhook_server_of cfg \<noteq> None" by (rule webhook_server_ok [OF valid assms])
  show "0 < ReconcileInterval cfg" "Namespaces cfg \<noteq> []" by (rule Validate_settings [OF valid])+
qed

section \<open>What the commands keep\<close>

lemmas retained_steps = honest_retained [OF Reconcile_honest] honest_retained [OF Discover_honest]
  honest_retained [OF read_honest(3)] honest_retained [OF read_honest(4)] honest_retained [OF read_honest(8)]
  honest_retained [OF read_honest(10)] honest_retained [OF engine.ServeHTTP_honest] ResolveConflict_retained

lemma Reconcile_reporting_honest: "guar (on_db honest) (Reconcile_reporting E N scope dryRun)"
  unfolding Reconcile_reporting_def by (intro guar_intros guar_splits)

lemma guar_list: "guar R m \<Longrightarrow> (\<And>y ys. x = y # ys \<Longrightarrow> guar R (n y ys)) \<Longrightarrow> guar R (case x of [] \<Rightarrow> m | y # ys \<Rightarrow> n y ys)"
  by (cases x) auto

lemma command_retained:
  "guar (on_db retained) (status_command O')" "guar (on_db retained) (bootstrap_command O' A args)"
  "guar (on_db retained) (discover_command O' A)" "guar (on_db retained) (reconcile_command O' A scope)"
  "guar (on_db retained) (inspect O' name)" "guar (on_db retained) (conflicts_command O' args)"
  "guar (on_db retained) (wireWebhooks O' cfg A dryRun)" "guar (on_db retained) (fails e)"
  unfolding status_command_def bootstrap_command_def discover_command_def reconcile_command_def inspect_def
    conflicts_command_def wireWebhooks_def fails_def or_error_def Let_def
  by (intro guar_intros guar_splits with_state_guar retained_steps honest_retained [OF Reconcile_reporting_honest]
      guar_list)+

lemma mux_retained: "guar (on_db retained) (mux E W N request)"
  unfolding mux_def healthz_def metrics_def Ping_def Let_def
  by (intro guar_intros guar_splits retained_steps)

lemma serve_events_retained: "guar (on_db retained) (serve_events E W N result events)"
proof (induction events)
  case (Cons event events)
  have periodic: "guar (on_db retained) (\<lambda>s. if stopped N s then serve_events E W N result events s
      else tryE (Reconcile E N ''all'' False) (\<lambda>_. serve_events E W N result events) s)"
    using Cons retained.tryE_guar [OF retained_steps(1) Cons] by (simp add: guar_def)
  show ?case
    using Cons periodic
    by (cases event) (auto intro!: guar_intros guar_splits retained_steps mux_retained)
qed (simp add: retained.ret_guar)

lemma wire_command_retained: "guar (on_db retained) (wire_command O' cfg A args)"
  unfolding wire_command_def ended_def by (intro guar_intros guar_splits command_retained)

lemma dispatch_retained: "guar (on_db retained) (dispatch O' cfg A command args)"
  unfolding dispatch_def ended_def serve_def
  by (intro guar_intros guar_splits command_retained wire_command_retained serve_events_retained guar_list)

text \<open>C3: whatever command is run, whatever the forges, git and the database answer, and whatever
  requests, ticks and signals the server meets, the store stays well-formed and keeps its rows.
  Every row stays in its table: a mapping is only ever overwritten by one with the same key; of
  a webhook delivery the claim (event, hash and time of receipt) stays, and that it was
  processed; a completed run stays as it was recorded and a running one can only be completed;
  a conflict stays as it was recorded, but that an unresolved one may be resolved.\<close>

theorem commands_keep_store:
  assumes "run_main O' arguments s = (r, t)"
  shows "(store_wf (db s) \<longrightarrow> store_wf (db t)) \<and> rows_kept (db s) (db t)
    \<and> evolves conflict_kept (t_conflicts (db s)) (t_conflicts (db t))"
proof -
  have "guar (on_db retained) (run_main O' arguments)"
    unfolding run_main_def ended_def
    by (intro guar_intros guar_splits command_retained dispatch_retained guar_list)
  from guarD [OF this assms] show ?thesis by (simp add: on_db_def retained_def)
qed

section \<open>The commands that only read\<close>

text \<open>The same outside with another network and another git.\<close>

definition exchange ::
  "(duration \<Rightarrow> call_context \<Rightarrow> api_request \<Rightarrow> ('v, api_reply) call) \<Rightarrow> (duration \<Rightarrow> 'v forges host) \<Rightarrow> 'v outside \<Rightarrow> 'v outside" where
  "exchange D git O' = O'\<lparr>ou_net := (ou_net O')\<lparr>hx_Do := D\<rparr>, ou_git := git\<rparr>"

lemma exchange_same [simp]:
  "ou_env (exchange D git O') = ou_env O'" "ou_environment (exchange D git O') = ou_environment O'"
  "ou_openErr (exchange D git O') = ou_openErr O'" "ou_stdout (exchange D git O') = ou_stdout O'"
  "ou_boundary (exchange D git O') = ou_boundary O'"
  by (simp_all add: exchange_def)

abbreviation lifted where
  "lifted D \<equiv> \<lambda>timeout ctx rq. fj_net (D timeout ctx rq)"

lemma lift_net_exchange: "lift_net (X\<lparr>hx_Do := D\<rparr>) = (lift_net X)\<lparr>hx_Do := lifted D\<rparr>"
  by (simp add: lift_net_def)

lemma open_github_exchange:
  "open_github (exchange D git O') cfg = map_sum id (on_network (lifted D)) (open_github O' cfg)"
proof -
  have sleep: "gh_sleep (X\<lparr>hx_Do := F\<rparr>) = gh_sleep X" for X :: "'w internet" and F
    by (intro HOL.ext) (simp add: gh_sleep_def)
  show ?thesis
    by (simp add: open_github_def exchange_def lift_net_exchange gh_New_def gh_WithRetry_def gh_WithPacing_def
        uploadsBase_def sleep on_network_def Let_def policy_of_def retry_Validate_def split: option.split)
qed

lemma open_forgejo_exchange:
  "open_forgejo (exchange D git O') cfg = map_sum id (fj_on D) (open_forgejo O' cfg)"
proof -
  have sleep: "fj_sleep (X\<lparr>hx_Do := F\<rparr>) = fj_sleep X" for X :: "'w internet" and F
    by (intro HOL.ext) (simp add: fj_sleep_def)
  show ?thesis
    by (simp add: open_forgejo_def exchange_def fj_New_def fj_WithRetry_def fj_WithPacing_def
        sleep fj_on_def Let_def policy_of_def retry_Validate_def split: option.split)
qed

text \<open>Two runtimes that read alike.\<close>

definition runtime_alike :: "'v application \<Rightarrow> 'v application \<Rightarrow> bool" where
  "runtime_alike A B \<longleftrightarrow> reads_alike (ap_engine A) (ap_engine B)
     \<and> lists_alike (gh_wire_forge (ap_github A)) (gh_wire_forge (ap_github B))
     \<and> lists_alike (beside_hooks (fj_wire_forge (ap_forgejo A))) (beside_hooks (fj_wire_forge (ap_forgejo B)))"

lemma reconcilers_alike:
  assumes "agrees_on_get (lifted D) (gc_net github)" and "agrees_on_get D (fc_net forgejo)"
    and "agree_on reading (ou_git O' (GitTimeout cfg)) (git (GitTimeout cfg))"
    and "new_engine (reconcilers O' cfg github forgejo) ns gt ft fa mc ms = Some N"
  shows "\<exists>N'. new_engine (reconcilers (exchange D git O') cfg (on_network (lifted D) github) (fj_on D forgejo)) ns gt ft fa mc ms = Some N'
    \<and> reads_alike N N'"
  using assms(3,4)
  by (auto simp: new_engine_def reads_alike_def discovery_alike_def reconcilers_def exchange_def
      gh_discovery_def gh_issue_forge_def gh_comment_forge_def gh_pull_forge_def gh_release_forge_def
      fj_discovery_def fj_issue_forge_def fj_comment_forge_def fj_pull_forge_def fj_release_forge_def
      beside_discovery_def beside_issues_def beside_comments_def beside_pulls_def beside_releases_def
      gh_reads [OF assms(1)] fj_reads [OF assms(2)] split: if_splits)

lemma open_nets:
  "open_github O' cfg = Inr github \<Longrightarrow> gc_net github = lift_net (ou_net O')"
  "open_forgejo O' cfg = Inr forgejo \<Longrightarrow> fc_net forgejo = ou_net O'"
  by (auto simp: open_github_def gh_New_def gh_WithRetry_def gh_WithPacing_def open_forgejo_def fj_New_def fj_WithRetry_def
      fj_WithPacing_def Let_def split: option.splits if_splits sum.splits)

lemma agrees_lifted: "agrees_on_get D X \<Longrightarrow> agrees_on_get (lifted D) (lift_net X)"
  by (simp add: agrees_on_get_def lift_net_def)

lemma hooks_alike:
  assumes "agrees_on_get (lifted D) (gc_net github)" and "agrees_on_get D (fc_net forgejo)"
  shows "lists_alike (gh_wire_forge github) (gh_wire_forge (on_network (lifted D) github))"
    and "lists_alike (beside_hooks (fj_wire_forge forgejo)) (beside_hooks (fj_wire_forge (fj_on D forgejo)))"
  by (simp_all add: lists_alike_def gh_wire_forge_def fj_wire_forge_def beside_hooks_def gh_reads [OF assms(1)] fj_reads [OF assms(2)])

lemma openRuntime_exchange:
  assumes "agrees_on_get D (ou_net O')" and "\<And>t. agree_on reading (ou_git O' t) (git t)"
  shows "case openRuntime O' cfg of
      Inr (Some A) \<Rightarrow> (\<exists>B. openRuntime (exchange D git O') cfg = Inr (Some B) \<and> runtime_alike A B)
    | r \<Rightarrow> openRuntime (exchange D git O') cfg = r"
proof (cases "ou_openErr O' (StatePath cfg)")
  case None
  show ?thesis
  proof (cases "open_github O' cfg")
    case github: (Inr github)
    show ?thesis
    proof (cases "open_forgejo O' cfg")
      case forgejo: (Inr forgejo)
      let ?new = "\<lambda>N. new_engine N (Namespaces cfg) (GitHubToken cfg) (ForgejoToken cfg) (ForgejoAPI cfg) (MaxConcurrency cfg) (MaxRefSizeKB cfg)"
      have nets: "agrees_on_get (lifted D) (gc_net github)" "agrees_on_get D (fc_net forgejo)"
        using agrees_lifted [OF assms(1)] assms(1) open_nets [of O' cfg] github forgejo by simp_all
      show ?thesis
      proof (cases "?new (reconcilers O' cfg github forgejo)")
        case missing: None
        then have "?new (reconcilers (exchange D git O') cfg (on_network (lifted D) github) (fj_on D forgejo)) = None"
          by (simp add: new_engine_def split: if_splits)
        with missing show ?thesis using None github forgejo
          by (simp add: openRuntime_def open_github_exchange open_forgejo_exchange)
      next
        case engine: (Some N)
        from reconcilers_alike [where git = git and D = D, OF nets assms(2) engine] hooks_alike [OF nets]
        show ?thesis using None github forgejo engine
          by (auto simp: openRuntime_def open_github_exchange open_forgejo_exchange runtime_alike_def)
      qed
    qed (use None github in \<open>simp add: openRuntime_def open_github_exchange open_forgejo_exchange\<close>)
  qed (use None in \<open>simp add: openRuntime_def open_github_exchange\<close>)
qed (simp add: openRuntime_def)

lemma Wire_dry:
  assumes "lists_alike (wg_github W) (wg_github W')" and "lists_alike (wg_forgejo W) (wg_forgejo W')"
    and "wg_namespaces W' = wg_namespaces W"
  shows "Wire W' gu fu gs fs True = Wire W gu fu gs fs True"
proof -
  have "wireForge nss F' url secret events name True rep = wireForge nss F url secret events name True rep"
    if "lists_alike F F'" for nss F F' url secret events name rep
    by (rule wireForge_cong [OF that]) (rule ensureHook_cong; simp)
  from this [OF assms(1)] this [OF assms(2)] show ?thesis
    by (simp only: Wire_def assms(3))
qed

lemma Reconcile_reporting_dry:
  assumes "reads_alike N N'"
  shows "Reconcile_reporting E N' scope True = Reconcile_reporting E N scope True"
  by (intro HOL.ext) (simp only: Reconcile_reporting_def reconcile_body_dry_reads [OF assms])

text \<open>A dry run, and the commands that change nothing outside.\<close>

definition reading_command :: "string list \<Rightarrow> bool" where
  "reading_command arguments \<longleftrightarrow> (case arguments of [] \<Rightarrow> True
     | command # rest \<Rightarrow>
         if command = ''bootstrap'' \<or> command = ''wire-webhooks''
         then (case parse_flags False rest of Inr (dryRun, _) \<Rightarrow> dryRun | Inl _ \<Rightarrow> True)
         else command \<notin> {''discover'', ''reconcile'', ''serve''})"

lemma dispatch_reading:
  assumes "runtime_alike A B" and "reading_command (command # arguments)"
  shows "dispatch (exchange D git O') cfg B command arguments = dispatch O' cfg A command arguments"
proof -
  have alike: "reads_alike (ap_engine A) (ap_engine B)" using assms(1) by (simp add: runtime_alike_def)
  have boot: "bootstrap_command (exchange D git O') B arguments = bootstrap_command O' A arguments"
    if "command = ''bootstrap''"
    using assms(2) that by (auto simp: reading_command_def bootstrap_command_def Reconcile_reporting_dry [OF alike] split: sum.split)
  have "Wire (wiring_of cfg B) gu fu gs fs True = Wire (wiring_of cfg A) gu fu gs fs True" for gu fu gs fs
    using assms(1) by (intro Wire_dry) (simp_all add: wiring_of_def runtime_alike_def)
  then have wire: "wire_command (exchange D git O') cfg B arguments = wire_command O' cfg A arguments"
    if "command = ''wire-webhooks''"
    using assms(2) that by (auto simp: reading_command_def wire_command_def wireWebhooks_def split: sum.split)
  have rest: "status_command (exchange D git O') = status_command O'" "inspect (exchange D git O') = inspect O'"
    "conflicts_command (exchange D git O') arguments = conflicts_command O' arguments"
    by (intro HOL.ext; simp only: status_command_def inspect_def conflicts_command_def exchange_same)+
  have "command \<noteq> ''discover''" "command \<noteq> ''reconcile''" "command \<noteq> ''serve''"
    using assms(2) by (auto simp: reading_command_def)
  then show ?thesis unfolding dispatch_def rest using boot wire by (simp cong: if_cong)
qed

lemma only_runs_reading:
  assumes "reading_command (command # arguments)" and "command = ''conflicts'' \<Longrightarrow> take 1 arguments \<noteq> [''resolve'']"
  shows "guar (on_db only_runs) (dispatch (O' :: 'v outside) cfg A command arguments)"
proof -
  note reads = read_unchanged [THEN unchanged_only_runs]
  have failed: "guar (on_db only_runs) (fails e :: ('w sys, outcome) prog)" for e
    unfolding fails_def by (intro guar_intros)
  have report: "guar (on_db only_runs) (Reconcile_reporting E N scope True)" for E :: "'x env" and N scope
    unfolding Reconcile_reporting_def reconcile_body_def
    by (intro guar_intros guar_splits with_state_guar only_runs.reconcileMappings_guar
        unchanged_only_runs [OF reconcileOne_dry_unchanged] unchanged_only_runs [OF Discover_dry_unchanged] reads)
  have boot: "guar (on_db only_runs) (bootstrap_command O' A arguments)" if "command = ''bootstrap''"
  proof (cases "parse_flags False arguments")
    case (Inr parsed)
    then have "fst parsed" using assms(1) that by (cases parsed) (simp add: reading_command_def)
    with Inr show ?thesis unfolding bootstrap_command_def
      by (cases parsed) (auto intro!: failed report only_runs.bnd_guar only_runs.ret_guar)
  qed (simp add: bootstrap_command_def failed)
  have rest: "guar (on_db only_runs) (status_command O')" "guar (on_db only_runs) (inspect O' name)"
    "guar (on_db only_runs) (conflicts_command O' [])" "guar (on_db only_runs) (wireWebhooks O' cfg A dryRun)" for name dryRun
    unfolding status_command_def inspect_def conflicts_command_def wireWebhooks_def or_error_def Let_def list.case
    by (intro guar_intros guar_splits reads)+
  have wire: "guar (on_db only_runs) (wire_command O' cfg A arguments)"
    unfolding wire_command_def ended_def by (intro guar_intros guar_splits rest failed)
  have others: "command \<noteq> ''discover''" "command \<noteq> ''reconcile''" "command \<noteq> ''serve''"
    using assms(1) by (auto simp: reading_command_def)
  show ?thesis
  proof -
    have finish: "guar (on_db only_runs) (ended m)" if "guar (on_db only_runs) m" for m :: "('v forges sys, outcome) prog"
      using that unfolding ended_def by (intro guar_intros)
    consider "command = ''bootstrap''" | "command = ''conflicts''" | "command \<noteq> ''bootstrap''" "command \<noteq> ''conflicts''" by blast
    then show ?thesis
    proof cases
      case 1
      then show ?thesis using finish [OF boot] by (simp add: dispatch_def)
    next
      case 2
      then have "conflicts_command O' arguments = (if arguments = [] then conflicts_command O' [] else fails usageError)"
        using assms(2) by (auto simp: conflicts_command_def split: list.split)
      with 2 show ?thesis using finish [OF rest(3)] finish [OF failed] by (simp add: dispatch_def)
    next
      case 3
      then have "dispatch O' cfg A command arguments =
         (if command = ''status'' then ended (if arguments \<noteq> [] then fails usageError else status_command O')
          else if command = ''inspect'' then ended (case arguments of [fullName] \<Rightarrow> inspect O' fullName | _ \<Rightarrow> fails usageError)
          else if command = ''wire-webhooks'' then wire_command O' cfg A arguments else ended (fails usageError))"
        using others by (simp add: dispatch_def)
      then show ?thesis by (simp only:) (intro guar_if finish wire guar_list rest failed)
    qed
  qed
qed

text \<open>C2: the commands \<open>status\<close>, \<open>inspect\<close>, \<open>conflicts\<close> and the dry runs of \<open>bootstrap\<close> and
  \<open>wire-webhooks\<close> only read. They send nothing but \<open>GET\<close> requests and run no git command but reading
  ones (a network and a git that agree on these cannot be told apart by them), and, the
  resolution of a conflict apart, they change no table but that of the runs.\<close>

theorem reading_commands_only_read:
  assumes "reading_command arguments"
    and "agrees_on_get D (ou_net O')" and "\<And>t. agree_on reading (ou_git O' t) (git t)"
  shows "run_main (exchange D git O') arguments s = run_main O' arguments s
    \<and> (take 2 arguments = [''conflicts'', ''resolve''] \<or> only_runs (db s) (db (snd (run_main O' arguments s))))"
proof (cases arguments)
  case (Cons command rest)
  show ?thesis
  proof (cases "FromEnvironment (ou_environment O') (\<lambda>_ (w :: unit). (Inr (), w))")
    case cfg: (Inr cfg)
    note opened = openRuntime_exchange [OF assms(2,3), of cfg]
    show ?thesis
    proof (cases "\<exists>A. openRuntime O' cfg = Inr (Some A)")
      case True
      then obtain A B where "openRuntime O' cfg = Inr (Some A)" "openRuntime (exchange D git O') cfg = Inr (Some B)" "runtime_alike A B"
        using opened by auto
      then have same: "run_main (exchange D git O') arguments = run_main O' arguments"
        and runs: "run_main O' arguments = dispatch O' cfg A command rest"
        using cfg Cons dispatch_reading assms(1) by (simp_all add: run_main_def)
      show ?thesis
      proof (cases "take 2 arguments = [''conflicts'', ''resolve'']")
        case False
        then have "guar (on_db only_runs) (run_main O' arguments)"
          using only_runs_reading [of command rest O' cfg A] assms(1) Cons unfolding runs by (auto simp: take_Suc split: list.splits)
        with same show ?thesis by (simp add: guar_def on_db_def)
      qed (use same in simp)
    next
      case False
      then have "run_main (exchange D git O') arguments s = run_main O' arguments s \<and> db (snd (run_main O' arguments s)) = db s"
        using opened cfg Cons by (auto simp: run_main_def ended_def fails_def ret_app bnd_app split: sum.splits option.splits)
      then show ?thesis by (simp add: only_runs.P_refl)
    qed
  qed (simp add: run_main_def Cons ended_def fails_def ret_app bnd_app only_runs.P_refl)
qed (simp add: run_main_def ended_def fails_def ret_app bnd_app only_runs.P_refl)

section \<open>Worked examples\<close>

definition sample_settings :: "(string \<times> string) list" where
  "sample_settings = [(''FORGE_SYNC_GITHUB_TOKEN'', ''g''), (''FORGE_SYNC_FORGEJO_API'', ''https://forge/''),
     (''FORGE_SYNC_FORGEJO_TOKEN'', ''t''), (''FORGE_SYNC_GITHUB_WEBHOOK_SECRET'', ''a''),
     (''FORGE_SYNC_FORGEJO_WEBHOOK_SECRET'', ''b'')]"

definition quiet_host :: "'w host" where
  "quiet_host = \<lparr>h_mkdtemp = \<lambda>w. (Inr ''/t'', w), h_chmod = \<lambda>_ w. (Inr (), w), h_removeall = \<lambda>_ w. w,
     h_write = \<lambda>_ _ w. (Inr (), w), h_git = \<lambda>_ _ _ w. (([], Exited 0), w), h_ctx = \<lambda>_. None, h_timer = \<lambda>_ w. (Inr (), w),
     h_parse = \<lambda>_. Some \<lparr>u_Scheme = ''https'', u_Host = ''h'', u_User = False\<rparr>\<rparr>"

definition sample_outside :: "unit outside" where
  "sample_outside = \<lparr>ou_net = steady_net (plain_reply 200 ''[]''), ou_boundary = (\<lambda>w. (''b'', w)),
     ou_env = \<lparr>e_now = (\<lambda>w. (0, w)), e_fault = (\<lambda>w. (None, w)), e_sha256 = (\<lambda>_. ''00''), e_order = (\<lambda>_ xs. xs)\<rparr>,
     ou_git = (\<lambda>_. quiet_host), ou_schedule = (\<lambda>_. 0), ou_decode = Inr,
     ou_environment = sample_environment\<lparr>ce_LookupEnv := map_of sample_settings\<rparr>,
     ou_openErr = (\<lambda>_. None), ou_stdout = (\<lambda>_. None), ou_events = [], ou_end = Interrupted, ou_shutdown = None\<rparr>"

definition open_conflict :: conflict where
  "open_conflict = \<lparr>k_ID = 1, k_Kind = ''issue'', k_Repository = ''a/b'', k_ObjectKey = ''k'',
     k_GitHubState = ''g'', k_ForgejoState = ''f'', k_LastKnownState = ''l'', k_CreatedAt = 5, k_ResolvedAt = None\<rparr>"

definition conflicted_store :: store where
  "conflicted_store = empty_store\<lparr>t_conflicts := [open_conflict], t_conflict_seq := 1\<rparr>"

lemma sample_order: "mset (ce_order (ou_environment sample_outside) m) = mset m"
  by (simp add: sample_outside_def sample_environment_def)

text \<open>The settings are enough to open the runtime.\<close>

lemma sample_opens:
  "case FromEnvironment (ou_environment sample_outside) (\<lambda>_ (w :: unit). (Inr (), w)) of
     Inr cfg \<Rightarrow> (case openRuntime sample_outside cfg of Inr (Some _) \<Rightarrow> True | _ \<Rightarrow> False) | Inl _ \<Rightarrow> False"
  by code_simp

theorem constructors_satisfied_witness:
  "\<exists>cfg A. FromEnvironment (ou_environment sample_outside) (\<lambda>_ (w :: unit). (Inr (), w)) = Inr cfg
     \<and> openRuntime sample_outside cfg = Inr (Some A) \<and> webhook_server_of cfg \<noteq> None"
proof -
  obtain cfg A where cfg: "FromEnvironment (ou_environment sample_outside) (\<lambda>_ (w :: unit). (Inr (), w)) = Inr cfg"
    and A: "openRuntime sample_outside cfg = Inr (Some A)"
    using sample_opens by (auto split: sum.splits option.splits)
  from constructors_satisfied [OF sample_order] cfg have "webhook_server_of cfg \<noteq> None" by blast
  with cfg A show ?thesis by blast
qed

lemma sample_resolution:
  "conflicts_command sample_outside [''resolve'', ''1''] (started conflicted_store ())
   = (Inr (Indent (conflict_value (open_conflict\<lparr>k_ResolvedAt := Some 0\<rparr>)) 0 @ [newline], None),
      started (conflicted_store\<lparr>t_conflicts := [open_conflict\<lparr>k_ResolvedAt := Some 0\<rparr>]\<rparr>) ())"
  by code_simp

lemma conflict_resolved:
  "run_main sample_outside [''conflicts'', ''resolve'', ''1''] (started conflicted_store ())
   = (Inr (Some (Indent (conflict_value (open_conflict\<lparr>k_ResolvedAt := Some 0\<rparr>)) 0 @ [newline], None)),
      started (conflicted_store\<lparr>t_conflicts := [open_conflict\<lparr>k_ResolvedAt := Some 0\<rparr>]\<rparr>) ())"
  using sample_opens sample_resolution
  by (auto simp: run_main_def dispatch_def ended_def bnd_app ret_app split: sum.splits option.splits)

theorem commands_keep_store_witness:
  "store_wf (conflicted_store\<lparr>t_conflicts := [open_conflict\<lparr>k_ResolvedAt := Some 0\<rparr>]\<rparr>)"
proof -
  have "store_wf conflicted_store"
    by (simp add: conflicted_store_def open_conflict_def wf_defs empty_store_def keyed_def numbered_def conflict_tuple_def)
  with commands_keep_store [OF conflict_resolved] show ?thesis by (simp add: started_def)
qed

theorem reading_commands_only_read_witness:
  "run_main (exchange (\<lambda>timeout ctx rq w. if aq_Method rq = ''GET'' then (Inr (plain_reply 200 ''[]''), w) else (Inl (Err ''refused''), w))
       (\<lambda>_. quiet_host) sample_outside) [''bootstrap'', ''--dry-run''] (started empty_store ())
   = run_main sample_outside [''bootstrap'', ''--dry-run''] (started empty_store ())"
proof -
  have "reading_command [''bootstrap'', ''--dry-run'']" by code_simp
  moreover have "agrees_on_get (\<lambda>timeout ctx rq w. if aq_Method rq = ''GET'' then (Inr (plain_reply 200 ''[]''), w) else (Inl (Err ''refused''), w))
      (ou_net sample_outside)"
    by (simp add: agrees_on_get_def sample_outside_def steady_net_def)
  moreover have "agree_on reading (ou_git sample_outside t) quiet_host" for t
    by (simp add: agree_on_def sample_outside_def)
  ultimately show ?thesis
    by (intro reading_commands_only_read [THEN conjunct1])
qed

end
