(* ===== verification/Spec2Isabelle.thy ===== *)
theory Spec2Isabelle
  imports StoreProperties Issues Retry RefPolicy RefSync Comments PullRequests Releases Secrets
    Repositories Webhooks Wiring Configuration Pool Engine Containment ForgejoProperties
    Migrations StoreRows ApplicationProperties
begin

text \<open>
  A verification development for forge-sync, which keeps the repositories of some GitHub
  namespaces and their copies on a Forgejo server in step: git refs, issues, pull requests,
  comments, releases, Actions secrets and webhooks, without ever rewriting history.

  \<^bold>\<open>The program and the theories.\<close> A run goes through these parts, from the inside out:

  \<^item> \<open>internal/model\<close> (Model): the structs as records. \<open>internal/state/store.go\<close>: the SQLite
    tables as lists of rows (Tables), one definition per operation with its statement and its
    error wrapping (Store), the invariant of the tables and the relations "keeps every row",
    \<open>honest\<close>, \<open>retained\<close> and "changes nothing" (StoreLaws, StoreProperties), the opening of the database
    with its migrations (Migrations), and the columns of the mapping tables, as they are bound
    and scanned (StoreRows, over the calendar of Timestamps).
  \<^item> \<open>internal/api/retry.go\<close> (Retry): the policy with its exponential delays on 64-bit
    integers and the loop of attempts.
  \<^item> \<open>internal/gitrefs\<close>: the policy that plans fast-forwards and conflicts (RefPolicy) and the
    synchronizer that fetches, plans and pushes with git (RefSync).
  \<^item> the reconcilers of \<open>internal/issues\<close>, \<open>comments\<close>, \<open>pullrequests\<close>, \<open>releases\<close>, \<open>secrets\<close>
    and \<open>repository\<close> (Issues, Comments, PullRequests, Releases, Secrets, Repositories), each over
    records of the forge operations that it calls. Hashing has the state hashes by which they
    notice changes, Pairing the decision (adopt, update one side, conflict) that they share.
  \<^item> \<open>internal/webhooks\<close>: the HTTP handler with its signatures and its suppression of replays
    (Webhooks) and the management of the hooks on both forges (Wiring).
  \<^item> \<open>internal/reconcile/engine.go\<close>: the pool of workers as a step function under an arbitrary
    schedule (Pool), one repository, a whole run, webhooks and the scheduler (Engine), and what
    becomes of the failure of each step of a repository (Containment).
  \<^item> \<open>internal/config\<close> (Configuration): reading and validating the environment.
  \<^item> \<open>internal/github/client.go\<close>: pacing, rate limits, retries and paging (GitHubTransport), the
    operations with their wire formats (GitHubClient). \<open>internal/forgejo/client.go\<close>: ForgejoClient,
    ForgejoOperations, ForgejoProperties. Both stand on Json (writing and reading JSON, assigning
    it to structs) and Http (escaping, requests, replies, bodies).
  \<^item> \<open>cmd/forge-sync/main.go\<close>: what is printed (Console), the assembly of the runtime, every
    command and the server (Application, ApplicationProperties).

  \<^bold>\<open>State and effects.\<close> A function with effects is a program: it takes a state and returns an
  error or a value with the state that it leaves (Program; the Go errors are a datatype there,
  with the wrapping of \<open>fmt.Errorf\<close>). The state of the reconcilers is the store and a world
  (\<open>'w sys\<close>); operations of the forges and of git act on the world only. Application makes this
  world concrete: the state of the GitHub client (quota, time of the last request) around that of
  the Forgejo client around everything outside. Early returns, panics of constructors and
  deferred calls are branches of the definitions.

  \<^bold>\<open>Lemmas.\<close> The locale \<open>guarantee\<close> is the calculus for "whatever this program does, the states
  before and after are related"; \<open>store_guarantee\<close> extends it to relations on the store and is
  interpreted for what is kept, what is unchanged, what a dry run changes, and others.
  \<open>mapping_table\<close> is the contract of the upserts, interpreted for the five mapping tables, and
  \<open>stored_table\<close> states when rows of columns stand for mappings, interpreted for the same five;
  \<open>webhook_processor\<close> is what the HTTP handler expects of the engine. The properties (numbered
  in their text) rest on these: safety of pushes, dry runs, secrets and visibilities;
  completeness of runs and reports; containment of failures; classification, symmetry and
  convergence of ref plans; termination and fairness-free correctness of the pool; authentic and
  unrepeated deliveries; exactness of validation; listings, paging, pacing and round trips of
  the clients; and for the whole program that an accepted configuration satisfies its
  constructors, that reading commands only read and that the store keeps its rows.

  \<^bold>\<open>Parameters.\<close> Code that is not in the repository: the network (\<open>internet\<close>: sending a request,
  the clock, sleeping, the end of a context), git and the file system (\<open>host\<close>), SQLite's driver
  errors and the effect of SQL scripts, SHA-256, \<open>url.Parse\<close>, the order in which Go ranges over a
  map, the floating-point step of \<open>ParseDuration\<close>, the texts of JSON errors, the boundary of a
  multipart body, the schedule of goroutines, the text of an error of \<open>time.Parse\<close>.

  \<^bold>\<open>Assumptions.\<close> Case folding and white space are those of ASCII, and \<open>EqualFold\<close> compares
  lower-case forms. A statement of SQL is atomic, and an upsert conflicts as the declared keys
  say; the counters of \<open>AUTOINCREMENT\<close> never repeat a number. A nil pointer never reaches the
  constructors. \<open>sort.Slice\<close> is taken to be stable. A job of the pool is one step, and the
  retry policy sleeps with \<open>api.Sleep\<close>. A hypothesis of a property is named in its statement, and
  a witness shows that it can hold.

  \<^bold>\<open>Bounds and fuel.\<close> The reader of JSON has fuel \<open>2 * length + 2\<close>, which \<open>read_json_fuel\<close> shows to
  be enough for every text. The listings stop after 1000 pages, as the code does. The loop of
  attempts runs for \<open>MaxAttempts\<close>, the schedule of the pool until every worker has stopped
  (\<open>pool_ends\<close>); the scheduler runs over a given number of ticks, the server over a given sequence of events up
  to what ends it; a server that nothing ends has no result.

  \<^bold>\<open>Not modelled.\<close> The interleaving of goroutines inside a job of the pool or an event of the
  server; the lock that keeps one repository from being reconciled twice at once; the timeouts of
  \<open>http.Server\<close>, logging, response headers and the exit status of \<open>main\<close>; JSON nested deeper than
  10000 values; the SQL scripts themselves and \<open>migrations/embed.go\<close>; \<open>SetThrottleClockForTest\<close>;
  the panics after \<open>json.Marshal\<close> in the state hashes, which strings, integers and booleans cannot
  reach; the tests, the Nix and container files and the documents.
\<close>

end
